(* ===== verification/Nori_Prelude.thy ===== *)
theory Nori_Prelude
  imports Main "HOL-Library.Word"
begin

text \<open>
  Shared vocabulary of the development: the fixed-width integers of the Rust sources, Rust's
  \<open>Result\<close> with the \<open>?\<close> operator and the loops that return early, checked vector
  indexing, and the generic lemmas on them that the component theories use.

  \<^item> \<open>'e + 'a\<close> is \<open>Result<'a, 'e>\<close>: \<open>Inl\<close> is \<open>Err\<close>, \<open>Inr\<close> is \<open>Ok\<close>;
    \<open>bind_res\<close> is the \<open>?\<close> operator.
  \<^item> \<open>panic\<close> names the ways in which the modelled code can abort; code that may abort
    returns \<open>panic + 'a\<close>, so that the absence of a panic is a theorem and not a convention.
  \<^item> \<open>usize\<close> values (lengths and indices of vectors) are \<open>nat\<close>; every subtraction that
    the code could underflow is written with its check.
\<close>

section \<open>Machine integers\<close>

type_synonym u8 = "8 word"
type_synonym u32 = "32 word"
type_synonym u64 = "64 word"
type_synonym u256 = "256 word"

text \<open>
  A \<open>FixedBytes<N>\<close> of alloy is held as the word of \<open>8 * N\<close> bits whose big-endian bytes
  it is; \<open>Nori_Bytes\<close> converts in both directions. \<open>Bytes\<close> and \<open>Vec<u8>\<close> are byte lists.
\<close>

type_synonym b256 = "256 word"
type_synonym address = "160 word"
type_synonym bytes = "u8 list"

section \<open>Collections of lemmas\<close>

named_theorems res_simps \<open>rewrite rules for results, early returns and checked indexing\<close>
named_theorems codec_simps \<open>rewrite rules for byte encoders and decoders\<close>

section \<open>Results\<close>

datatype panic =
    IndexOutOfBounds
  | SubtractOverflow
  | ShiftOverflow
  | StackOverflow
  | UnwrapFailed string

text \<open>
  An operation that can both abort and return an error: \<open>Panicked\<close> is an abort, \<open>Failed\<close> the
  \<open>Err\<close> value.
\<close>

datatype 'e fault = Panicked panic | Failed 'e

definition bind_res :: "'e + 'a \<Rightarrow> ('a \<Rightarrow> 'e + 'b) \<Rightarrow> 'e + 'b" where
  "bind_res m f = (case m of Inl e \<Rightarrow> Inl e | Inr x \<Rightarrow> f x)"

definition map_err :: "('e \<Rightarrow> 'e2) \<Rightarrow> 'e + 'a \<Rightarrow> 'e2 + 'a" where
  "map_err h m = (case m of Inl e \<Rightarrow> Inl (h e) | Inr x \<Rightarrow> Inr x)"

definition map_res :: "('a \<Rightarrow> 'b) \<Rightarrow> 'e + 'a \<Rightarrow> 'e + 'b" where
  "map_res h m = (case m of Inl e \<Rightarrow> Inl e | Inr x \<Rightarrow> Inr (h x))"

definition ok_or :: "'e \<Rightarrow> 'a option \<Rightarrow> 'e + 'a" where
  "ok_or e m = (case m of None \<Rightarrow> Inl e | Some x \<Rightarrow> Inr x)"

definition is_ok :: "'e + 'a \<Rightarrow> bool" where
  "is_ok m = (case m of Inl _ \<Rightarrow> False | Inr _ \<Rightarrow> True)"

text \<open>\<open>for x in xs\<close> with \<open>?\<close> in the body: a state threaded through, the first error wins.\<close>

fun fold_res :: "('s \<Rightarrow> 'a \<Rightarrow> 'e + 's) \<Rightarrow> 'a list \<Rightarrow> 's \<Rightarrow> 'e + 's" where
  "fold_res f [] s = Inr s"
| "fold_res f (x # xs) s = bind_res (f s x) (fold_res f xs)"

text \<open>\<open>iter().map(f).collect::<Result<Vec<_>>>()\<close>: all results, or the first error.\<close>

fun traverse_res :: "('a \<Rightarrow> 'e + 'b) \<Rightarrow> 'a list \<Rightarrow> 'e + 'b list" where
  "traverse_res f [] = Inr []"
| "traverse_res f (x # xs) =
     bind_res (f x) (\<lambda>y. bind_res (traverse_res f xs) (\<lambda>ys. Inr (y # ys)))"

text \<open>\<open>for x in xs { f(x)?; }\<close>: run \<open>f\<close> on every element until the first error.\<close>

fun for_each_res :: "('a \<Rightarrow> 'e + unit) \<Rightarrow> 'a list \<Rightarrow> 'e + unit" where
  "for_each_res f [] = Inr ()"
| "for_each_res f (x # xs) = bind_res (f x) (\<lambda>_. for_each_res f xs)"

text \<open>Checked vector access: out of range aborts.\<close>

definition index_res :: "'a list \<Rightarrow> nat \<Rightarrow> panic + 'a" where
  "index_res xs i = (if i < length xs then Inr (xs ! i) else Inl IndexOutOfBounds)"

definition update_res :: "'a list \<Rightarrow> nat \<Rightarrow> 'a \<Rightarrow> panic + 'a list" where
  "update_res xs i v = (if i < length xs then Inr (xs[i := v]) else Inl IndexOutOfBounds)"

definition sub_res :: "nat \<Rightarrow> nat \<Rightarrow> panic + nat" where
  "sub_res a b = (if b \<le> a then Inr (a - b) else Inl SubtractOverflow)"

text \<open>\<open>slice::chunks\<close>: pieces of \<open>n\<close> elements, the last one possibly shorter.\<close>

fun chunks_fuel :: "nat \<Rightarrow> nat \<Rightarrow> 'a list \<Rightarrow> 'a list list" where
  "chunks_fuel 0 n xs = []"
| "chunks_fuel (Suc k) n xs = (if xs = [] then [] else take n xs # chunks_fuel k n (drop n xs))"

definition chunks :: "nat \<Rightarrow> 'a list \<Rightarrow> 'a list list" where
  "chunks n xs = chunks_fuel (length xs) n xs"

section \<open>Lemmas on results\<close>

lemma bind_res_simps [simp, res_simps]:
  "bind_res (Inl e) f = Inl e"
  "bind_res (Inr x) f = f x"
  by (simp_all add: bind_res_def)

lemma bind_res_eq_Inr [res_simps]:
  "bind_res m f = Inr y \<longleftrightarrow> (\<exists>x. m = Inr x \<and> f x = Inr y)"
  by (cases m) auto

lemma bind_res_eq_Inl [res_simps]:
  "bind_res m f = Inl e \<longleftrightarrow> m = Inl e \<or> (\<exists>x. m = Inr x \<and> f x = Inl e)"
  by (cases m) auto

text \<open>Guards with an early return, and a match whose \<open>None\<close> arm returns early.\<close>

lemma guard_eq_Inr [res_simps]: "(if b then Inl e else m) = Inr x \<longleftrightarrow> \<not> b \<and> m = Inr x"
  by simp

lemma case_option_eq_Inr [res_simps]:
  "(case m of None \<Rightarrow> Inl e | Some y \<Rightarrow> f y) = Inr x \<longleftrightarrow> (\<exists>y. m = Some y \<and> f y = Inr x)"
  by (cases m) auto

lemma case_list_eq_Inr [res_simps]:
  "(case xs of [] \<Rightarrow> Inl e | y # ys \<Rightarrow> f y ys) = Inr x \<longleftrightarrow> (\<exists>y ys. xs = y # ys \<and> f y ys = Inr x)"
  by (cases xs) auto

lemma bind_res_assoc: "bind_res (bind_res m f) g = bind_res m (\<lambda>x. bind_res (f x) g)"
  by (cases m) auto

lemma bind_res_Inr_right [simp]: "bind_res m Inr = m"
  by (cases m) auto

lemma bind_res_cong [fundef_cong]:
  "m = m' \<Longrightarrow> (\<And>x. m' = Inr x \<Longrightarrow> f x = f' x) \<Longrightarrow> bind_res m f = bind_res m' f'"
  by (cases m') auto

lemma map_err_simps [simp, res_simps]:
  "map_err h (Inl e) = Inl (h e)"
  "map_err h (Inr x) = Inr x"
  by (simp_all add: map_err_def)

lemma map_err_eq_Inr [simp, res_simps]: "map_err h m = Inr x \<longleftrightarrow> m = Inr x"
  by (cases m) auto

lemma map_err_eq_Inl [res_simps]: "map_err h m = Inl e \<longleftrightarrow> (\<exists>e0. m = Inl e0 \<and> e = h e0)"
  by (cases m) auto

lemma map_res_simps [simp, res_simps]:
  "map_res h (Inl e) = Inl e"
  "map_res h (Inr x) = Inr (h x)"
  by (simp_all add: map_res_def)

lemma map_res_eq_Inr [res_simps]: "map_res h m = Inr y \<longleftrightarrow> (\<exists>x. m = Inr x \<and> y = h x)"
  by (cases m) auto

lemma ok_or_simps [simp, res_simps]:
  "ok_or e None = Inl e"
  "ok_or e (Some x) = Inr x"
  by (simp_all add: ok_or_def)

lemma ok_or_eq_Inr [simp, res_simps]: "ok_or e m = Inr x \<longleftrightarrow> m = Some x"
  by (cases m) auto

lemma is_ok_simps [simp, res_simps]:
  "\<not> is_ok (Inl e)"
  "is_ok (Inr x)"
  by (simp_all add: is_ok_def)

lemma is_ok_iff: "is_ok m \<longleftrightarrow> (\<exists>x. m = Inr x)"
  by (cases m) auto

lemma not_is_ok_iff: "\<not> is_ok m \<longleftrightarrow> (\<exists>e. m = Inl e)"
  by (cases m) auto

lemma fold_res_append:
  "fold_res f (xs @ ys) s = bind_res (fold_res f xs s) (fold_res f ys)"
proof (induction xs arbitrary: s)
  case Nil
  then show ?case by simp
next
  case (Cons x xs)
  then show ?case by (cases "f s x") simp_all
qed

text \<open>A loop whose body never fails is a fold.\<close>

lemma fold_res_total:
  assumes "P s" and "\<And>s x. P s \<Longrightarrow> x \<in> set xs \<Longrightarrow> f s x = Inr (g s x) \<and> P (g s x)"
  shows "fold_res f xs s = Inr (foldl g s xs) \<and> P (foldl g s xs)"
  using assms
proof (induction xs arbitrary: s)
  case Nil
  then show ?case by simp
next
  case (Cons x xs)
  have step: "f s x = Inr (g s x)" "P (g s x)"
    using Cons.prems(2)[of s x] Cons.prems(1) by auto
  have "fold_res f xs (g s x) = Inr (foldl g (g s x) xs) \<and> P (foldl g (g s x) xs)"
    using Cons.prems(2) step(2) by (intro Cons.IH) auto
  with step show ?case by simp
qed

text \<open>A loop that succeeds ran every iteration from a state satisfying the invariant.\<close>

lemma fold_res_invariant:
  assumes "fold_res f xs s = Inr t" and "I [] s"
    and "\<And>ys x s u. I ys s \<Longrightarrow> f s x = Inr u \<Longrightarrow> I (ys @ [x]) u"
  shows "I xs t"
proof -
  have "fold_res f xs s = Inr t \<Longrightarrow> I zs s \<Longrightarrow> I (zs @ xs) t" for zs
  proof (induction xs arbitrary: s zs)
    case Nil
    then show ?case by simp
  next
    case (Cons x xs)
    then obtain u where "f s x = Inr u" "fold_res f xs u = Inr t"
      by (auto simp: bind_res_eq_Inr)
    with Cons.IH[of u "zs @ [x]"] Cons.prems(2) assms(3) show ?case by simp
  qed
  from this[of "[]"] assms(1,2) show ?thesis by simp
qed

lemma traverse_res_eq_Inr:
  "traverse_res f xs = Inr ys \<longleftrightarrow> list_all2 (\<lambda>x y. f x = Inr y) xs ys"
proof (induction xs arbitrary: ys)
  case Nil
  then show ?case by auto
next
  case (Cons x xs)
  then show ?case by (auto simp: bind_res_eq_Inr list_all2_Cons1)
qed

lemma traverse_res_map:
  assumes "\<And>x. x \<in> set xs \<Longrightarrow> f x = Inr (g x)"
  shows "traverse_res f xs = Inr (map g xs)"
  using assms by (induction xs) auto

lemma traverse_res_length: "traverse_res f xs = Inr ys \<Longrightarrow> length ys = length xs"
  by (auto simp: traverse_res_eq_Inr dest: list_all2_lengthD)

lemma for_each_res_ok: "for_each_res f xs = Inr () \<longleftrightarrow> (\<forall>x \<in> set xs. f x = Inr ())"
  by (induction xs) (auto simp: bind_res_eq_Inr)

lemma for_each_res_Inl: "for_each_res f xs = Inl e \<Longrightarrow> \<exists>x \<in> set xs. f x = Inl e"
  by (induction xs) (auto simp: bind_res_eq_Inl)

lemma traverse_res_Inl: "traverse_res f xs = Inl e \<Longrightarrow> \<exists>x \<in> set xs. f x = Inl e"
  by (induction xs) (auto simp: bind_res_eq_Inl)

lemma fold_res_Inl: "fold_res f xs s = Inl e \<Longrightarrow> \<exists>t. \<exists>x \<in> set xs. f t x = Inl e"
proof (induction xs arbitrary: s)
  case (Cons x xs)
  then show ?case by (fastforce simp: bind_res_eq_Inl)
qed simp

lemma index_res_in [simp, res_simps]: "i < length xs \<Longrightarrow> index_res xs i = Inr (xs ! i)"
  by (simp add: index_res_def)

lemma index_res_eq_Inr: "index_res xs i = Inr v \<longleftrightarrow> i < length xs \<and> v = xs ! i"
  by (auto simp: index_res_def)

lemma update_res_in [simp, res_simps]: "i < length xs \<Longrightarrow> update_res xs i v = Inr (xs[i := v])"
  by (simp add: update_res_def)

lemma sub_res_ok [simp, res_simps]: "b \<le> a \<Longrightarrow> sub_res a b = Inr (a - b)"
  by (simp add: sub_res_def)

section \<open>Lemmas on chunks\<close>

lemma concat_chunks_fuel: "0 < n \<Longrightarrow> length xs \<le> k \<Longrightarrow> concat (chunks_fuel k n xs) = xs"
proof (induction k arbitrary: xs)
  case 0
  then show ?case by simp
next
  case (Suc k)
  then show ?case by (cases xs) auto
qed

lemma concat_chunks [simp]: "0 < n \<Longrightarrow> concat (chunks n xs) = xs"
  by (simp add: chunks_def concat_chunks_fuel)

lemma chunks_fuel_sizes:
  "0 < n \<Longrightarrow> c \<in> set (chunks_fuel k n xs) \<Longrightarrow> c \<noteq> [] \<and> length c \<le> n"
  by (induction k arbitrary: xs) (auto split: if_splits)

lemma chunks_sizes: "0 < n \<Longrightarrow> c \<in> set (chunks n xs) \<Longrightarrow> c \<noteq> [] \<and> length c \<le> n"
  unfolding chunks_def by (rule chunks_fuel_sizes)

lemma chunks_fuel_concat_map:
  assumes "\<And>x. length (f x) = n" and "0 < n" and "length xs \<le> k"
  shows "chunks_fuel k n (concat (map f xs)) = map f xs"
  using assms(3)
proof (induction xs arbitrary: k)
  case Nil
  then show ?case by (cases k) auto
next
  case (Cons x xs)
  then obtain k' where k: "k = Suc k'" "length xs \<le> k'" by (cases k) auto
  have "f x \<noteq> []" using assms(1)[of x] assms(2) by auto
  with k Cons.IH[of k'] show ?case by (simp add: assms(1))
qed

lemma chunks_concat_map:
  assumes "\<And>x. length (f x) = n" and "0 < n"
  shows "chunks n (concat (map f xs)) = map f xs"
proof -
  have "length (concat (map f xs)) = n * length xs"
    using assms(1) by (induction xs) auto
  then have "length xs \<le> length (concat (map f xs))"
    using assms(2) by simp
  then show ?thesis
    unfolding chunks_def by (intro chunks_fuel_concat_map assms)
qed

section \<open>Lemmas on lists and words\<close>

lemma list_all2_map_eq: "list_all2 (\<lambda>x y. y = f x) xs ys \<longleftrightarrow> ys = map f xs"
  by (induction xs arbitrary: ys) (auto simp: list_all2_Cons1)

lemma unat_add_no_overflow:
  fixes a b :: "'n::len word"
  assumes "unat a + unat b < 2 ^ LENGTH('n)"
  shows "unat (a + b) = unat a + unat b"
  using assms by (simp add: unat_add_lem)

lemma unat_sub_le:
  fixes a b :: "'n::len word"
  assumes "b \<le> a"
  shows "unat (a - b) = unat a - unat b"
  using assms by (rule unat_sub)

end
