(* ===== verification/Nori_Bytes.thy ===== *)
theory Nori_Bytes
  imports Nori_Prelude
begin

text \<open>
  Byte encodings of machine words: \<open>to_be_bytes\<close>, \<open>from_be_bytes\<close> and their
  little-endian counterparts of Rust's integers and of \<open>ruint\<close>'s \<open>U256\<close>, over arithmetic on
  \<open>nat\<close>. The round trips proved here carry the layout proofs of the other theories. The locale
  \<open>byte_codec\<close> is the interface of a fixed-size record codec; \<open>Nori_Types\<close> interprets it for
  the two public-output records of the proof programs.
\<close>

section \<open>Little-endian digits\<close>

fun le_of_nat :: "nat \<Rightarrow> nat \<Rightarrow> bytes" where
  "le_of_nat 0 x = []"
| "le_of_nat (Suc n) x = of_nat (x mod 256) # le_of_nat n (x div 256)"

fun nat_of_le :: "bytes \<Rightarrow> nat" where
  "nat_of_le [] = 0"
| "nat_of_le (b # bs) = unat b + 256 * nat_of_le bs"

definition to_le_bytes :: "nat \<Rightarrow> 'n::len word \<Rightarrow> bytes" where
  "to_le_bytes n w = le_of_nat n (unat w)"

definition to_be_bytes :: "nat \<Rightarrow> 'n::len word \<Rightarrow> bytes" where
  "to_be_bytes n w = rev (to_le_bytes n w)"

definition from_le_bytes :: "bytes \<Rightarrow> 'n::len word" where
  "from_le_bytes bs = of_nat (nat_of_le bs)"

definition from_be_bytes :: "bytes \<Rightarrow> 'n::len word" where
  "from_be_bytes bs = from_le_bytes (rev bs)"

text \<open>\<open>buf[off..off + len].copy_from_slice(src)\<close>, and the slice \<open>buf[off..off + len]\<close>.\<close>

definition copy_at :: "nat \<Rightarrow> bytes \<Rightarrow> bytes \<Rightarrow> bytes" where
  "copy_at off src buf = take off buf @ src @ drop (off + length src) buf"

definition slice_at :: "nat \<Rightarrow> nat \<Rightarrow> 'a list \<Rightarrow> 'a list" where
  "slice_at i j xs = take (j - i) (drop i xs)"

section \<open>Round trips\<close>

lemma length_le_of_nat [simp]: "length (le_of_nat n x) = n"
  by (induction n arbitrary: x) auto

lemma take_le_of_nat: "m \<le> n \<Longrightarrow> take m (le_of_nat n x) = le_of_nat m x"
proof (induction n arbitrary: m x)
  case 0
  then show ?case by simp
next
  case (Suc n)
  then show ?case by (cases m) auto
qed

lemma length_to_le_bytes [simp, codec_simps]: "length (to_le_bytes n w) = n"
  by (simp add: to_le_bytes_def)

lemma length_to_be_bytes [simp, codec_simps]: "length (to_be_bytes n w) = n"
  by (simp add: to_be_bytes_def)

lemma unat_byte: "unat (of_nat (x mod 256) :: u8) = x mod 256"
  by (simp add: unat_of_nat)

lemma nat_of_le_of_nat: "nat_of_le (le_of_nat n x) = x mod 256 ^ n"
proof (induction n arbitrary: x)
  case 0
  then show ?case by simp
next
  case (Suc n)
  have "nat_of_le (le_of_nat (Suc n) x) = x mod 256 + 256 * (x div 256 mod 256 ^ n)"
    by (simp add: Suc.IH unat_byte)
  also have "\<dots> = x mod 256 ^ Suc n"
    by (simp add: mod_mult2_eq)
  finally show ?case .
qed

lemma unat_u8_less: "unat (b :: u8) < 256"
  using unsigned_less[of b] by simp

lemma nat_of_le_bound: "nat_of_le bs < 256 ^ length bs"
proof (induction bs)
  case Nil
  then show ?case by simp
next
  case (Cons b bs)
  have "unat b < 256" by (rule unat_u8_less)
  with Cons show ?case by simp
qed

lemma le_of_nat_of_le: "le_of_nat (length bs) (nat_of_le bs) = bs"
proof (induction bs)
  case Nil
  then show ?case by simp
next
  case (Cons b bs)
  have "unat b < 256" by (rule unat_u8_less)
  with Cons show ?case by simp
qed

lemma nat_of_le_append: "nat_of_le (xs @ ys) = nat_of_le xs + 256 ^ length xs * nat_of_le ys"
  by (induction xs) (auto simp: algebra_simps)

lemma nat_of_le_inject:
  assumes "nat_of_le xs = nat_of_le ys" and "length xs = length ys"
  shows "xs = ys"
  using assms by (metis le_of_nat_of_le)

lemma from_le_to_le_bytes:
  fixes w :: "'n::len word"
  assumes "LENGTH('n) \<le> 8 * n"
  shows "from_le_bytes (to_le_bytes n w) = w"
proof -
  have "unat w < 2 ^ LENGTH('n)" by (rule unsigned_less)
  also have "\<dots> \<le> 2 ^ (8 * n)" using assms by (intro power_increasing) auto
  also have "\<dots> = 256 ^ n" by (simp add: power_mult)
  finally show ?thesis
    by (simp add: from_le_bytes_def to_le_bytes_def nat_of_le_of_nat)
qed

lemma from_be_to_be_bytes:
  fixes w :: "'n::len word"
  assumes "LENGTH('n) \<le> 8 * n"
  shows "from_be_bytes (to_be_bytes n w) = w"
  using assms by (simp add: from_be_bytes_def to_be_bytes_def from_le_to_le_bytes)

lemma to_le_from_le_bytes:
  assumes "LENGTH('n::len) = 8 * length bs"
  shows "to_le_bytes (length bs) (from_le_bytes bs :: 'n word) = bs"
proof -
  have "nat_of_le bs < 2 ^ LENGTH('n)"
    using nat_of_le_bound[of bs] by (simp add: assms power_mult)
  then have "unat (from_le_bytes bs :: 'n word) = nat_of_le bs"
    by (simp add: from_le_bytes_def unat_of_nat)
  then show ?thesis by (simp add: to_le_bytes_def le_of_nat_of_le)
qed

lemma to_be_from_be_bytes:
  assumes "LENGTH('n::len) = 8 * n" and "length bs = n"
  shows "to_be_bytes n (from_be_bytes bs :: 'n word) = bs"
  using to_le_from_le_bytes[where 'n = 'n, of "rev bs"] assms
  by (simp add: from_be_bytes_def to_be_bytes_def)

lemma be_bytes_u64 [simp, codec_simps]: "from_be_bytes (to_be_bytes 8 (w :: u64)) = w"
  by (rule from_be_to_be_bytes) simp

lemma be_bytes_b256 [simp, codec_simps]: "from_be_bytes (to_be_bytes 32 (w :: b256)) = w"
  by (rule from_be_to_be_bytes) simp

lemma be_bytes_address [simp, codec_simps]: "from_be_bytes (to_be_bytes 20 (w :: address)) = w"
  by (rule from_be_to_be_bytes) simp

lemma u64_be_bytes [codec_simps]: "length bs = 8 \<Longrightarrow> to_be_bytes 8 (from_be_bytes bs :: u64) = bs"
  by (rule to_be_from_be_bytes) auto

lemma b256_be_bytes [codec_simps]:
  "length bs = 32 \<Longrightarrow> to_be_bytes 32 (from_be_bytes bs :: b256) = bs"
  by (rule to_be_from_be_bytes) auto

lemma address_be_bytes [codec_simps]:
  "length bs = 20 \<Longrightarrow> to_be_bytes 20 (from_be_bytes bs :: address) = bs"
  by (rule to_be_from_be_bytes) auto

lemma to_be_bytes_inject:
  fixes v w :: "'n::len word"
  assumes "LENGTH('n) \<le> 8 * n" and "to_be_bytes n v = to_be_bytes n w"
  shows "v = w"
  using assms by (metis from_be_to_be_bytes)

lemma to_be_bytes_eq_iff [simp, codec_simps]:
  "to_be_bytes 8 (v :: u64) = to_be_bytes 8 v' \<longleftrightarrow> v = v'"
  "to_be_bytes 32 (w :: b256) = to_be_bytes 32 w' \<longleftrightarrow> w = w'"
  "to_be_bytes 20 (a :: address) = to_be_bytes 20 a' \<longleftrightarrow> a = a'"
  by (metis be_bytes_u64, metis be_bytes_b256, metis be_bytes_address)

section \<open>Buffers\<close>

lemma length_copy_at [simp, codec_simps]:
  "off + length src \<le> length buf \<Longrightarrow> length (copy_at off src buf) = length buf"
  by (simp add: copy_at_def)

lemma length_slice_at [simp, codec_simps]:
  "j \<le> length xs \<Longrightarrow> length (slice_at i j xs) = j - i"
  by (simp add: slice_at_def)

text \<open>A slice that lies before, at or behind a copied region.\<close>

lemma slice_copy_same [codec_simps]:
  "off + length src \<le> length buf \<Longrightarrow> j = off + length src \<Longrightarrow>
   slice_at off j (copy_at off src buf) = src"
  by (simp add: slice_at_def copy_at_def)

lemma slice_copy_before [codec_simps]:
  "j \<le> off \<Longrightarrow> off + length src \<le> length buf \<Longrightarrow>
   slice_at i j (copy_at off src buf) = slice_at i j buf"
  by (rule nth_equalityI) (auto simp: slice_at_def copy_at_def nth_append)

lemma slice_append_slices:
  assumes "a \<le> b" and "b \<le> c" and "c \<le> length xs"
  shows "slice_at a b xs @ slice_at b c xs = slice_at a c xs"
proof -
  have "take (c - a) (drop a xs) = take (b - a) (drop a xs) @ take (c - b) (drop (b - a) (drop a xs))"
    using assms(1,2) take_add[of "b - a" "c - b" "drop a xs"] by simp
  then show ?thesis using assms by (simp add: slice_at_def)
qed

section \<open>Interface of a fixed-size record codec\<close>

text \<open>
  What a consumer of an encoded record relies on: the encoder fills exactly \<open>size\<close> bytes, the
  decoder inverts it, everything the decoder accepts is an encoding, and it rejects exactly
  the buffers of another length.
\<close>

locale byte_codec =
  fixes enc :: "'r \<Rightarrow> bytes"
    and dec :: "bytes \<Rightarrow> 'e + 'r"
    and size :: nat
  assumes enc_length: "length (enc r) = size"
    and dec_enc: "dec (enc r) = Inr r"
    and dec_accepts: "length bs = size \<Longrightarrow> \<exists>r. dec bs = Inr r \<and> enc r = bs"
    and dec_rejects: "length bs \<noteq> size \<Longrightarrow> \<exists>e. dec bs = Inl e"
begin

lemma enc_inject: "enc r = enc s \<longleftrightarrow> r = s"
  by (metis dec_enc sum.inject(2))

lemma dec_ok_iff: "is_ok (dec bs) \<longleftrightarrow> length bs = size"
proof (cases "length bs = size")
  case True
  with dec_accepts[OF True] show ?thesis by auto
next
  case False
  with dec_rejects[OF False] show ?thesis by auto
qed

lemma dec_eq_iff: "dec bs = Inr r \<longleftrightarrow> bs = enc r"
proof
  assume ok: "dec bs = Inr r"
  then have "length bs = size" using dec_rejects[of bs] by auto
  then show "bs = enc r" using dec_accepts[of bs] ok by auto
qed (simp add: dec_enc)

lemma dec_inject: "dec bs = Inr r \<Longrightarrow> dec bs' = Inr r \<Longrightarrow> bs = bs'"
  by (simp add: dec_eq_iff)

end

end
