(* ===== verification/Nori_Storage_Layout.thy ===== *)
theory Nori_Storage_Layout
  imports Nori_Bytes
begin

text \<open>
  \<open>nori-primitives/src/storage_layout.rs\<close>: the storage layout of the NoriProofRequestQueue
  contract and the Solidity storage arithmetic with which guest and host derive the same keys.
  \<open>keccak256\<close> (package alloy-primitives) is a parameter.
\<close>

type_synonym keccak = "bytes \<Rightarrow> b256"

definition QUEUE_HEAD_STORAGE_INDEX :: u8 where
  "QUEUE_HEAD_STORAGE_INDEX = 0"

definition QUEUE_REQUESTS_STORAGE_INDEX :: u8 where
  "QUEUE_REQUESTS_STORAGE_INDEX = 1"

definition QUEUE_ENTRY_WORDS :: nat where
  "QUEUE_ENTRY_WORDS = 5"

definition MAX_COLLECTION_KEYS :: nat where
  "MAX_COLLECTION_KEYS = 2"

text \<open>\<open>B256::from(U256)\<close> and \<open>U256::from_be_bytes(b.0)\<close>: both go through the 32 big-endian bytes.\<close>

definition b256_of_u256 :: "u256 \<Rightarrow> b256" where
  "b256_of_u256 w = from_be_bytes (to_be_bytes 32 w)"

definition u256_of_b256 :: "b256 \<Rightarrow> u256" where
  "u256_of_b256 b = from_be_bytes (to_be_bytes 32 b)"

definition storage_slot_of_index :: "u8 \<Rightarrow> b256" where
  "storage_slot_of_index idx = b256_of_u256 (ucast idx)"

definition mapping_entry_preimage :: "u256 \<Rightarrow> u8 \<Rightarrow> bytes" where
  "mapping_entry_preimage key mapping_slot_index =
     (let encoded0 = replicate 64 0;
          encoded1 = copy_at 0 (to_be_bytes 32 key) encoded0
      in copy_at 32 (to_be_bytes 32 (ucast mapping_slot_index :: u256)) encoded1)"

definition mapping_entry_location :: "keccak \<Rightarrow> u256 \<Rightarrow> u8 \<Rightarrow> b256" where
  "mapping_entry_location keccak256 key mapping_slot_index =
     keccak256 (mapping_entry_preimage key mapping_slot_index)"

definition struct_word_slot :: "b256 \<Rightarrow> u8 \<Rightarrow> b256" where
  "struct_word_slot base word_index = b256_of_u256 (u256_of_b256 base + ucast word_index)"

definition word_of_address :: "address \<Rightarrow> u256" where
  "word_of_address addr = from_be_bytes (to_be_bytes 20 addr)"

definition word_of_b256 :: "b256 \<Rightarrow> u256" where
  "word_of_b256 w = u256_of_b256 w"

section \<open>What the arithmetic computes\<close>

lemma b256_of_u256_id [simp]: "b256_of_u256 w = w"
  by (simp add: b256_of_u256_def)

lemma u256_of_b256_id [simp]: "u256_of_b256 b = b"
  by (simp add: u256_of_b256_def)

lemma word_of_b256_id [simp]: "word_of_b256 b = b"
  by (simp add: word_of_b256_def)

lemma struct_word_slot_add: "struct_word_slot base i = base + ucast i"
  by (simp add: struct_word_slot_def)

lemma struct_word_slot_0 [simp]: "struct_word_slot base 0 = base"
  by (simp add: struct_word_slot_add)

lemma unat_ucast_up:
  fixes w :: "'a::len word"
  assumes "LENGTH('a) \<le> LENGTH('b::len)"
  shows "unat (ucast w :: 'b word) = unat w"
proof -
  have "unat w < 2 ^ LENGTH('a)" by (rule unsigned_less)
  also have "\<dots> \<le> 2 ^ LENGTH('b)" using assms by (intro power_increasing) auto
  finally show ?thesis by (simp add: unsigned_ucast_eq take_bit_nat_eq_self)
qed

lemma ucast_u8_u256_inject: "(ucast (i :: u8) :: u256) = ucast j \<longleftrightarrow> i = j"
proof
  assume "(ucast i :: u256) = ucast j"
  then have "unat (ucast i :: u256) = unat (ucast j :: u256)" by simp
  then have "unat i = unat j" by (simp add: unat_ucast_up)
  then show "i = j" by (rule unsigned_word_eqI)
qed simp

lemma struct_word_slot_inject: "struct_word_slot base i = struct_word_slot base j \<longleftrightarrow> i = j"
  by (simp add: struct_word_slot_add ucast_u8_u256_inject)

lemma mapping_entry_preimage_layout:
  "mapping_entry_preimage key idx = to_be_bytes 32 key @ to_be_bytes 32 (ucast idx :: u256)"
  by (simp add: mapping_entry_preimage_def copy_at_def)

lemma unat_word_of_address: "unat (word_of_address a) = unat a"
proof -
  have small: "unat a < 2 ^ 160" using unsigned_less[of a] by simp
  have "nat_of_le (to_le_bytes 20 a) = unat a"
    using small by (simp add: to_le_bytes_def nat_of_le_of_nat)
  then show ?thesis
    using small
    by (simp add: word_of_address_def from_be_bytes_def to_be_bytes_def from_le_bytes_def
        unat_ucast_up)
qed

lemma word_of_address_ucast: "word_of_address a = ucast a"
proof -
  have "unat (word_of_address a) = unat (ucast a :: u256)"
    by (simp only: unat_word_of_address) (simp add: unat_ucast_up)
  then show ?thesis by (rule unsigned_word_eqI)
qed

lemma word_of_address_inject: "word_of_address a = word_of_address b \<longleftrightarrow> a = b"
  by (metis unat_word_of_address unsigned_word_eqI)

lemma mapping_entry_preimage_inject:
  "mapping_entry_preimage k i = mapping_entry_preimage k' i' \<longleftrightarrow> k = k' \<and> i = i'"
proof
  assume "mapping_entry_preimage k i = mapping_entry_preimage k' i'"
  then have "to_be_bytes 32 k = to_be_bytes 32 k'"
    "to_be_bytes 32 (ucast i :: u256) = to_be_bytes 32 (ucast i' :: u256)"
    by (simp_all add: mapping_entry_preimage_layout)
  then have "k = k'" "(ucast i :: u256) = ucast i'"
    by (auto dest: to_be_bytes_inject[rotated])
  then show "k = k' \<and> i = i'" by (simp add: ucast_u8_u256_inject)
qed simp

section \<open>Properties\<close>

text \<open>Storage locations of the queue. The Keccak preimage of an entry is the 64-byte Solidity layout
  \<open>key ++ mapping index\<close> and determines both, so two entries share a base location only if
  Keccak collides; the words of one entry lie in distinct slots whatever the base, wrap-around
  at \<open>2 ^ 256\<close> included; and an address is recovered from its storage word.\<close>

theorem queue_entry_locations:
  "mapping_entry_location H key idx =
     H (to_be_bytes 32 key @ to_be_bytes 32 (ucast idx :: u256)) \<and>
   (mapping_entry_preimage key idx = mapping_entry_preimage key' idx' \<longleftrightarrow> key = key' \<and> idx = idx') \<and>
   distinct (map (struct_word_slot base) [0, 1, 2, 3, 4]) \<and>
   struct_word_slot base 0 = base \<and>
   (word_of_address a = word_of_address b \<longleftrightarrow> a = b)"
  using mapping_entry_preimage_inject[of key idx key' idx']
  by (simp add: mapping_entry_location_def mapping_entry_preimage_layout[of key idx]
      struct_word_slot_inject word_of_address_inject del: struct_word_slot_0) simp

end
