(* ===== verification/Nori_Types.thy ===== *)
theory Nori_Types
  imports Nori_Storage_Layout
begin

text \<open>
  \<open>nori-primitives/src/types.rs\<close>: the witness records of the proof request queue and the two
  public-output records with their fixed byte layouts (\<open>to_bytes\<close> / \<open>from_bytes\<close>). The types
  of \<open>TrieAccount\<close> (package alloy-trie) are the fields the sources name. Both layouts are
  interpretations of \<open>byte_codec\<close>, which gives the round trips and injectivity.
\<close>

section \<open>Witness records\<close>

record trie_account =
  ta_nonce :: u64
  ta_balance :: u256
  ta_storage_root :: b256
  ta_code_hash :: b256

text \<open>The arrays \<open>collection_keys\<close> (2 elements) and \<open>word_proofs\<close> (5 elements) are tuples.\<close>

record queue_entry_proof =
  qe_target :: address
  qe_slot_key :: b256
  qe_collection_keys_count :: u8
  qe_collection_keys :: "b256 \<times> b256"
  qe_word_proofs :: "bytes list \<times> bytes list \<times> bytes list \<times> bytes list \<times> bytes list"

record target_slot_proof =
  ts_key :: b256
  ts_value :: u256
  ts_mpt_proof :: "bytes list"

record target_storage_proof =
  tp_target_address :: address
  tp_account :: "trie_account option"
  tp_account_mpt_proof :: "bytes list"
  tp_slots :: "target_slot_proof list"

record queue_storage =
  qs_proof_request_queue_address :: address
  qs_proof_request_queue_account :: trie_account
  qs_proof_request_queue_account_mpt_proof :: "bytes list"
  qs_head :: u64
  qs_head_mpt_proof :: "bytes list"
  qs_input_cursor :: u64
  qs_entries :: "queue_entry_proof list"
  qs_targets :: "target_storage_proof list"

record verified_request =
  vr_target :: address
  vr_collection_keys_count :: u8
  vr_collection_keys :: "b256 \<times> b256"
  vr_value :: u256

section \<open>Public outputs\<close>

record proof_outputs =
  po_input_slot :: u64
  po_input_store_hash :: b256
  po_output_slot :: u64
  po_output_store_hash :: b256
  po_execution_state_root :: b256
  po_verified_requests_root :: b256
  po_next_sync_committee_hash :: b256
  po_proof_request_queue_address :: address
  po_input_queue_cursor :: u64
  po_output_queue_cursor :: u64
  po_output_block_number :: u64

record consensus_proof_outputs =
  co_input_slot :: u64
  co_input_store_hash :: b256
  co_output_slot :: u64
  co_output_store_hash :: b256
  co_execution_state_root :: b256
  co_next_sync_committee_hash :: b256
  co_output_block_number :: u64

datatype decode_error =
    InvalidInputLength nat nat
  | SliceContext string

definition PROOF_OUTPUTS_SIZE :: nat where
  "PROOF_OUTPUTS_SIZE = 220"

definition CONSENSUS_PROOF_OUTPUTS_SIZE :: nat where
  "CONSENSUS_PROOF_OUTPUTS_SIZE = 152"

text \<open>\<open>bytes[a..b].try_into().context(..)?\<close> followed by \<open>u64::from_be_bytes\<close>.\<close>

definition u64_at :: "string \<Rightarrow> nat \<Rightarrow> nat \<Rightarrow> bytes \<Rightarrow> decode_error + u64" where
  "u64_at ctx i j bs =
     (let s = slice_at i j bs
      in if length s = 8 then Inr (from_be_bytes s) else Inl (SliceContext ctx))"

definition proof_outputs_to_bytes :: "proof_outputs \<Rightarrow> bytes" where
  "proof_outputs_to_bytes p =
     (let buf = replicate PROOF_OUTPUTS_SIZE 0;
          buf = copy_at 0 (to_be_bytes 8 (po_input_slot p)) buf;
          buf = copy_at 8 (to_be_bytes 32 (po_input_store_hash p)) buf;
          buf = copy_at 40 (to_be_bytes 8 (po_output_slot p)) buf;
          buf = copy_at 48 (to_be_bytes 32 (po_output_store_hash p)) buf;
          buf = copy_at 80 (to_be_bytes 32 (po_execution_state_root p)) buf;
          buf = copy_at 112 (to_be_bytes 32 (po_verified_requests_root p)) buf;
          buf = copy_at 144 (to_be_bytes 32 (po_next_sync_committee_hash p)) buf;
          buf = copy_at 176 (to_be_bytes 20 (po_proof_request_queue_address p)) buf;
          buf = copy_at 196 (to_be_bytes 8 (po_input_queue_cursor p)) buf;
          buf = copy_at 204 (to_be_bytes 8 (po_output_queue_cursor p)) buf
      in copy_at 212 (to_be_bytes 8 (po_output_block_number p)) buf)"

definition proof_outputs_from_bytes :: "bytes \<Rightarrow> decode_error + proof_outputs" where
  "proof_outputs_from_bytes bs =
     (if length bs \<noteq> PROOF_OUTPUTS_SIZE
      then Inl (InvalidInputLength PROOF_OUTPUTS_SIZE (length bs))
      else
        bind_res (u64_at ''Failed to parse input_slot bytes'' 0 8 bs) (\<lambda>input_slot.
        let input_store_hash = from_be_bytes (slice_at 8 40 bs) in
        bind_res (u64_at ''Failed to parse output_slot bytes'' 40 48 bs) (\<lambda>output_slot.
        let output_store_hash = from_be_bytes (slice_at 48 80 bs);
            execution_state_root = from_be_bytes (slice_at 80 112 bs);
            verified_requests_root = from_be_bytes (slice_at 112 144 bs);
            next_sync_committee_hash = from_be_bytes (slice_at 144 176 bs);
            proof_request_queue_address = from_be_bytes (slice_at 176 196 bs) in
        bind_res (u64_at ''Failed to parse input_queue_cursor bytes'' 196 204 bs)
          (\<lambda>input_queue_cursor.
        bind_res (u64_at ''Failed to parse output_queue_cursor bytes'' 204 212 bs)
          (\<lambda>output_queue_cursor.
        bind_res (u64_at ''Failed to parse output_block_number bytes'' 212 220 bs)
          (\<lambda>output_block_number.
        Inr \<lparr>po_input_slot = input_slot,
             po_input_store_hash = input_store_hash,
             po_output_slot = output_slot,
             po_output_store_hash = output_store_hash,
             po_execution_state_root = execution_state_root,
             po_verified_requests_root = verified_requests_root,
             po_next_sync_committee_hash = next_sync_committee_hash,
             po_proof_request_queue_address = proof_request_queue_address,
             po_input_queue_cursor = input_queue_cursor,
             po_output_queue_cursor = output_queue_cursor,
             po_output_block_number = output_block_number\<rparr>))))))"

definition consensus_proof_outputs_to_bytes :: "consensus_proof_outputs \<Rightarrow> bytes" where
  "consensus_proof_outputs_to_bytes p =
     (let buf = replicate CONSENSUS_PROOF_OUTPUTS_SIZE 0;
          buf = copy_at 0 (to_be_bytes 8 (co_input_slot p)) buf;
          buf = copy_at 8 (to_be_bytes 32 (co_input_store_hash p)) buf;
          buf = copy_at 40 (to_be_bytes 8 (co_output_slot p)) buf;
          buf = copy_at 48 (to_be_bytes 32 (co_output_store_hash p)) buf;
          buf = copy_at 80 (to_be_bytes 32 (co_execution_state_root p)) buf;
          buf = copy_at 112 (to_be_bytes 32 (co_next_sync_committee_hash p)) buf
      in copy_at 144 (to_be_bytes 8 (co_output_block_number p)) buf)"

definition consensus_proof_outputs_from_bytes ::
    "bytes \<Rightarrow> decode_error + consensus_proof_outputs" where
  "consensus_proof_outputs_from_bytes bs =
     (if length bs \<noteq> CONSENSUS_PROOF_OUTPUTS_SIZE
      then Inl (InvalidInputLength CONSENSUS_PROOF_OUTPUTS_SIZE (length bs))
      else
        bind_res (u64_at ''Failed to parse input_slot bytes'' 0 8 bs) (\<lambda>input_slot.
        let input_store_hash = from_be_bytes (slice_at 8 40 bs) in
        bind_res (u64_at ''Failed to parse output_slot bytes'' 40 48 bs) (\<lambda>output_slot.
        let output_store_hash = from_be_bytes (slice_at 48 80 bs);
            execution_state_root = from_be_bytes (slice_at 80 112 bs);
            next_sync_committee_hash = from_be_bytes (slice_at 112 144 bs) in
        bind_res (u64_at ''Failed to parse output_block_number bytes'' 144 152 bs)
          (\<lambda>output_block_number.
        Inr \<lparr>co_input_slot = input_slot,
             co_input_store_hash = input_store_hash,
             co_output_slot = output_slot,
             co_output_store_hash = output_store_hash,
             co_execution_state_root = execution_state_root,
             co_next_sync_committee_hash = next_sync_committee_hash,
             co_output_block_number = output_block_number\<rparr>))))"

section \<open>Layout lemmas\<close>

lemma copy_at_append_zeros:
  assumes "length pre = off" and "length src \<le> m"
  shows "copy_at off src (pre @ replicate m 0) = (pre @ src) @ replicate (m - length src) 0"
  using assms by (simp add: copy_at_def)

lemma copy_at_zeros:
  assumes "length src \<le> m"
  shows "copy_at 0 src (replicate m 0) = src @ replicate (m - length src) 0"
  using assms by (simp add: copy_at_def)

lemma slice_at_append_left: "length xs = j \<Longrightarrow> slice_at 0 j (xs @ ys) = xs"
  by (simp add: slice_at_def)

lemma slice_at_append_right:
  "length xs \<le> i \<Longrightarrow> slice_at i j (xs @ ys) = slice_at (i - length xs) (j - length xs) ys"
  by (simp add: slice_at_def)

lemma slice_at_whole: "length xs = j \<Longrightarrow> slice_at 0 j xs = xs"
  by (simp add: slice_at_def)

lemmas slice_simps = slice_at_append_left slice_at_append_right

lemma u64_at_ok: "j = i + 8 \<Longrightarrow> j \<le> length bs \<Longrightarrow> u64_at ctx i j bs = Inr (from_be_bytes (slice_at i j bs))"
  by (simp add: u64_at_def Let_def)

lemma proof_outputs_layout:
  "proof_outputs_to_bytes p =
     to_be_bytes 8 (po_input_slot p) @ to_be_bytes 32 (po_input_store_hash p) @
     to_be_bytes 8 (po_output_slot p) @ to_be_bytes 32 (po_output_store_hash p) @
     to_be_bytes 32 (po_execution_state_root p) @ to_be_bytes 32 (po_verified_requests_root p) @
     to_be_bytes 32 (po_next_sync_committee_hash p) @
     to_be_bytes 20 (po_proof_request_queue_address p) @
     to_be_bytes 8 (po_input_queue_cursor p) @ to_be_bytes 8 (po_output_queue_cursor p) @
     to_be_bytes 8 (po_output_block_number p)"
  unfolding proof_outputs_to_bytes_def Let_def PROOF_OUTPUTS_SIZE_def
  by (simp add: copy_at_zeros copy_at_append_zeros flip: append_assoc)

lemma consensus_proof_outputs_layout:
  "consensus_proof_outputs_to_bytes p =
     to_be_bytes 8 (co_input_slot p) @ to_be_bytes 32 (co_input_store_hash p) @
     to_be_bytes 8 (co_output_slot p) @ to_be_bytes 32 (co_output_store_hash p) @
     to_be_bytes 32 (co_execution_state_root p) @
     to_be_bytes 32 (co_next_sync_committee_hash p) @
     to_be_bytes 8 (co_output_block_number p)"
  unfolding consensus_proof_outputs_to_bytes_def Let_def CONSENSUS_PROOF_OUTPUTS_SIZE_def
  by (simp add: copy_at_zeros copy_at_append_zeros flip: append_assoc)

lemma concat_slices_220:
  assumes "length bs = 220"
  shows "slice_at 0 8 bs @ slice_at 8 40 bs @ slice_at 40 48 bs @ slice_at 48 80 bs @
    slice_at 80 112 bs @ slice_at 112 144 bs @ slice_at 144 176 bs @ slice_at 176 196 bs @
    slice_at 196 204 bs @ slice_at 204 212 bs @ slice_at 212 220 bs = bs"
  using assms by (simp add: slice_append_slices slice_at_whole)

lemma concat_slices_152:
  assumes "length bs = 152"
  shows "slice_at 0 8 bs @ slice_at 8 40 bs @ slice_at 40 48 bs @ slice_at 48 80 bs @
    slice_at 80 112 bs @ slice_at 112 144 bs @ slice_at 144 152 bs = bs"
  using assms by (simp add: slice_append_slices slice_at_whole)

lemmas decode_simps =
  Let_def u64_at_ok u64_be_bytes b256_be_bytes address_be_bytes

interpretation po_codec: byte_codec
  proof_outputs_to_bytes proof_outputs_from_bytes PROOF_OUTPUTS_SIZE
proof
  show "length (proof_outputs_to_bytes r) = PROOF_OUTPUTS_SIZE" for r
    by (simp add: proof_outputs_layout PROOF_OUTPUTS_SIZE_def)
  show "proof_outputs_from_bytes (proof_outputs_to_bytes r) = Inr r" for r
    by (simp add: proof_outputs_layout proof_outputs_from_bytes_def PROOF_OUTPUTS_SIZE_def
        decode_simps slice_simps slice_at_whole)
  show "\<exists>r. proof_outputs_from_bytes bs = Inr r \<and> proof_outputs_to_bytes r = bs"
    if "length bs = PROOF_OUTPUTS_SIZE" for bs
    using that concat_slices_220[of bs]
    by (simp add: proof_outputs_layout proof_outputs_from_bytes_def PROOF_OUTPUTS_SIZE_def
        decode_simps)
  show "\<exists>e. proof_outputs_from_bytes bs = Inl e" if "length bs \<noteq> PROOF_OUTPUTS_SIZE" for bs
    using that by (simp add: proof_outputs_from_bytes_def)
qed

interpretation co_codec: byte_codec
  consensus_proof_outputs_to_bytes consensus_proof_outputs_from_bytes CONSENSUS_PROOF_OUTPUTS_SIZE
proof
  show "length (consensus_proof_outputs_to_bytes r) = CONSENSUS_PROOF_OUTPUTS_SIZE" for r
    by (simp add: consensus_proof_outputs_layout CONSENSUS_PROOF_OUTPUTS_SIZE_def)
  show "consensus_proof_outputs_from_bytes (consensus_proof_outputs_to_bytes r) = Inr r" for r
    by (simp add: consensus_proof_outputs_layout consensus_proof_outputs_from_bytes_def
        CONSENSUS_PROOF_OUTPUTS_SIZE_def decode_simps slice_simps slice_at_whole)
  show "\<exists>r. consensus_proof_outputs_from_bytes bs = Inr r \<and> consensus_proof_outputs_to_bytes r = bs"
    if "length bs = CONSENSUS_PROOF_OUTPUTS_SIZE" for bs
    using that concat_slices_152[of bs]
    by (simp add: consensus_proof_outputs_layout consensus_proof_outputs_from_bytes_def
        CONSENSUS_PROOF_OUTPUTS_SIZE_def decode_simps)
  show "\<exists>e. consensus_proof_outputs_from_bytes bs = Inl e"
    if "length bs \<noteq> CONSENSUS_PROOF_OUTPUTS_SIZE" for bs
    using that by (simp add: consensus_proof_outputs_from_bytes_def)
qed

section \<open>Properties\<close>

text \<open>C30: The public outputs of the bridge proof round-trip through their 220 bytes: decoding what
  \<open>to_bytes\<close> wrote gives the record back, the decoder accepts exactly the buffers of that
  length, and an accepted buffer is the encoding of what it decodes to, so no two buffers and no two
  records are confused.\<close>

theorem proof_outputs_round_trip:
  "proof_outputs_from_bytes (proof_outputs_to_bytes p) = Inr p \<and>
   length (proof_outputs_to_bytes p) = 220 \<and>
   (is_ok (proof_outputs_from_bytes bs) \<longleftrightarrow> length bs = 220) \<and>
   (proof_outputs_from_bytes bs = Inr p \<longleftrightarrow> bs = proof_outputs_to_bytes p)"
  using po_codec.dec_enc[of p] po_codec.enc_length[of p] po_codec.dec_ok_iff[of bs]
    po_codec.dec_eq_iff[of bs p]
  unfolding PROOF_OUTPUTS_SIZE_def by blast

text \<open>The same for the 152 bytes of the consensus-only proof.\<close>

theorem consensus_proof_outputs_round_trip:
  "consensus_proof_outputs_from_bytes (consensus_proof_outputs_to_bytes p) = Inr p \<and>
   length (consensus_proof_outputs_to_bytes p) = 152 \<and>
   (is_ok (consensus_proof_outputs_from_bytes bs) \<longleftrightarrow> length bs = 152) \<and>
   (consensus_proof_outputs_from_bytes bs = Inr p \<longleftrightarrow> bs = consensus_proof_outputs_to_bytes p)"
  using co_codec.dec_enc[of p] co_codec.enc_length[of p] co_codec.dec_ok_iff[of bs]
    co_codec.dec_eq_iff[of bs p]
  unfolding CONSENSUS_PROOF_OUTPUTS_SIZE_def by blast

end
