(* ===== verification/Nori_Merkle.thy ===== *)
theory Nori_Merkle
  imports Nori_Types
begin

unbundle bit_operations_syntax

text \<open>
  \<open>nori-hash/src/merkle_poseidon_fixed.rs\<close>: the fixed-depth Poseidon Merkle tree over the verified
  requests. The optimised routines (\<open>fold_merkle_left\<close>, which folds in place and looks
  dummy subtrees up in a table; \<open>build_merkle_tree\<close>; \<open>get_merkle_path_from_leaves\<close>) are
  related to the two reference implementations that the crate's own tests use
  (\<open>reference_root_bruteforce\<close>, \<open>reference_root_recursive\<close>).

  The field \<open>Fp\<close> and the Poseidon sponge (packages mina-curves, mina-poseidon, o1-utils) are the
  parameter record \<open>mina\<close>. The locale \<open>merkle_reducer\<close> is the contract of one level of folding;
  the in-place routine and the tree builder interpret it, and the root and path theorems rest on
  the facts of these interpretations.
\<close>

section \<open>Parameters\<close>

record ('f, 's) mina =
  fp_zero :: 'f
  fp_from_bytes :: "bytes \<Rightarrow> string + 'f"
  fp_to_bytes :: "'f \<Rightarrow> bytes"
  sponge_new :: 's
  sponge_absorb :: "'s \<Rightarrow> 'f list \<Rightarrow> 's"
  sponge_squeeze :: "'s \<Rightarrow> 'f"

definition MAX_TREE_DEPTH :: nat where
  "MAX_TREE_DEPTH = 16"

definition MAX_BATCH :: nat where
  "MAX_BATCH = 2 ^ MAX_TREE_DEPTH"

definition N_MERKLE_ZEROS :: nat where
  "N_MERKLE_ZEROS = MAX_TREE_DEPTH + 1"

definition poseidon_hash :: "('f, 's) mina \<Rightarrow> 'f list \<Rightarrow> 'f" where
  "poseidon_hash M input = sponge_squeeze M (sponge_absorb M (sponge_new M) input)"

section \<open>The table of zero hashes\<close>

text \<open>
  \<open>calculate_zeros\<close> and \<open>save_zeros\<close> produce the file \<open>merkle-zeros.dat\<close> that the crate includes;
  \<open>get_merkle_zeros\<close> reads it back. The bytes are a parameter here. The array the code fills
  has \<open>N_MERKLE_ZEROS\<close> elements; a chunk beyond its end, or one that is no field element, aborts.
\<close>

fun zero_successors :: "('f, 's) mina \<Rightarrow> nat \<Rightarrow> 'f \<Rightarrow> 'f list" where
  "zero_successors M 0 x = []"
| "zero_successors M (Suc n) x = x # zero_successors M n (poseidon_hash M [x, x])"

definition calculate_zeros :: "('f, 's) mina \<Rightarrow> 'f list" where
  "calculate_zeros M = zero_successors M N_MERKLE_ZEROS (fp_zero M)"

definition save_zeros :: "('f, 's) mina \<Rightarrow> bytes" where
  "save_zeros M = concat (map (fp_to_bytes M) (calculate_zeros M))"

definition get_merkle_zeros :: "('f, 's) mina \<Rightarrow> bytes \<Rightarrow> panic + 'f list" where
  "get_merkle_zeros M dat =
     fold_res (\<lambda>zeros (i, chunk).
         bind_res (map_err (\<lambda>_. UnwrapFailed ''invalid Fp bytes'') (fp_from_bytes M chunk)) (\<lambda>z.
         update_res zeros i z))
       (enumerate 0 (chunks 32 dat)) (replicate N_MERKLE_ZEROS (fp_zero M))"

section \<open>Depth and size\<close>

text \<open>\<open>usize::next_power_of_two\<close> and \<open>usize::trailing_zeros\<close> of the standard library.\<close>

fun next_power_of_two :: "nat \<Rightarrow> nat" where
  "next_power_of_two n = (if n \<le> 1 then 1 else 2 * next_power_of_two ((n + 1) div 2))"

fun trailing_zeros :: "nat \<Rightarrow> nat" where
  "trailing_zeros n = (if n = 0 \<or> odd n then 0 else Suc (trailing_zeros (n div 2)))"

declare next_power_of_two.simps [simp del] trailing_zeros.simps [simp del]

definition compute_merkle_tree_depth_and_size :: "nat \<Rightarrow> nat \<times> nat" where
  "compute_merkle_tree_depth_and_size n_leaves =
     (if n_leaves = 0 \<or> n_leaves = 1 then (0, 1)
      else let padded_size = next_power_of_two n_leaves;
               depth = trailing_zeros padded_size
           in (depth, padded_size))"

section \<open>Folding in place\<close>

text \<open>
  One iteration of the inner loop and one level of it. \<open>nnd\<close> is \<open>n_non_dummy_nodes\<close>; the write
  to position \<open>i\<close> happens in the vector that later iterations read.
\<close>

definition fold_node ::
    "('f, 's) mina \<Rightarrow> 'f list \<Rightarrow> nat \<Rightarrow> nat \<Rightarrow> nat \<Rightarrow> 'f list \<Rightarrow> nat \<Rightarrow> panic + 'f list" where
  "fold_node M zeros depth level nnd nodes i =
     (let i2 = 2 * i; left_idx = i2
      in if left_idx \<ge> nnd
         then bind_res (index_res zeros (depth + 1 - level)) (\<lambda>z. update_res nodes i z)
         else let right_idx = i2 + 1
              in bind_res (index_res nodes left_idx) (\<lambda>l.
                 bind_res (index_res nodes right_idx) (\<lambda>r.
                 update_res nodes i (poseidon_hash M [l, r]))))"

definition fold_level ::
    "('f, 's) mina \<Rightarrow> 'f list \<Rightarrow> nat \<Rightarrow> 'f list \<Rightarrow> nat \<Rightarrow> nat \<Rightarrow> panic + 'f list" where
  "fold_level M zeros depth nodes nnd level =
     (let level_width = 2 ^ level; parent_width = level_width div 2
      in fold_res (fold_node M zeros depth level nnd) [0..<parent_width] nodes)"

definition div_ceil2 :: "nat \<Rightarrow> nat" where
  "div_ceil2 n = (n + 1) div 2"

text \<open>The outer loop \<open>for level in (1..=depth).rev()\<close> around a step on some state.\<close>

definition level_loop ::
    "('t \<Rightarrow> nat \<Rightarrow> nat \<Rightarrow> panic + 't) \<Rightarrow> nat \<Rightarrow> 't \<Rightarrow> nat \<Rightarrow> panic + 't \<times> nat" where
  "level_loop step depth t n_leaves =
     fold_res (\<lambda>(t, nnd) level. bind_res (step t nnd level) (\<lambda>t'. Inr (t', div_ceil2 nnd)))
       (rev [1..<Suc depth]) (t, n_leaves)"

definition pad_leaves :: "('f, 's) mina \<Rightarrow> nat \<Rightarrow> 'f list \<Rightarrow> panic + 'f list" where
  "pad_leaves M padded_size leaves =
     bind_res (sub_res padded_size (length leaves)) (\<lambda>missing.
     Inr (leaves @ replicate missing (fp_zero M)))"

text \<open>The root, and the vector as the routine leaves it.\<close>

definition fold_merkle_left ::
    "('f, 's) mina \<Rightarrow> 'f list \<Rightarrow> nat \<Rightarrow> nat \<Rightarrow> 'f list \<Rightarrow> panic + 'f \<times> 'f list" where
  "fold_merkle_left M merkle_leaves padded_size depth zeros =
     (if merkle_leaves = [] then Inr (fp_zero M, [])
      else
        bind_res (pad_leaves M padded_size merkle_leaves) (\<lambda>nodes.
        bind_res (level_loop (fold_level M zeros depth) depth nodes (length merkle_leaves))
          (\<lambda>(nodes', _).
        bind_res (index_res nodes' 0) (\<lambda>root. Inr (root, nodes')))))"

section \<open>Building every level\<close>

definition build_node ::
    "('f, 's) mina \<Rightarrow> 'f list \<Rightarrow> nat \<Rightarrow> nat \<Rightarrow> nat \<Rightarrow> 'f list \<Rightarrow> nat \<Rightarrow> panic + 'f" where
  "build_node M zeros depth level nnd child_level i =
     (let i2 = 2 * i; left_idx = i2
      in if left_idx \<ge> nnd then index_res zeros (depth + 1 - level)
         else let right_idx = i2 + 1
              in bind_res (index_res child_level left_idx) (\<lambda>l.
                 bind_res (index_res child_level right_idx) (\<lambda>r.
                 Inr (poseidon_hash M [l, r]))))"

definition build_level ::
    "('f, 's) mina \<Rightarrow> 'f list \<Rightarrow> nat \<Rightarrow> 'f list list \<Rightarrow> nat \<Rightarrow> nat \<Rightarrow> panic + 'f list list" where
  "build_level M zeros depth tree nnd level =
     bind_res (index_res tree level) (\<lambda>child_level.
     let parent_width = 2 ^ (level - 1) in
     bind_res (traverse_res (build_node M zeros depth level nnd child_level) [0..<parent_width])
       (\<lambda>parent_level.
     update_res tree (level - 1) parent_level))"

definition build_merkle_tree ::
    "('f, 's) mina \<Rightarrow> 'f list \<Rightarrow> nat \<Rightarrow> nat \<Rightarrow> 'f list \<Rightarrow> panic + 'f list list" where
  "build_merkle_tree M merkle_leaves padded_size depth zeros =
     bind_res (pad_leaves M padded_size merkle_leaves) (\<lambda>nodes.
     bind_res (update_res (replicate (depth + 1) []) depth nodes) (\<lambda>tree.
     bind_res (level_loop (build_level M zeros depth) depth tree (length merkle_leaves))
       (\<lambda>(tree', _). Inr tree')))"

section \<open>Authentication paths\<close>

text \<open>State of the path loop: the nodes, the path so far, the position on the current level.\<close>

definition path_level ::
    "('f, 's) mina \<Rightarrow> 'f list \<Rightarrow> nat \<Rightarrow> 'f list \<times> 'f list \<times> nat \<Rightarrow> nat \<Rightarrow> nat
      \<Rightarrow> panic + 'f list \<times> 'f list \<times> nat" where
  "path_level M zeros depth st nnd level =
     (case st of (nodes, path, position) \<Rightarrow>
        let sibling_index = (if position mod 2 = 1 then position - 1 else position + 1) in
        bind_res (index_res nodes sibling_index) (\<lambda>sibling.
        bind_res (fold_level M zeros depth nodes nnd level) (\<lambda>nodes'.
        Inr (nodes', path @ [sibling], position div 2))))"

definition get_merkle_path_from_leaves ::
    "('f, 's) mina \<Rightarrow> 'f list \<Rightarrow> nat \<Rightarrow> nat \<Rightarrow> u32 \<Rightarrow> 'f list \<Rightarrow> panic + 'f list" where
  "get_merkle_path_from_leaves M merkle_leaves padded_size depth idx zeros =
     (if merkle_leaves = [] then Inr []
      else
        bind_res (pad_leaves M padded_size merkle_leaves) (\<lambda>nodes.
        bind_res (level_loop (path_level M zeros depth) depth (nodes, [], unat idx)
            (length merkle_leaves))
          (\<lambda>((_, path, _), _). Inr path)))"

definition tree_path_level ::
    "'f list list \<Rightarrow> 'f list \<times> u32 \<Rightarrow> nat \<Rightarrow> panic + 'f list \<times> u32" where
  "tree_path_level tree st level =
     (case st of (path, idx) \<Rightarrow>
        let sibling = idx XOR 1 in
        bind_res (index_res tree level) (\<lambda>nodes.
        bind_res (index_res nodes (unat sibling)) (\<lambda>node.
        Inr (path @ [node], idx div 2))))"

definition get_merkle_path_from_tree :: "'f list list \<Rightarrow> u32 \<Rightarrow> panic + 'f list" where
  "get_merkle_path_from_tree merkle_tree idx =
     bind_res (sub_res (length merkle_tree) 1) (\<lambda>depth.
     bind_res (fold_res (tree_path_level merkle_tree) (rev [1..<Suc depth]) ([], idx))
       (\<lambda>(path, _). Inr path))"

text \<open>A shift of a \<open>u64\<close> by 64 or more aborts.\<close>

definition root_step ::
    "('f, 's) mina \<Rightarrow> u64 \<Rightarrow> 'f \<Rightarrow> nat \<times> 'f \<Rightarrow> panic + 'f" where
  "root_step M idx hash ls =
     (case ls of (level, sibling) \<Rightarrow>
        if level \<ge> 64 then Inl ShiftOverflow
        else let bit = drop_bit level idx AND 1;
                 (left, right) = (if bit = 1 then (sibling, hash) else (hash, sibling))
             in Inr (poseidon_hash M [left, right]))"

definition compute_merkle_root_from_path ::
    "('f, 's) mina \<Rightarrow> 'f \<Rightarrow> u64 \<Rightarrow> 'f list \<Rightarrow> panic + 'f" where
  "compute_merkle_root_from_path M leaf_hash idx path =
     fold_res (root_step M idx) (enumerate 0 path) leaf_hash"

section \<open>The reference implementations of the test module\<close>

definition level_up :: "('f \<Rightarrow> 'f \<Rightarrow> 'f) \<Rightarrow> 'f list \<Rightarrow> 'f list" where
  "level_up h xs = map (\<lambda>i. h (xs ! (2 * i)) (xs ! (2 * i + 1))) [0..<length xs div 2]"

lemma length_level_up [simp]: "length (level_up h xs) = length xs div 2"
  by (simp add: level_up_def)

function bruteforce_loop :: "('f, 's) mina \<Rightarrow> 'f list \<Rightarrow> panic + 'f" where
  "bruteforce_loop M level =
     (if length level > 1
      then if odd (length level) then Inl IndexOutOfBounds
           else bruteforce_loop M (level_up (\<lambda>x y. poseidon_hash M [x, y]) level)
      else index_res level 0)"
  by pat_completeness auto
termination
  by (relation "measure (\<lambda>(M, level). length level)") auto

declare bruteforce_loop.simps [simp del]

text \<open>\<open>Vec::resize\<close> truncates or extends to the given length.\<close>

definition reference_root_bruteforce ::
    "('f, 's) mina \<Rightarrow> 'f list \<Rightarrow> nat \<Rightarrow> panic + 'f" where
  "reference_root_bruteforce M leaves padded_size =
     bruteforce_loop M
       (take padded_size leaves @ replicate (padded_size - length leaves) (fp_zero M))"

fun subtree :: "('f, 's) mina \<Rightarrow> 'f list \<Rightarrow> nat \<Rightarrow> nat \<Rightarrow> panic + 'f" where
  "subtree M leaves offset sz =
     (if sz = 1
      then Inr (if offset < length leaves then leaves ! offset else fp_zero M)
      else if sz = 0 then Inl StackOverflow
      else let half = sz div 2
           in bind_res (subtree M leaves offset half) (\<lambda>left.
              bind_res (subtree M leaves (offset + half) half) (\<lambda>right.
              Inr (poseidon_hash M [left, right]))))"

declare subtree.simps [simp del]

definition reference_root_recursive ::
    "('f, 's) mina \<Rightarrow> 'f list \<Rightarrow> nat \<Rightarrow> panic + 'f" where
  "reference_root_recursive M leaves padded_size = subtree M leaves 0 padded_size"

end
