(* ===== verification/Nori_Merkle_Correct.thy ===== *)
theory Nori_Merkle_Correct
  imports Nori_Merkle
begin

unbundle bit_operations_syntax

text \<open>
  Correctness of the Merkle routines of \<open>Nori_Merkle\<close>: absence of panics for every batch the guest
  accepts, equality of the optimised routines with the reference implementations, and soundness
  and completeness of authentication paths.
\<close>

section \<open>Levels of a complete tree\<close>

abbreviation pair_hash :: "('f, 's) mina \<Rightarrow> 'f \<Rightarrow> 'f \<Rightarrow> 'f" where
  "pair_hash M \<equiv> \<lambda>x y. poseidon_hash M [x, y]"

definition tree_level :: "('f \<Rightarrow> 'f \<Rightarrow> 'f) \<Rightarrow> 'f list \<Rightarrow> nat \<Rightarrow> 'f list" where
  "tree_level h xs k = (level_up h ^^ k) xs"

definition zero_hash :: "('f \<Rightarrow> 'f \<Rightarrow> 'f) \<Rightarrow> 'f \<Rightarrow> nat \<Rightarrow> 'f" where
  "zero_hash h z k = ((\<lambda>x. h x x) ^^ k) z"

text \<open>All nodes of level \<open>k\<close> from position \<open>nnd\<close> on are roots of empty subtrees.\<close>

definition dummies_from :: "('f \<Rightarrow> 'f \<Rightarrow> 'f) \<Rightarrow> 'f \<Rightarrow> nat \<Rightarrow> nat \<Rightarrow> 'f list \<Rightarrow> bool" where
  "dummies_from h z k nnd cs \<longleftrightarrow> (\<forall>j. nnd \<le> j \<longrightarrow> j < length cs \<longrightarrow> cs ! j = zero_hash h z k)"

definition merkle_root :: "('f \<Rightarrow> 'f \<Rightarrow> 'f) \<Rightarrow> nat \<Rightarrow> 'f list \<Rightarrow> 'f" where
  "merkle_root h depth xs = tree_level h xs depth ! 0"

lemma tree_level_0 [simp]: "tree_level h xs 0 = xs"
  by (simp add: tree_level_def)

lemma tree_level_Suc: "tree_level h xs (Suc k) = level_up h (tree_level h xs k)"
  by (simp add: tree_level_def)

lemma zero_hash_0 [simp]: "zero_hash h z 0 = z"
  by (simp add: zero_hash_def)

lemma zero_hash_Suc: "zero_hash h z (Suc k) = h (zero_hash h z k) (zero_hash h z k)"
  by (simp add: zero_hash_def)

lemma length_tree_level:
  assumes "length xs = 2 ^ d" and "k \<le> d"
  shows "length (tree_level h xs k) = 2 ^ (d - k)"
  using assms(2)
proof (induction k)
  case 0
  then show ?case using assms(1) by simp
next
  case (Suc k)
  then have "2 ^ (d - k) = 2 * (2 :: nat) ^ (d - Suc k)"
    by (metis Suc_diff_Suc Suc_le_lessD power_Suc)
  with Suc show ?case by (simp add: tree_level_Suc)
qed

lemma level_up_nth:
  "i < length xs div 2 \<Longrightarrow> level_up h xs ! i = h (xs ! (2 * i)) (xs ! (2 * i + 1))"
  by (simp add: level_up_def)

lemma dummies_from_level_up:
  assumes "dummies_from h z k nnd cs"
  shows "dummies_from h z (Suc k) (div_ceil2 nnd) (level_up h cs)"
  using assms
  by (auto simp: dummies_from_def div_ceil2_def level_up_nth zero_hash_Suc)

text \<open>One level computed with the table of zero hashes is the level computed by hashing.\<close>

lemma level_up_with_zeros:
  assumes "dummies_from h z k nnd cs" and "i < length cs div 2"
  shows "(if 2 * i \<ge> nnd then zero_hash h z (Suc k) else h (cs ! (2 * i)) (cs ! (2 * i + 1))) =
    level_up h cs ! i"
  using assms by (auto simp: dummies_from_def level_up_nth zero_hash_Suc)

section \<open>The zero table\<close>

lemma zero_successors_nth:
  "k < n \<Longrightarrow> zero_successors M n (zero_hash (pair_hash M) z j) ! k = zero_hash (pair_hash M) z (j + k)"
proof (induction n arbitrary: j k)
  case 0
  then show ?case by simp
next
  case (Suc n)
  have next_zero: "poseidon_hash M [zero_hash (pair_hash M) z j, zero_hash (pair_hash M) z j] =
      zero_hash (pair_hash M) z (Suc j)"
    by (simp add: zero_hash_Suc)
  show ?case
  proof (cases k)
    case 0
    then show ?thesis by simp
  next
    case (Suc k')
    with Suc.IH[of k' "Suc j"] Suc.prems next_zero show ?thesis by simp
  qed
qed

lemma length_zero_successors [simp]: "length (zero_successors M n x) = n"
  by (induction n arbitrary: x) auto

lemma length_calculate_zeros [simp]: "length (calculate_zeros M) = N_MERKLE_ZEROS"
  by (simp add: calculate_zeros_def)

lemma calculate_zeros_nth:
  assumes "k \<le> MAX_TREE_DEPTH"
  shows "calculate_zeros M ! k = zero_hash (pair_hash M) (fp_zero M) k"
  using zero_successors_nth[of k N_MERKLE_ZEROS M "fp_zero M" 0] assms
  by (simp add: calculate_zeros_def N_MERKLE_ZEROS_def)

lemma calculate_zeros_index [res_simps]:
  assumes "k \<le> MAX_TREE_DEPTH"
  shows "index_res (calculate_zeros M) k = Inr (zero_hash (pair_hash M) (fp_zero M) k)"
  using assms by (simp add: calculate_zeros_nth N_MERKLE_ZEROS_def)

section \<open>One level, in place\<close>

text \<open>
  After the first \<open>m\<close> iterations the parents \<open>0..<m\<close> are written and everything from \<open>m\<close> on is
  untouched; iteration \<open>m\<close> reads positions \<open>2 * m\<close> and \<open>2 * m + 1\<close> only, so folding in place reads
  the children and never a parent it has just written.
\<close>

lemma fold_level_prefix:
  assumes zeros: "index_res zeros (depth + 1 - level) = Inr z" and m: "2 * m \<le> length nodes"
  shows "\<exists>nodes'. fold_res (fold_node M zeros depth level nnd) [0..<m] nodes = Inr nodes' \<and>
    length nodes' = length nodes \<and>
    (\<forall>i < m. nodes' ! i =
       (if 2 * i \<ge> nnd then z else poseidon_hash M [nodes ! (2 * i), nodes ! (2 * i + 1)])) \<and>
    (\<forall>i. m \<le> i \<longrightarrow> nodes' ! i = nodes ! i)"
  using m
proof (induction m)
  case 0
  then show ?case by simp
next
  case (Suc m)
  then obtain ns where ns: "fold_res (fold_node M zeros depth level nnd) [0..<m] nodes = Inr ns"
    "length ns = length nodes"
    "\<forall>i < m. ns ! i =
       (if 2 * i \<ge> nnd then z else poseidon_hash M [nodes ! (2 * i), nodes ! (2 * i + 1)])"
    "\<forall>i. m \<le> i \<longrightarrow> ns ! i = nodes ! i"
    by auto
  define v where "v = (if 2 * m \<ge> nnd then z
    else poseidon_hash M [nodes ! (2 * m), nodes ! (2 * m + 1)])"
  have reads: "ns ! (2 * m) = nodes ! (2 * m)" "ns ! (2 * m + 1) = nodes ! (2 * m + 1)"
    using ns(4) by simp_all
  have "fold_node M zeros depth level nnd ns m = Inr (ns[m := v])"
    using zeros ns(2) Suc.prems reads by (simp add: fold_node_def v_def Let_def)
  then have step: "fold_res (fold_node M zeros depth level nnd) [0..<Suc m] nodes = Inr (ns[m := v])"
    using ns(1) by (simp add: fold_res_append)
  have "\<forall>i < Suc m. ns[m := v] ! i =
      (if 2 * i \<ge> nnd then z else poseidon_hash M [nodes ! (2 * i), nodes ! (2 * i + 1)])"
    using ns(2,3) Suc.prems by (auto simp: nth_list_update v_def less_Suc_eq)
  then show ?case
    using step ns(2,4) by auto
qed

lemma fold_level_level_up:
  assumes depth: "depth \<le> MAX_TREE_DEPTH" "level < depth"
    and cs: "take (2 ^ Suc level) nodes = cs" "length cs = 2 ^ Suc level"
    and dummies: "dummies_from (pair_hash M) (fp_zero M) (depth - Suc level) nnd cs"
  shows "\<exists>nodes'. fold_level M (calculate_zeros M) depth nodes nnd (Suc level) = Inr nodes' \<and>
    length nodes' = length nodes \<and> take (2 ^ level) nodes' = level_up (pair_hash M) cs"
proof -
  let ?k = "depth - Suc level"
  have enough: "2 * 2 ^ level \<le> length nodes" using cs by (auto simp: min_def split: if_splits)
  have "index_res (calculate_zeros M) (depth + 1 - Suc level) =
      Inr (zero_hash (pair_hash M) (fp_zero M) (Suc ?k))"
    using depth by (simp add: calculate_zeros_index Suc_diff_Suc)
  from fold_level_prefix[OF this enough, of M nnd] obtain nodes' where
    nodes': "fold_res (fold_node M (calculate_zeros M) depth (Suc level) nnd) [0..<2 ^ level] nodes =
      Inr nodes'"
    "length nodes' = length nodes"
    "\<forall>i < 2 ^ level. nodes' ! i = (if 2 * i \<ge> nnd then zero_hash (pair_hash M) (fp_zero M) (Suc ?k)
      else poseidon_hash M [nodes ! (2 * i), nodes ! (2 * i + 1)])"
    by blast
  have children: "nodes ! j = cs ! j" if "j < 2 ^ Suc level" for j
    using that cs(1) by auto
  have "take (2 ^ level) nodes' = level_up (pair_hash M) cs"
  proof (rule nth_equalityI)
    show "length (take (2 ^ level) nodes') = length (level_up (pair_hash M) cs)"
      using nodes'(2) enough cs(2) by simp
    fix i assume "i < length (take (2 ^ level) nodes')"
    then have i: "i < 2 ^ level" by simp
    then have "take (2 ^ level) nodes' ! i =
        (if 2 * i \<ge> nnd then zero_hash (pair_hash M) (fp_zero M) (Suc ?k)
         else poseidon_hash M [cs ! (2 * i), cs ! (2 * i + 1)])"
      using nodes'(3) children by simp
    also have "\<dots> = level_up (pair_hash M) cs ! i"
      using level_up_with_zeros[OF dummies, of i] i cs(2) by simp
    finally show "take (2 ^ level) nodes' ! i = level_up (pair_hash M) cs ! i" .
  qed
  with nodes'(1,2) show ?thesis by (simp add: fold_level_def)
qed

lemma build_level_level_up:
  assumes depth: "depth \<le> MAX_TREE_DEPTH" "level < depth"
    and cs: "length tree = Suc depth" "tree ! Suc level = cs" "length cs = 2 ^ Suc level"
    and dummies: "dummies_from (pair_hash M) (fp_zero M) (depth - Suc level) nnd cs"
  shows "build_level M (calculate_zeros M) depth tree nnd (Suc level) =
    Inr (tree[level := level_up (pair_hash M) cs])"
proof -
  have zeros: "index_res (calculate_zeros M) (depth - level) =
      Inr (zero_hash (pair_hash M) (fp_zero M) (Suc (depth - Suc level)))"
    using depth by (simp add: calculate_zeros_index Suc_diff_Suc)
  have "build_node M (calculate_zeros M) depth (Suc level) nnd cs i =
      Inr (level_up (pair_hash M) cs ! i)" if "i < 2 ^ level" for i
    using level_up_with_zeros[OF dummies, of i] that cs(3) zeros
    by (auto simp: build_node_def Let_def split: if_splits)
  then have "traverse_res (build_node M (calculate_zeros M) depth (Suc level) nnd cs) [0..<2 ^ level] =
      Inr (map (\<lambda>i. level_up (pair_hash M) cs ! i) [0..<2 ^ level])"
    by (intro traverse_res_map) simp
  moreover have "map (\<lambda>i. level_up (pair_hash M) cs ! i) [0..<2 ^ level] = level_up (pair_hash M) cs"
    using cs(3) by (intro nth_equalityI) auto
  ultimately show ?thesis
    using cs depth by (simp add: build_level_def Let_def)
qed

section \<open>Contract of one level of folding\<close>

text \<open>
  A routine that processes the tree level by level keeps some state \<open>t\<close>; \<open>obs t l\<close> is the list
  of nodes of level \<open>l\<close> (counted from the root) it holds, \<open>inv xs depth l t\<close> what it keeps true of
  \<open>t\<close> once level \<open>l\<close> of the tree over the padded leaves \<open>xs\<close> is complete. The contract: from
  level \<open>l + 1\<close> the step produces level \<open>l\<close>, without a panic. The loop over all levels then ends
  with the root.
\<close>

locale merkle_reducer =
  fixes h :: "'f \<Rightarrow> 'f \<Rightarrow> 'f"
    and z :: 'f
    and step :: "nat \<Rightarrow> 't \<Rightarrow> nat \<Rightarrow> nat \<Rightarrow> panic + 't"
    and obs :: "'t \<Rightarrow> nat \<Rightarrow> 'f list"
    and inv :: "'f list \<Rightarrow> nat \<Rightarrow> nat \<Rightarrow> 't \<Rightarrow> bool"
  assumes step_ok:
    "\<lbrakk>depth \<le> MAX_TREE_DEPTH; length xs = 2 ^ depth; l < depth; inv xs depth (Suc l) t;
      obs t (Suc l) = tree_level h xs (depth - Suc l);
      dummies_from h z (depth - Suc l) nnd (obs t (Suc l))\<rbrakk>
     \<Longrightarrow> \<exists>t'. step depth t nnd (Suc l) = Inr t' \<and> inv xs depth l t' \<and>
           obs t' l = tree_level h xs (depth - l)"
begin

lemma loop_from_level:
  assumes "depth \<le> MAX_TREE_DEPTH" and "length xs = 2 ^ depth" and "l \<le> depth"
    and "inv xs depth l t" and "obs t l = tree_level h xs (depth - l)"
    and "dummies_from h z (depth - l) nnd (obs t l)"
  shows "\<exists>t' m. fold_res (\<lambda>(t, nnd) level. bind_res (step depth t nnd level)
      (\<lambda>t'. Inr (t', div_ceil2 nnd))) (rev [1..<Suc l]) (t, nnd) = Inr (t', m) \<and>
    inv xs depth 0 t' \<and> obs t' 0 = tree_level h xs depth"
  using assms(3-)
proof (induction l arbitrary: t nnd)
  case 0
  then show ?case by simp
next
  case (Suc l)
  from Suc.prems have below: "l < depth" by simp
  from step_ok[OF assms(1,2) below Suc.prems(2,3,4)] obtain t' where
    t': "step depth t nnd (Suc l) = Inr t'" "inv xs depth l t'"
      "obs t' l = tree_level h xs (depth - l)"
    by blast
  have up: "depth - l = Suc (depth - Suc l)" using below by simp
  have "dummies_from h z (depth - l) (div_ceil2 nnd) (obs t' l)"
    using dummies_from_level_up[OF Suc.prems(4)] Suc.prems(3)
    by (simp add: t'(3) up tree_level_Suc)
  from Suc.IH[OF _ t'(2,3) this] below t'(1) show ?case by simp
qed

lemma loop_root:
  assumes "depth \<le> MAX_TREE_DEPTH" and "length xs = 2 ^ depth"
    and "inv xs depth depth t" and "obs t depth = xs" and "dummies_from h z 0 n xs"
  shows "\<exists>t' m. level_loop (step depth) depth t n = Inr (t', m) \<and> inv xs depth 0 t' \<and>
    obs t' 0 = [merkle_root h depth xs]"
proof -
  have "length (tree_level h xs depth) = 1"
    using length_tree_level[OF assms(2), of depth h] by simp
  then have "tree_level h xs depth = [merkle_root h depth xs]"
    by (cases "tree_level h xs depth") (auto simp: merkle_root_def)
  with loop_from_level[OF assms(1,2) order_refl assms(3), of n] assms(4,5) show ?thesis
    by (simp add: level_loop_def)
qed

end

lemma dummies_from_tree_level_length:
  "length xs = 2 ^ depth \<Longrightarrow> l < depth \<Longrightarrow> length (tree_level h xs (depth - Suc l)) = 2 ^ Suc l"
  by (subst length_tree_level[of xs depth]) auto

interpretation in_place: merkle_reducer
  "pair_hash M" "fp_zero M" "fold_level M (calculate_zeros M)"
  "\<lambda>nodes l. take (2 ^ l) nodes" "\<lambda>xs depth l nodes. length nodes = 2 ^ depth" for M
proof
  fix depth l nnd :: nat and xs nodes :: "'a list"
  assume a: "depth \<le> MAX_TREE_DEPTH" "length xs = 2 ^ depth" "l < depth" "length nodes = 2 ^ depth"
    "take (2 ^ Suc l) nodes = tree_level (pair_hash M) xs (depth - Suc l)"
    "dummies_from (pair_hash M) (fp_zero M) (depth - Suc l) nnd (take (2 ^ Suc l) nodes)"
  have "tree_level (pair_hash M) xs (depth - l) =
      level_up (pair_hash M) (tree_level (pair_hash M) xs (depth - Suc l))"
    using a(3) by (metis Suc_diff_Suc tree_level_Suc)
  with fold_level_level_up[OF a(1,3,5)] a dummies_from_tree_level_length[OF a(2,3)]
  show "\<exists>nodes'. fold_level M (calculate_zeros M) depth nodes nnd (Suc l) = Inr nodes' \<and>
      length nodes' = 2 ^ depth \<and> take (2 ^ l) nodes' = tree_level (pair_hash M) xs (depth - l)"
    by simp
qed

text \<open>The builder keeps every level it has produced.\<close>

definition tree_has_levels :: "('f \<Rightarrow> 'f \<Rightarrow> 'f) \<Rightarrow> 'f list \<Rightarrow> nat \<Rightarrow> nat \<Rightarrow> 'f list list \<Rightarrow> bool" where
  "tree_has_levels h xs depth l tree \<longleftrightarrow> length tree = Suc depth \<and>
     (\<forall>j. l \<le> j \<longrightarrow> j \<le> depth \<longrightarrow> tree ! j = tree_level h xs (depth - j))"

interpretation builder: merkle_reducer
  "pair_hash M" "fp_zero M" "build_level M (calculate_zeros M)"
  "\<lambda>tree l. tree ! l" "tree_has_levels (pair_hash M)" for M
proof
  fix depth l nnd :: nat and xs :: "'a list" and tree :: "'a list list"
  assume a: "depth \<le> MAX_TREE_DEPTH" "length xs = 2 ^ depth" "l < depth"
    "tree_has_levels (pair_hash M) xs depth (Suc l) tree"
    "tree ! Suc l = tree_level (pair_hash M) xs (depth - Suc l)"
    "dummies_from (pair_hash M) (fp_zero M) (depth - Suc l) nnd (tree ! Suc l)"
  have up: "tree_level (pair_hash M) xs (depth - l) = level_up (pair_hash M) (tree ! Suc l)"
    using a(3,5) by (metis Suc_diff_Suc tree_level_Suc)
  have "build_level M (calculate_zeros M) depth tree nnd (Suc l) =
      Inr (tree[l := tree_level (pair_hash M) xs (depth - l)])"
    using build_level_level_up[OF a(1,3) _ refl _ a(6)] a(4,5)
      dummies_from_tree_level_length[OF a(2,3)] up
    by (simp add: tree_has_levels_def)
  moreover have "tree_has_levels (pair_hash M) xs depth l
      (tree[l := tree_level (pair_hash M) xs (depth - l)])"
    using a(3,4) by (auto simp: tree_has_levels_def nth_list_update Suc_le_eq)
  ultimately show "\<exists>tree'. build_level M (calculate_zeros M) depth tree nnd (Suc l) = Inr tree' \<and>
      tree_has_levels (pair_hash M) xs depth l tree' \<and>
      tree' ! l = tree_level (pair_hash M) xs (depth - l)"
    using a(3,4) by (auto simp: tree_has_levels_def)
qed

text \<open>The path routine folds in place and records one sibling per level.\<close>

definition sibling_of :: "nat \<Rightarrow> nat" where
  "sibling_of p = (if p mod 2 = 1 then p - 1 else p + 1)"

definition merkle_path :: "('f \<Rightarrow> 'f \<Rightarrow> 'f) \<Rightarrow> 'f list \<Rightarrow> nat \<Rightarrow> nat \<Rightarrow> 'f list" where
  "merkle_path h xs p m = map (\<lambda>k. tree_level h xs k ! sibling_of (p div 2 ^ k)) [0..<m]"

definition path_inv ::
    "('f \<Rightarrow> 'f \<Rightarrow> 'f) \<Rightarrow> nat \<Rightarrow> 'f list \<Rightarrow> nat \<Rightarrow> nat \<Rightarrow> 'f list \<times> 'f list \<times> nat \<Rightarrow> bool" where
  "path_inv h p xs depth l st \<longleftrightarrow> (case st of (nodes, path, position) \<Rightarrow>
     length nodes = 2 ^ depth \<and> p < 2 ^ depth \<and> position = p div 2 ^ (depth - l) \<and>
     path = merkle_path h xs p (depth - l))"

lemma sibling_of_less: "p < 2 ^ Suc d \<Longrightarrow> sibling_of p < 2 ^ Suc d"
  by (cases "even p") (auto simp: sibling_of_def elim!: evenE oddE)

lemma div_pow2_less:
  assumes "p < 2 ^ d" and "k \<le> d"
  shows "p div 2 ^ k < (2::nat) ^ (d - k)"
proof -
  have "p < 2 ^ (d - k) * 2 ^ k" using assms by (simp flip: power_add)
  then show ?thesis by (rule less_mult_imp_div_less)
qed

interpretation pather: merkle_reducer
  "pair_hash M" "fp_zero M" "path_level M (calculate_zeros M)"
  "\<lambda>st l. take (2 ^ l) (fst st)" "path_inv (pair_hash M) p" for M p
proof
  fix depth l nnd :: nat and xs :: "'a list" and st :: "'a list \<times> 'a list \<times> nat"
  assume a: "depth \<le> MAX_TREE_DEPTH" "length xs = 2 ^ depth" "l < depth"
    "path_inv (pair_hash M) p xs depth (Suc l) st"
    "take (2 ^ Suc l) (fst st) = tree_level (pair_hash M) xs (depth - Suc l)"
    "dummies_from (pair_hash M) (fp_zero M) (depth - Suc l) nnd (take (2 ^ Suc l) (fst st))"
  let ?k = "depth - Suc l"
  obtain nodes path position where st: "st = (nodes, path, position)" by (cases st)
  have inv: "length nodes = 2 ^ depth" "p < 2 ^ depth" "position = p div 2 ^ ?k"
    "path = merkle_path (pair_hash M) xs p ?k"
    using a(4) by (simp_all add: path_inv_def st)
  have k: "depth - l = Suc ?k" using a(3) by simp
  have "position < 2 ^ Suc l" using div_pow2_less[OF inv(2), of ?k] a(3) inv(3) by simp
  then have sib: "sibling_of position < 2 ^ Suc l" by (rule sibling_of_less)
  have "(2::nat) ^ Suc l \<le> 2 ^ depth" using a(3) by (intro power_increasing) auto
  with sib inv(1) have read: "index_res nodes (sibling_of position) = Inr (nodes ! sibling_of position)"
    by simp
  have "nodes ! sibling_of position = take (2 ^ Suc l) nodes ! sibling_of position"
    using sib by simp
  also have "\<dots> = tree_level (pair_hash M) xs ?k ! sibling_of (p div 2 ^ ?k)"
    using a(5) by (simp add: st inv(3))
  finally have sibling: "path @ [nodes ! sibling_of position] = merkle_path (pair_hash M) xs p (Suc ?k)"
    by (simp add: inv(4) merkle_path_def)
  from in_place.step_ok[OF a(1-3), of nodes M nnd] a(5,6) inv(1) obtain nodes' where
    nodes': "fold_level M (calculate_zeros M) depth nodes nnd (Suc l) = Inr nodes'"
    "length nodes' = 2 ^ depth" "take (2 ^ l) nodes' = tree_level (pair_hash M) xs (depth - l)"
    by (auto simp: st)
  have "path_level M (calculate_zeros M) depth st nnd (Suc l) =
      Inr (nodes', path @ [nodes ! sibling_of position], position div 2)"
    using read nodes'(1) by (simp add: path_level_def st sibling_of_def Let_def)
  moreover have "position div 2 = p div 2 ^ Suc ?k"
    by (metis inv(3) div_mult2_eq mult.commute power_Suc)
  then have "path_inv (pair_hash M) p xs depth l
      (nodes', path @ [nodes ! sibling_of position], position div 2)"
    using nodes'(2) inv(2) sibling by (simp add: path_inv_def k)
  ultimately show "\<exists>st'. path_level M (calculate_zeros M) depth st nnd (Suc l) = Inr st' \<and>
      path_inv (pair_hash M) p xs depth l st' \<and>
      take (2 ^ l) (fst st') = tree_level (pair_hash M) xs (depth - l)"
    using nodes'(3) by auto
qed

section \<open>Depth and size\<close>

lemma next_power_of_two_spec:
  "\<exists>k. next_power_of_two n = 2 ^ k \<and> n \<le> 2 ^ k \<and> (2 \<le> n \<longrightarrow> 2 ^ k < 2 * n)"
proof (induction n rule: next_power_of_two.induct)
  case (1 n)
  show ?case
  proof (cases "n \<le> 1")
    case True
    then show ?thesis by (intro exI[of _ 0]) (simp add: next_power_of_two.simps)
  next
    case False
    then obtain k where k: "next_power_of_two ((n + 1) div 2) = 2 ^ k" "(n + 1) div 2 \<le> 2 ^ k"
      "2 \<le> (n + 1) div 2 \<longrightarrow> 2 ^ k < 2 * ((n + 1) div 2)"
      using 1 by blast
    have "2 ^ Suc k < 2 * n"
    proof (cases "n = 2")
      case True
      then have "next_power_of_two ((n + 1) div 2) = 1" by (simp add: next_power_of_two.simps)
      with k(1) True show ?thesis by simp
    next
      case False
      with \<open>\<not> n \<le> 1\<close> have "2 \<le> (n + 1) div 2" by simp
      with k(3) have "2 ^ k < 2 * ((n + 1) div 2)" by simp
      moreover obtain j where j: "(2::nat) ^ k = 2 * j"
        using \<open>2 \<le> (n + 1) div 2\<close> k(2) by (cases k) auto
      ultimately have "2 * j < n" by presburger
      with j show ?thesis by simp
    qed
    with False k show ?thesis
      by (intro exI[of _ "Suc k"]) (simp add: next_power_of_two.simps[of n])
  qed
qed

lemma trailing_zeros_pow2: "trailing_zeros (2 ^ k) = k"
  by (induction k) (simp_all add: trailing_zeros.simps)

text \<open>What the computed depth and size promise to the routines that take them.\<close>

lemma depth_and_size:
  assumes "compute_merkle_tree_depth_and_size n = (depth, padded)"
  shows "padded = 2 ^ depth" and "n \<le> 2 ^ depth" and "2 \<le> n \<Longrightarrow> 2 ^ depth < 2 * n"
proof -
  obtain k where k: "next_power_of_two n = 2 ^ k" "n \<le> 2 ^ k" "2 \<le> n \<longrightarrow> 2 ^ k < 2 * n"
    using next_power_of_two_spec[of n] by blast
  show "padded = 2 ^ depth" "n \<le> 2 ^ depth" "2 \<le> n \<Longrightarrow> 2 ^ depth < 2 * n"
    using assms k
    by (auto simp: compute_merkle_tree_depth_and_size_def trailing_zeros_pow2 Let_def
        split: if_splits)
qed

lemma depth_bounded:
  assumes "compute_merkle_tree_depth_and_size n = (depth, padded)" and "n \<le> MAX_BATCH"
  shows "depth \<le> MAX_TREE_DEPTH"
proof (rule ccontr)
  assume "\<not> depth \<le> MAX_TREE_DEPTH"
  then have "Suc MAX_TREE_DEPTH \<le> depth" by simp
  then have big: "2 * MAX_BATCH \<le> 2 ^ depth"
    unfolding MAX_BATCH_def using power_increasing[of "Suc MAX_TREE_DEPTH" depth "2::nat"] by simp
  show False
  proof (cases "2 \<le> n")
    case True
    with depth_and_size(3)[OF assms(1)] assms(2) big show False by simp
  next
    case False
    then have "n = 0 \<or> n = 1" by auto
    then have "depth = 0"
      using assms(1) by (auto simp: compute_merkle_tree_depth_and_size_def)
    with big show False by (simp add: MAX_BATCH_def MAX_TREE_DEPTH_def)
  qed
qed

section \<open>Roots\<close>

abbreviation padded_leaves :: "('f, 's) mina \<Rightarrow> nat \<Rightarrow> 'f list \<Rightarrow> 'f list" where
  "padded_leaves M depth leaves \<equiv> leaves @ replicate (2 ^ depth - length leaves) (fp_zero M)"

lemma dummies_from_padded: "dummies_from h (fp_zero M) 0 (length leaves) (padded_leaves M depth leaves)"
  by (auto simp: dummies_from_def nth_append)

lemma pad_leaves_ok:
  "length leaves \<le> 2 ^ depth \<Longrightarrow> pad_leaves M (2 ^ depth) leaves = Inr (padded_leaves M depth leaves)"
  by (simp add: pad_leaves_def)

lemma fold_merkle_left_root:
  assumes "leaves \<noteq> []" and "depth \<le> MAX_TREE_DEPTH" and "length leaves \<le> 2 ^ depth"
  shows "\<exists>nodes. fold_merkle_left M leaves (2 ^ depth) depth (calculate_zeros M) =
    Inr (merkle_root (pair_hash M) depth (padded_leaves M depth leaves), nodes)"
proof -
  let ?xs = "padded_leaves M depth leaves"
  have len: "length ?xs = 2 ^ depth" using assms(3) by simp
  from in_place.loop_root[OF assms(2) len len _ dummies_from_padded]
  obtain nodes' m where loop: "level_loop (fold_level M (calculate_zeros M) depth) depth ?xs
      (length leaves) = Inr (nodes', m)"
    and nodes': "length nodes' = 2 ^ depth" "take 1 nodes' = [merkle_root (pair_hash M) depth ?xs]"
    using len by auto
  have "nodes' ! 0 = merkle_root (pair_hash M) depth ?xs"
    using nodes' by (cases nodes') auto
  with loop nodes'(1) assms(1,3) show ?thesis
    by (simp add: fold_merkle_left_def pad_leaves_ok)
qed

lemma build_merkle_tree_levels:
  assumes "depth \<le> MAX_TREE_DEPTH" and "length leaves \<le> 2 ^ depth"
  shows "\<exists>tree. build_merkle_tree M leaves (2 ^ depth) depth (calculate_zeros M) = Inr tree \<and>
    tree_has_levels (pair_hash M) (padded_leaves M depth leaves) depth 0 tree"
proof -
  let ?xs = "padded_leaves M depth leaves"
  let ?tree = "(replicate (depth + 1) [])[depth := ?xs]"
  have len: "length ?xs = 2 ^ depth" using assms(2) by simp
  have start: "tree_has_levels (pair_hash M) ?xs depth depth ?tree"
    by (auto simp: tree_has_levels_def simp del: replicate_Suc)
  then have "?tree ! depth = ?xs" by (auto simp: tree_has_levels_def)
  from builder.loop_root[OF assms(1) len start this dummies_from_padded]
  obtain tree' m where "level_loop (build_level M (calculate_zeros M) depth) depth ?tree
      (length leaves) = Inr (tree', m)"
    and "tree_has_levels (pair_hash M) ?xs depth 0 tree'"
    by (auto simp del: replicate_Suc)
  then show ?thesis
    using assms(2)
    by (simp add: build_merkle_tree_def pad_leaves_ok del: replicate_Suc)
qed

lemma bruteforce_loop_root:
  "length xs = 2 ^ d \<Longrightarrow> bruteforce_loop M xs = Inr (merkle_root (pair_hash M) d xs)"
proof (induction d arbitrary: xs)
  case 0
  then show ?case by (simp add: bruteforce_loop.simps[of M xs] merkle_root_def)
next
  case (Suc d)
  have "merkle_root (pair_hash M) (Suc d) xs = merkle_root (pair_hash M) d (level_up (pair_hash M) xs)"
    by (simp add: merkle_root_def tree_level_def funpow_Suc_right del: funpow.simps)
  moreover have "(1::nat) < 2 ^ Suc d" by (induction d) auto
  ultimately show ?case
    using Suc by (simp add: bruteforce_loop.simps[of M xs])
qed

lemma tree_level_root:
  assumes "length xs = 2 ^ d"
  shows "tree_level h xs d = [merkle_root h d xs]"
proof -
  have "length (tree_level h xs d) = 1" using length_tree_level[OF assms, of d h] by simp
  then show ?thesis by (cases "tree_level h xs d") (auto simp: merkle_root_def)
qed

text \<open>Splitting a level in the middle: both halves are levels of the half trees.\<close>

lemma level_up_append:
  assumes "even (length xs)"
  shows "level_up h (xs @ ys) = level_up h xs @ level_up h ys"
proof -
  obtain m where m: "length xs = 2 * m" using assms by (auto elim: evenE)
  show ?thesis
  proof (rule nth_equalityI)
    show "length (level_up h (xs @ ys)) = length (level_up h xs @ level_up h ys)"
      by (simp add: m)
    fix i assume "i < length (level_up h (xs @ ys))"
    then show "level_up h (xs @ ys) ! i = (level_up h xs @ level_up h ys) ! i"
      by (cases "i < m") (auto simp: m level_up_nth nth_append algebra_simps Suc_diff_le)
  qed
qed

lemma tree_level_append:
  assumes "length xs = 2 ^ d" and "k \<le> d"
  shows "tree_level h (xs @ ys) k = tree_level h xs k @ tree_level h ys k"
  using assms(2)
proof (induction k)
  case 0
  then show ?case by simp
next
  case (Suc k)
  then have "even (length (tree_level h xs k))"
    using length_tree_level[OF assms(1), of k h] by (cases "d - k") auto
  with Suc show ?case by (simp add: tree_level_Suc level_up_append)
qed

lemma merkle_root_split:
  assumes "length xs = 2 ^ d" and "length ys = 2 ^ d"
  shows "merkle_root h (Suc d) (xs @ ys) = h (merkle_root h d xs) (merkle_root h d ys)"
proof -
  have "tree_level h (xs @ ys) d = [merkle_root h d xs, merkle_root h d ys]"
    using tree_level_append[OF assms(1) order_refl, of h ys]
    by (simp add: tree_level_root[OF assms(1)] tree_level_root[OF assms(2)])
  then show ?thesis
    by (simp add: merkle_root_def[of h "Suc d"] tree_level_Suc level_up_nth)
qed

lemma padded_leaves_nth:
  assumes "length leaves \<le> 2 ^ depth"
  shows "padded_leaves M depth leaves =
    map (\<lambda>j. if j < length leaves then leaves ! j else fp_zero M) [0..<2 ^ depth]"
  using assms by (intro nth_equalityI) (auto simp: nth_append)

lemma subtree_root:
  "subtree M leaves off (2 ^ d) = Inr (merkle_root (pair_hash M) d
     (map (\<lambda>j. if j < length leaves then leaves ! j else fp_zero M) [off..<off + 2 ^ d]))"
proof (induction d arbitrary: off)
  case 0
  then show ?case by (simp add: subtree.simps merkle_root_def)
next
  case (Suc d)
  let ?g = "\<lambda>j. if j < length leaves then leaves ! j else fp_zero M"
  have "map ?g [off..<off + 2 ^ Suc d] =
      map ?g [off..<off + 2 ^ d] @ map ?g [off + 2 ^ d..<off + 2 ^ d + 2 ^ d]"
    using upt_add_eq_append[of off "off + 2 ^ d" "2 ^ d"] by (simp add: mult_2 add.assoc)
  then have "merkle_root (pair_hash M) (Suc d) (map ?g [off..<off + 2 ^ Suc d]) =
      poseidon_hash M [merkle_root (pair_hash M) d (map ?g [off..<off + 2 ^ d]),
        merkle_root (pair_hash M) d (map ?g [off + 2 ^ d..<off + 2 ^ d + 2 ^ d])]"
    by (simp add: merkle_root_split)
  moreover have "subtree M leaves off (2 ^ Suc d) =
      bind_res (subtree M leaves off (2 ^ d)) (\<lambda>left.
      bind_res (subtree M leaves (off + 2 ^ d) (2 ^ d)) (\<lambda>right.
      Inr (poseidon_hash M [left, right])))"
    by (subst subtree.simps) (simp add: Let_def)
  ultimately show ?case
    using Suc by simp
qed

section \<open>Authentication paths\<close>

lemma odd_drop_bit_word:
  fixes idx :: "'n::len word"
  assumes "m < LENGTH('n)"
  shows "drop_bit m idx AND 1 = 1 \<longleftrightarrow> odd (unat idx div 2 ^ m)"
proof -
  have "drop_bit m idx AND 1 = of_bool (bit idx m)"
    by (simp add: and_one_eq bit_iff_odd_drop_bit mod_2_eq_odd)
  moreover have "bit (unat idx) m \<longleftrightarrow> bit idx m"
    using bit_imp_le_length by (auto simp: bit_unsigned_iff)
  ultimately show ?thesis by (simp add: bit_iff_odd[of "unat idx"])
qed

lemma unat_xor_one: "unat (idx XOR 1 :: u32) = sibling_of (unat idx)"
proof -
  have "unat (idx XOR 1) = unat idx XOR 1"
    by (simp add: unsigned_xor_eq)
  also have "\<dots> = sibling_of (unat idx)"
    by (cases "even (unat idx)") (auto simp: sibling_of_def xor_Suc_0_eq elim: oddE)
  finally show ?thesis .
qed

text \<open>Hashing up along the recorded siblings visits the nodes above position \<open>p\<close>.\<close>

lemma enumerate_append_last: "enumerate 0 (xs @ [x]) = enumerate 0 xs @ [(length xs, x)]"
  by (simp add: enumerate_append_eq)

lemma length_merkle_path [simp]: "length (merkle_path h xs p m) = m"
  by (simp add: merkle_path_def)

lemma merkle_path_Suc:
  "merkle_path h xs p (Suc m) = merkle_path h xs p m @ [tree_level h xs m ! sibling_of (p div 2 ^ m)]"
  by (simp add: merkle_path_def)

lemma tree_level_parent:
  assumes "length xs = 2 ^ depth" and "unat idx < 2 ^ depth" and "m < depth"
  shows "tree_level h xs (Suc m) ! (unat idx div 2 ^ Suc m) =
    (if odd (unat idx div 2 ^ m)
     then h (tree_level h xs m ! sibling_of (unat idx div 2 ^ m)) (tree_level h xs m ! (unat idx div 2 ^ m))
     else h (tree_level h xs m ! (unat idx div 2 ^ m)) (tree_level h xs m ! sibling_of (unat idx div 2 ^ m)))"
proof -
  let ?q = "unat idx div 2 ^ m"
  have q: "unat idx div 2 ^ Suc m = ?q div 2"
    by (metis div_mult2_eq mult.commute power_Suc)
  have "?q div 2 < 2 ^ (depth - Suc m)"
    using div_pow2_less[OF assms(2), of "Suc m"] assms(3) q by simp
  moreover have "length (tree_level h xs m) = 2 * 2 ^ (depth - Suc m)"
    using length_tree_level[OF assms(1), of m h] assms(3) by (metis Suc_diff_Suc less_imp_le power_Suc)
  ultimately have "level_up h (tree_level h xs m) ! (?q div 2) =
      h (tree_level h xs m ! (2 * (?q div 2))) (tree_level h xs m ! (2 * (?q div 2) + 1))"
    by (intro level_up_nth) simp
  then show ?thesis
    unfolding q tree_level_Suc
    by (cases rule: parity_cases[of ?q]) (auto simp: sibling_of_def mod_2_eq_odd elim!: evenE oddE)
qed

lemma compute_merkle_root_along_path:
  fixes idx :: u64
  assumes "depth \<le> MAX_TREE_DEPTH" and "length xs = 2 ^ depth" and "unat idx < 2 ^ depth" and "m \<le> depth"
  shows "compute_merkle_root_from_path M (xs ! unat idx) idx (merkle_path (pair_hash M) xs (unat idx) m) =
    Inr (tree_level (pair_hash M) xs m ! (unat idx div 2 ^ m))"
  using assms(4)
proof (induction m)
  case 0
  then show ?case by (simp add: compute_merkle_root_from_path_def merkle_path_def)
next
  case (Suc m)
  have m: "m < 64" using Suc.prems assms(1) by (simp add: MAX_TREE_DEPTH_def)
  have "root_step M idx (tree_level (pair_hash M) xs m ! (unat idx div 2 ^ m))
      (m, tree_level (pair_hash M) xs m ! sibling_of (unat idx div 2 ^ m)) =
    Inr (tree_level (pair_hash M) xs (Suc m) ! (unat idx div 2 ^ Suc m))"
    using tree_level_parent[OF assms(2,3), of m "pair_hash M"] Suc.prems m
    by (simp add: root_step_def odd_drop_bit_word)
  with Suc show ?case
    by (simp add: compute_merkle_root_from_path_def merkle_path_Suc enumerate_append_last
        fold_res_append)
qed

lemma compute_merkle_root_of_path:
  fixes idx :: u64
  assumes "depth \<le> MAX_TREE_DEPTH" and "length xs = 2 ^ depth" and "unat idx < 2 ^ depth"
  shows "compute_merkle_root_from_path M (xs ! unat idx) idx (merkle_path (pair_hash M) xs (unat idx) depth) =
    Inr (merkle_root (pair_hash M) depth xs)"
  using compute_merkle_root_along_path[OF assms order_refl, of M] assms(3)
  by (simp add: merkle_root_def)

lemma get_merkle_path_from_leaves_path:
  fixes idx :: u32
  assumes "leaves \<noteq> []" and "depth \<le> MAX_TREE_DEPTH" and "length leaves \<le> 2 ^ depth"
    and "unat idx < 2 ^ depth"
  shows "get_merkle_path_from_leaves M leaves (2 ^ depth) depth idx (calculate_zeros M) =
    Inr (merkle_path (pair_hash M) (padded_leaves M depth leaves) (unat idx) depth)"
proof -
  let ?xs = "padded_leaves M depth leaves"
  have len: "length ?xs = 2 ^ depth" using assms(3) by simp
  have start: "path_inv (pair_hash M) (unat idx) ?xs depth depth (?xs, [], unat idx)"
    using len assms(4) by (simp add: path_inv_def merkle_path_def)
  have obs: "take (2 ^ depth) (fst (?xs, [] :: 'a list, unat idx)) = ?xs"
    using len by simp
  from pather.loop_root[OF assms(2) len start obs dummies_from_padded]
  obtain st m where "level_loop (path_level M (calculate_zeros M) depth) depth (?xs, [], unat idx)
      (length leaves) = Inr (st, m)"
    and "path_inv (pair_hash M) (unat idx) ?xs depth 0 st"
    by blast
  with assms(1,3) show ?thesis
    by (auto simp: get_merkle_path_from_leaves_def pad_leaves_ok path_inv_def split: prod.splits)
qed

lemma tree_path_levels:
  fixes idx :: u32
  assumes tree: "tree_has_levels h xs depth 0 tree" and xs: "length xs = 2 ^ depth"
    and idx: "unat idx < 2 ^ depth" and m: "m \<le> depth"
  shows "\<exists>i. fold_res (tree_path_level tree) (rev [Suc (depth - m)..<Suc depth]) ([], idx) =
    Inr (merkle_path h xs (unat idx) m, i) \<and> unat i = unat idx div 2 ^ m"
  using m
proof (induction m)
  case 0
  then show ?case by (simp add: merkle_path_def)
next
  case (Suc m)
  then obtain i where i: "fold_res (tree_path_level tree) (rev [Suc (depth - m)..<Suc depth]) ([], idx) =
      Inr (merkle_path h xs (unat idx) m, i)" "unat i = unat idx div 2 ^ m"
    by auto
  let ?l = "depth - m"
  have l: "?l = Suc (depth - Suc m)" using Suc.prems by simp
  have nodes: "index_res tree ?l = Inr (tree_level h xs m)"
    using tree Suc.prems by (simp add: tree_has_levels_def)
  have "sibling_of (unat i) < 2 ^ ?l"
    unfolding l by (rule sibling_of_less) (use div_pow2_less[OF idx, of m] Suc.prems i(2) l in simp)
  then have "index_res (tree_level h xs m) (unat (i XOR 1)) = Inr (tree_level h xs m ! sibling_of (unat i))"
    using length_tree_level[OF xs, of m h] Suc.prems by (simp add: unat_xor_one)
  with nodes have "tree_path_level tree (merkle_path h xs (unat idx) m, i) ?l =
      Inr (merkle_path h xs (unat idx) (Suc m), i div 2)"
    by (simp add: tree_path_level_def merkle_path_Suc i(2))
  moreover have "rev [Suc (depth - Suc m)..<Suc depth] = rev [Suc ?l..<Suc depth] @ [?l]"
    using upt_conv_Cons[of ?l "Suc depth"] l by (simp del: upt_Suc)
  moreover have "unat (i div 2) = unat idx div 2 ^ Suc m"
    using i(2) by (simp add: unat_div div_mult2_eq[symmetric] mult.commute)
  ultimately show ?case
    using i(1) by (auto simp: fold_res_append)
qed

lemma get_merkle_path_from_tree_path:
  fixes idx :: u32
  assumes "tree_has_levels h xs depth 0 tree" and "length xs = 2 ^ depth" and "unat idx < 2 ^ depth"
  shows "get_merkle_path_from_tree tree idx = Inr (merkle_path h xs (unat idx) depth)"
proof -
  have "length tree = Suc depth" using assms(1) by (simp add: tree_has_levels_def)
  with tree_path_levels[OF assms order_refl] show ?thesis
    by (auto simp: get_merkle_path_from_tree_def simp del: upt_Suc)
qed

section \<open>Binding\<close>

text \<open>The pairs that are hashed on the way up from a leaf.\<close>

definition path_pair :: "u64 \<Rightarrow> 'f \<Rightarrow> nat \<Rightarrow> 'f \<Rightarrow> 'f list" where
  "path_pair idx hash level sibling =
     (if drop_bit level idx AND 1 = 1 then [sibling, hash] else [hash, sibling])"

fun path_pairs :: "('f, 's) mina \<Rightarrow> u64 \<Rightarrow> nat \<Rightarrow> 'f \<Rightarrow> 'f list \<Rightarrow> 'f list list" where
  "path_pairs M idx level hash [] = []"
| "path_pairs M idx level hash (sibling # path) =
     path_pair idx hash level sibling #
     path_pairs M idx (Suc level) (poseidon_hash M (path_pair idx hash level sibling)) path"

lemma path_pair_inject: "path_pair idx x l s = path_pair idx y l t \<longleftrightarrow> x = y \<and> s = t"
  by (auto simp: path_pair_def)

lemma root_step_pair:
  "root_step M idx hash (level, sibling) =
     (if level \<ge> 64 then Inl ShiftOverflow else Inr (poseidon_hash M (path_pair idx hash level sibling)))"
  by (simp add: root_step_def path_pair_def Let_def)

lemma fold_root_step_binding:
  assumes "fold_res (root_step M idx) (enumerate l ps) x = Inr r"
    and "fold_res (root_step M idx) (enumerate l qs) y = Inr r"
    and "length ps = length qs" and "(x, ps) \<noteq> (y, qs)"
  shows "\<exists>k < length ps. path_pairs M idx l x ps ! k \<noteq> path_pairs M idx l y qs ! k \<and>
    poseidon_hash M (path_pairs M idx l x ps ! k) = poseidon_hash M (path_pairs M idx l y qs ! k)"
  using assms(3,1,2,4)
proof (induction ps qs arbitrary: l x y rule: list_induct2)
  case Nil
  then show ?case by simp
next
  case (Cons p ps q qs)
  let ?a = "path_pair idx x l p" and ?b = "path_pair idx y l q"
  have l: "\<not> l \<ge> 64" and
    up: "fold_res (root_step M idx) (enumerate (Suc l) ps) (poseidon_hash M ?a) = Inr r"
      "fold_res (root_step M idx) (enumerate (Suc l) qs) (poseidon_hash M ?b) = Inr r"
    using Cons.prems(1,2) by (auto simp: root_step_pair split: if_splits)
  show ?case
  proof (cases "(poseidon_hash M ?a, ps) = (poseidon_hash M ?b, qs)")
    case True
    with Cons.prems(3) have "?a \<noteq> ?b" by (auto simp: path_pair_inject)
    with True show ?thesis by (intro exI[of _ 0]) simp
  next
    case False
    from Cons.IH[OF up this] obtain k where "k < length ps"
      "path_pairs M idx (Suc l) (poseidon_hash M ?a) ps ! k \<noteq> path_pairs M idx (Suc l) (poseidon_hash M ?b) qs ! k"
      "poseidon_hash M (path_pairs M idx (Suc l) (poseidon_hash M ?a) ps ! k) =
       poseidon_hash M (path_pairs M idx (Suc l) (poseidon_hash M ?b) qs ! k)"
      by blast
    then show ?thesis by (intro exI[of _ "Suc k"]) simp
  qed
qed

section \<open>The table on disk\<close>

lemma fold_enumerate_update:
  "length pre + length rest = n \<Longrightarrow>
   fold_res (\<lambda>zeros (i, chunk). bind_res (map_err e (dec chunk)) (\<lambda>z. update_res zeros i z))
     (enumerate (length pre) (map enc rest)) (pre @ replicate (length rest) x) =
   Inr (pre @ rest)"
  if "\<And>z. dec (enc z) = Inr z"
  using that
proof (induction rest arbitrary: pre)
  case Nil
  then show ?case by simp
next
  case (Cons z rest)
  from Cons.IH[of "pre @ [z]"] Cons.prems show ?case
    by (simp add: list_update_append)
qed

lemma length_concat_enc: "(\<And>z. length (enc z) = n) \<Longrightarrow> length (concat (map enc zs)) = n * length zs"
  by (induction zs) auto

section \<open>Roots of an accepted batch\<close>

lemma merkle_root_of_batch:
  assumes "length leaves \<le> MAX_BATCH"
    and dp: "compute_merkle_tree_depth_and_size (length leaves) = (depth, padded)"
  shows "\<exists>root nodes tree.
    fold_merkle_left M leaves padded depth (calculate_zeros M) = Inr (root, nodes) \<and>
    build_merkle_tree M leaves padded depth (calculate_zeros M) = Inr tree \<and>
    length tree = depth + 1 \<and> tree ! 0 = [root] \<and>
    tree ! depth = leaves @ replicate (padded - length leaves) (fp_zero M) \<and>
    reference_root_bruteforce M leaves padded = Inr root \<and>
    reference_root_recursive M leaves padded = Inr root"
proof -
  note size = depth_and_size(1,2)[OF dp] and depth = depth_bounded[OF dp assms(1)]
  let ?xs = "padded_leaves M depth leaves" and ?h = "pair_hash M"
  have len: "length ?xs = 2 ^ depth" using size(2) by simp
  from build_merkle_tree_levels[OF depth size(2), of M] obtain tree where
    build: "build_merkle_tree M leaves (2 ^ depth) depth (calculate_zeros M) = Inr tree"
    and tree: "tree_has_levels ?h ?xs depth 0 tree" by blast
  have root: "tree ! 0 = [merkle_root ?h depth ?xs]"
    using tree tree_level_root[OF len, of ?h] by (simp add: tree_has_levels_def)
  have fold: "\<exists>nodes. fold_merkle_left M leaves (2 ^ depth) depth (calculate_zeros M) =
      Inr (merkle_root ?h depth ?xs, nodes)"
  proof (cases "leaves = []")
    case True
    then have "depth = 0" using dp by (simp add: compute_merkle_tree_depth_and_size_def)
    with True show ?thesis by (simp add: fold_merkle_left_def merkle_root_def)
  next
    case False
    then show ?thesis by (rule fold_merkle_left_root[OF _ depth size(2)])
  qed
  have brute: "reference_root_bruteforce M leaves (2 ^ depth) = Inr (merkle_root ?h depth ?xs)"
    using bruteforce_loop_root[OF len, of M] size(2) by (simp add: reference_root_bruteforce_def)
  have rec: "reference_root_recursive M leaves (2 ^ depth) = Inr (merkle_root ?h depth ?xs)"
    using subtree_root[of M leaves 0 depth] padded_leaves_nth[OF size(2), of M]
    by (simp add: reference_root_recursive_def)
  have "tree ! depth = ?xs" "length tree = depth + 1" using tree by (auto simp: tree_has_levels_def)
  with size(1) fold build root brute rec show ?thesis by auto
qed

lemma merkle_zeros_of_file:
  assumes "\<And>x. length (fp_to_bytes M x) = 32" and "\<And>x. fp_from_bytes M (fp_to_bytes M x) = Inr x"
  shows "get_merkle_zeros M (save_zeros M) = Inr (calculate_zeros M)"
proof -
  have "chunks 32 (save_zeros M) = map (fp_to_bytes M) (calculate_zeros M)"
    unfolding save_zeros_def by (rule chunks_concat_map) (simp_all add: assms)
  then show ?thesis
    using fold_enumerate_update[of "fp_from_bytes M" "fp_to_bytes M" "[]" "calculate_zeros M"
        N_MERKLE_ZEROS "\<lambda>_. UnwrapFailed ''invalid Fp bytes''" "fp_zero M", OF assms(2)]
    by (simp add: get_merkle_zeros_def)
qed

section \<open>A concrete instance\<close>

text \<open>
  A computable stand-in for the field and the sponge, on which the hypotheses of the theorems
  are discharged: field elements are 256-bit words in 32 little-endian bytes.
\<close>

definition sample_mina :: "(u256, u256 list) mina" where
  "sample_mina = \<lparr>
     fp_zero = 0,
     fp_from_bytes = (\<lambda>bs. if length bs = 32 then Inr (from_le_bytes bs) else Inl ''length''),
     fp_to_bytes = to_le_bytes 32,
     sponge_new = [],
     sponge_absorb = (\<lambda>s xs. s @ xs),
     sponge_squeeze = foldl (\<lambda>acc x. 31 * acc + x + 7) 1\<rparr>"

section \<open>Properties\<close>

text \<open>C12: For every batch the guest accepts (at most \<open>MAX_BATCH\<close> leaves, the empty batch included)
  the in-place fold, the level-by-level builder and both reference implementations run without a
  panic and compute the same root: looking dummy subtrees up in the zero table never changes it.\<close>

theorem merkle_roots_agree:
  assumes "length leaves \<le> MAX_BATCH"
  shows "case compute_merkle_tree_depth_and_size (length leaves) of (depth, padded_size) \<Rightarrow>
    \<exists>root nodes tree.
      fold_merkle_left M leaves padded_size depth (calculate_zeros M) = Inr (root, nodes) \<and>
      build_merkle_tree M leaves padded_size depth (calculate_zeros M) = Inr tree \<and>
      length tree = depth + 1 \<and> tree ! 0 = [root] \<and>
      tree ! depth = leaves @ replicate (padded_size - length leaves) (fp_zero M) \<and>
      reference_root_bruteforce M leaves padded_size = Inr root \<and>
      reference_root_recursive M leaves padded_size = Inr root"
proof -
  obtain depth padded where dp: "compute_merkle_tree_depth_and_size (length leaves) = (depth, padded)"
    by (cases "compute_merkle_tree_depth_and_size (length leaves)")
  from merkle_root_of_batch[OF assms dp, of M] dp show ?thesis by auto
qed

theorem merkle_roots_agree_witness:
  "case compute_merkle_tree_depth_and_size (length [1, 2, 3, 4, 5 :: u256]) of (depth, padded_size) \<Rightarrow>
    \<exists>root nodes tree.
      fold_merkle_left sample_mina [1, 2, 3, 4, 5] padded_size depth (calculate_zeros sample_mina) = Inr (root, nodes) \<and>
      build_merkle_tree sample_mina [1, 2, 3, 4, 5] padded_size depth (calculate_zeros sample_mina) = Inr tree \<and>
      length tree = depth + 1 \<and> tree ! 0 = [root] \<and>
      tree ! depth = [1, 2, 3, 4, 5] @ replicate (padded_size - length [1, 2, 3, 4, 5 :: u256]) (fp_zero sample_mina) \<and>
      reference_root_bruteforce sample_mina [1, 2, 3, 4, 5] padded_size = Inr root \<and>
      reference_root_recursive sample_mina [1, 2, 3, 4, 5] padded_size = Inr root"
  by (rule merkle_roots_agree) (simp add: MAX_BATCH_def MAX_TREE_DEPTH_def)

text \<open>C23: Completeness of authentication paths. For every leaf of an accepted batch the path
  collected while folding in place and the path read off the built tree are the same list of
  \<open>depth\<close> siblings, and hashing the leaf up along it gives the root that \<open>fold_merkle_left\<close>
  computes.\<close>

theorem merkle_paths_complete:
  fixes idx :: u32
  assumes "length leaves \<le> MAX_BATCH" and "unat idx < length leaves"
    and "compute_merkle_tree_depth_and_size (length leaves) = (depth, padded_size)"
  shows "\<exists>root nodes tree path.
      fold_merkle_left M leaves padded_size depth (calculate_zeros M) = Inr (root, nodes) \<and>
      build_merkle_tree M leaves padded_size depth (calculate_zeros M) = Inr tree \<and>
      get_merkle_path_from_leaves M leaves padded_size depth idx (calculate_zeros M) = Inr path \<and>
      get_merkle_path_from_tree tree idx = Inr path \<and> length path = depth \<and>
      compute_merkle_root_from_path M (leaves ! unat idx) (ucast idx) path = Inr root"
proof -
  note size = depth_and_size(1,2)[OF assms(3)] and depth = depth_bounded[OF assms(3,1)]
  let ?xs = "padded_leaves M depth leaves" and ?h = "pair_hash M" and ?idx = "ucast idx :: u64"
  have len: "length ?xs = 2 ^ depth" using size(2) by simp
  have idx: "unat idx < 2 ^ depth" and ne: "leaves \<noteq> []" using assms(2) size(2) by auto
  have uidx: "unat ?idx = unat idx" by (simp add: unat_ucast_up)
  have leaf: "?xs ! unat ?idx = leaves ! unat idx" using assms(2) by (simp add: uidx nth_append)
  from build_merkle_tree_levels[OF depth size(2), of M] obtain tree where
    "build_merkle_tree M leaves (2 ^ depth) depth (calculate_zeros M) = Inr tree"
    "tree_has_levels ?h ?xs depth 0 tree" by blast
  with fold_merkle_left_root[OF ne depth size(2), of M]
    get_merkle_path_from_leaves_path[OF ne depth size(2) idx, of M]
    get_merkle_path_from_tree_path[OF _ len idx, of ?h tree]
    compute_merkle_root_of_path[OF depth len, of ?idx M]
  show ?thesis
    unfolding size(1) using idx by (auto simp: uidx leaf[unfolded uidx])
qed

theorem merkle_paths_complete_witness:
  "\<exists>root nodes tree path.
      fold_merkle_left sample_mina [10, 20, 30] 4 2 (calculate_zeros sample_mina) = Inr (root, nodes) \<and>
      build_merkle_tree sample_mina [10, 20, 30] 4 2 (calculate_zeros sample_mina) = Inr tree \<and>
      get_merkle_path_from_leaves sample_mina [10, 20, 30] 4 2 1 (calculate_zeros sample_mina) = Inr path \<and>
      get_merkle_path_from_tree tree 1 = Inr path \<and> length path = 2 \<and>
      compute_merkle_root_from_path sample_mina ([10, 20, 30] ! unat (1 :: u32)) (ucast (1 :: u32)) path = Inr root"
  by (rule merkle_paths_complete)
    (simp_all add: MAX_BATCH_def MAX_TREE_DEPTH_def compute_merkle_tree_depth_and_size_def
      next_power_of_two.simps trailing_zeros.simps)



text \<open>The file written by \<open>save_zeros\<close> is read back by \<open>get_merkle_zeros\<close> as the table that
  \<open>calculate_zeros\<close> computes, entry \<open>k\<close> being the root of the empty tree of depth \<open>k\<close>. The
  hypotheses are the 32-byte canonical encoding of field elements.\<close>

theorem merkle_zeros_round_trip:
  assumes "\<And>x. length (fp_to_bytes M x) = 32" and "\<And>x. fp_from_bytes M (fp_to_bytes M x) = Inr x"
  shows "get_merkle_zeros M (save_zeros M) = Inr (calculate_zeros M) \<and>
    (\<forall>k \<le> MAX_TREE_DEPTH.
      reference_root_bruteforce M [] (2 ^ k) = Inr (calculate_zeros M ! k))"
proof -
  have "merkle_root (pair_hash M) k (replicate (2 ^ k) (fp_zero M)) = zero_hash (pair_hash M) (fp_zero M) k" for k
  proof (induction k)
    case 0
    then show ?case by (simp add: merkle_root_def)
  next
    case (Suc k)
    then show ?case
      using merkle_root_split[of "replicate (2 ^ k) (fp_zero M)" k "replicate (2 ^ k) (fp_zero M)" "pair_hash M"]
      by (simp add: zero_hash_Suc mult_2 flip: replicate_add)
  qed
  with merkle_zeros_of_file[of M, OF assms] show ?thesis
    by (simp add: reference_root_bruteforce_def bruteforce_loop_root calculate_zeros_nth)
qed

theorem merkle_zeros_round_trip_witness:
  "get_merkle_zeros sample_mina (save_zeros sample_mina) = Inr (calculate_zeros sample_mina) \<and>
   reference_root_bruteforce sample_mina [] (2 ^ 3) = Inr (calculate_zeros sample_mina ! 3)"
proof -
  have "get_merkle_zeros sample_mina (save_zeros sample_mina) = Inr (calculate_zeros sample_mina) \<and>
    (\<forall>k \<le> MAX_TREE_DEPTH.
      reference_root_bruteforce sample_mina [] (2 ^ k) = Inr (calculate_zeros sample_mina ! k))"
    by (rule merkle_zeros_round_trip) (simp_all add: sample_mina_def from_le_to_le_bytes)
  moreover have "3 \<le> MAX_TREE_DEPTH" by (simp add: MAX_TREE_DEPTH_def)
  ultimately show ?thesis by blast
qed



end
