(* ===== verification/Nori_Request_Leaf.thy ===== *)
theory Nori_Request_Leaf
  imports Nori_Merkle_Correct
begin

text \<open>
  The request leaf of \<open>nori-hash/src/merkle_poseidon_fixed.rs\<close>: 117 bytes packed into four
  field elements and hashed. \<open>Fp::from_bytes\<close> (package o1-utils) is a field of \<open>mina\<close>; what the
  packing relies on is \<open>accepts_canonical\<close>: a 32-byte string whose little-endian value is below
  the Pallas base modulus decodes to the element with that encoding.
\<close>

section \<open>Packing\<close>

definition pack_request_leaf_fields ::
    "('f, 's) mina \<Rightarrow> address \<Rightarrow> u8 \<Rightarrow> b256 \<Rightarrow> b256 \<Rightarrow> u256 \<Rightarrow> string + 'f list" where
  "pack_request_leaf_fields M target collection_keys_count collection_key_0 collection_key_1 val =
     (let target_bytes = to_be_bytes 20 target;
          key_0_bytes = to_be_bytes 32 collection_key_0;
          key_1_bytes = to_be_bytes 32 collection_key_1;
          value_bytes = to_be_bytes 32 val;
          first = copy_at 0 target_bytes (replicate 32 0);
          first = first[20 := collection_keys_count];
          first = first[21 := key_0_bytes ! 0];
          first = first[22 := key_1_bytes ! 0];
          first = first[23 := value_bytes ! 0];
          second = copy_at 0 (slice_at 1 32 key_0_bytes) (replicate 32 0);
          third = copy_at 0 (slice_at 1 32 key_1_bytes) (replicate 32 0);
          fourth = copy_at 0 (slice_at 1 32 value_bytes) (replicate 32 0)
      in bind_res (fp_from_bytes M first) (\<lambda>f1.
         bind_res (fp_from_bytes M second) (\<lambda>f2.
         bind_res (fp_from_bytes M third) (\<lambda>f3.
         bind_res (fp_from_bytes M fourth) (\<lambda>f4.
         Inr [f1, f2, f3, f4])))))"

definition hash_request_leaf ::
    "('f, 's) mina \<Rightarrow> address \<Rightarrow> u8 \<Rightarrow> b256 \<Rightarrow> b256 \<Rightarrow> u256 \<Rightarrow> string + 'f" where
  "hash_request_leaf M target collection_keys_count collection_key_0 collection_key_1 val =
     bind_res (pack_request_leaf_fields M target collection_keys_count collection_key_0
       collection_key_1 val) (\<lambda>fields. Inr (poseidon_hash M fields))"

section \<open>The field codec\<close>

definition PALLAS_BASE_MODULUS :: nat where
  "PALLAS_BASE_MODULUS =
     28948022309329048855892746252171976963363056481941560715954676764349967630337"

definition accepts_canonical :: "('f, 's) mina \<Rightarrow> bool" where
  "accepts_canonical M \<longleftrightarrow> (\<forall>bs. length bs = 32 \<longrightarrow> nat_of_le bs < PALLAS_BASE_MODULUS \<longrightarrow>
     (\<exists>x. fp_from_bytes M bs = Inr x \<and> fp_to_bytes M x = bs))"

lemma accepts_canonicalD:
  assumes "accepts_canonical M" and "length bs = 32" and "nat_of_le bs < PALLAS_BASE_MODULUS"
  obtains x where "fp_from_bytes M bs = Inr x" and "fp_to_bytes M x = bs"
  using assms by (auto simp: accepts_canonical_def)

lemma accepts_canonical_sample: "accepts_canonical sample_mina"
  using to_le_from_le_bytes[where 'n = 256]
  by (auto simp: accepts_canonical_def sample_mina_def)

text \<open>A 32-byte string that ends in a zero byte is below the modulus.\<close>

lemma zero_top_byte_canonical:
  assumes "length bs = 31"
  shows "nat_of_le (bs @ [0]) < PALLAS_BASE_MODULUS"
proof -
  have "nat_of_le (bs @ [0]) < 256 ^ 31"
    using nat_of_le_bound[of bs] assms by (simp add: nat_of_le_append)
  also have "(256::nat) ^ 31 \<le> PALLAS_BASE_MODULUS" by (simp add: PALLAS_BASE_MODULUS_def)
  finally show ?thesis .
qed

section \<open>The packed bytes\<close>

definition leaf_bytes :: "address \<Rightarrow> u8 \<Rightarrow> b256 \<Rightarrow> b256 \<Rightarrow> u256 \<Rightarrow> bytes list" where
  "leaf_bytes target count k0 k1 v =
     [to_be_bytes 20 target @ [count, hd (to_be_bytes 32 k0), hd (to_be_bytes 32 k1),
        hd (to_be_bytes 32 v)] @ replicate 8 0,
      tl (to_be_bytes 32 k0) @ [0], tl (to_be_bytes 32 k1) @ [0], tl (to_be_bytes 32 v) @ [0]]"

lemma slice_tail: "length xs = 32 \<Longrightarrow> slice_at (Suc 0) 32 xs = tl xs"
  by (simp add: slice_at_def drop_Suc)

lemma first_field_bytes:
  assumes "length t = 20"
  shows "(copy_at 0 t (replicate 32 (0 :: u8)))[20 := a, 21 := b, 22 := c, 23 := d] =
    t @ [a, b, c, d] @ replicate 8 0"
  using assms by (simp add: copy_at_def list_update_append numeral_eq_Suc)

lemma tail_field_bytes:
  assumes "length ys = 31"
  shows "copy_at 0 ys (replicate 32 (0 :: u8)) = ys @ [0]"
  using assms by (simp add: copy_at_def)

lemma pack_request_leaf_fields_bytes:
  "pack_request_leaf_fields M target count k0 k1 v =
     traverse_res (fp_from_bytes M) (leaf_bytes target count k0 k1 v)"
  by (simp add: pack_request_leaf_fields_def leaf_bytes_def Let_def slice_tail first_field_bytes
      tail_field_bytes bind_res_assoc hd_conv_nth flip: length_0_conv)

lemma leaf_bytes_canonical:
  assumes "bs \<in> set (leaf_bytes target count k0 k1 v)"
  shows "length bs = 32" and "nat_of_le bs < PALLAS_BASE_MODULUS"
proof -
  have "\<exists>ys. bs = ys @ [0] \<and> length ys = 31"
  proof -
    have "t @ [a, b, c, d] @ replicate 8 (0::u8) = (t @ [a, b, c, d] @ replicate 7 0) @ [0]" for t a b c d
      by (simp add: numeral_eq_Suc)
    then show ?thesis using assms by (auto simp: leaf_bytes_def)
  qed
  then show "length bs = 32" "nat_of_le bs < PALLAS_BASE_MODULUS"
    by (auto simp: zero_top_byte_canonical)
qed

lemma leaf_bytes_inject:
  assumes "leaf_bytes target count k0 k1 v = leaf_bytes target' count' k0' k1' v'"
  shows "target = target' \<and> count = count' \<and> k0 = k0' \<and> k1 = k1' \<and> v = v'"
proof -
  have hd_tl: "w = w'"
    if "hd (to_be_bytes 32 w) = hd (to_be_bytes 32 w')" "tl (to_be_bytes 32 w) = tl (to_be_bytes 32 w')"
    for w w' :: "256 word"
  proof -
    have "to_be_bytes 32 w \<noteq> []" "to_be_bytes 32 w' \<noteq> []" by (simp_all flip: length_0_conv)
    with that have "to_be_bytes 32 w = to_be_bytes 32 w'" by (metis list.collapse)
    then show ?thesis by (rule to_be_bytes_inject[rotated]) simp
  qed
  from assms have "to_be_bytes 20 target = to_be_bytes 20 target'" "count = count'"
    by (simp_all add: leaf_bytes_def)
  moreover from this(1) have "target = target'" by (rule to_be_bytes_inject[rotated]) simp
  ultimately show ?thesis
    using assms by (simp add: leaf_bytes_def hd_tl)
qed

lemma pack_request_leaf_fields_encodes:
  assumes "accepts_canonical M"
  shows "\<exists>fields. pack_request_leaf_fields M target count k0 k1 v = Inr fields \<and>
    map (fp_to_bytes M) fields = leaf_bytes target count k0 k1 v"
proof -
  have "\<exists>xs. traverse_res (fp_from_bytes M) bss = Inr xs \<and> map (fp_to_bytes M) xs = bss"
    if "\<And>bs. bs \<in> set bss \<Longrightarrow> length bs = 32 \<and> nat_of_le bs < PALLAS_BASE_MODULUS" for bss
    using that
  proof (induction bss)
    case Nil
    then show ?case by simp
  next
    case (Cons bs bss)
    then obtain x where "fp_from_bytes M bs = Inr x" "fp_to_bytes M x = bs"
      using accepts_canonicalD[OF assms, of bs] by auto
    with Cons show ?case by auto
  qed
  from this[of "leaf_bytes target count k0 k1 v"] leaf_bytes_canonical show ?thesis
    by (auto simp: pack_request_leaf_fields_bytes)
qed

lemma hash_request_leaf_total:
  "accepts_canonical M \<Longrightarrow> \<exists>x. hash_request_leaf M target count k0 k1 v = Inr x"
  using pack_request_leaf_fields_encodes[of M target count k0 k1 v]
  by (auto simp: hash_request_leaf_def)

section \<open>Properties\<close>

text \<open>C29: Packing a request never fails (every one of the four 32-byte strings is below the field
  modulus), produces four field elements, and is injective: requests that differ in the target,
  the key count, a key or the value never give the same fields, so distinct requests have
  the same leaf hash only if Poseidon collides on two different four-element inputs.\<close>

theorem request_leaf_packing_injective:
  assumes "accepts_canonical M"
  shows "\<exists>fields fields'.
    pack_request_leaf_fields M target count k0 k1 v = Inr fields \<and> length fields = 4 \<and>
    pack_request_leaf_fields M target' count' k0' k1' v' = Inr fields' \<and> length fields' = 4 \<and>
    hash_request_leaf M target count k0 k1 v = Inr (poseidon_hash M fields) \<and>
    hash_request_leaf M target' count' k0' k1' v' = Inr (poseidon_hash M fields') \<and>
    (fields = fields' \<longleftrightarrow> (target, count, k0, k1, v) = (target', count', k0', k1', v'))"
proof -
  from pack_request_leaf_fields_encodes[OF assms, of target count k0 k1 v]
    pack_request_leaf_fields_encodes[OF assms, of target' count' k0' k1' v']
  obtain fs fs' where fs: "pack_request_leaf_fields M target count k0 k1 v = Inr fs"
      "map (fp_to_bytes M) fs = leaf_bytes target count k0 k1 v"
    and fs': "pack_request_leaf_fields M target' count' k0' k1' v' = Inr fs'"
      "map (fp_to_bytes M) fs' = leaf_bytes target' count' k0' k1' v'"
    by blast
  have "length fs = 4" "length fs' = 4"
    using fs(2) fs'(2) by (simp_all add: leaf_bytes_def map_eq_Cons_conv) auto
  moreover have "fs = fs' \<longleftrightarrow> (target, count, k0, k1, v) = (target', count', k0', k1', v')"
    using fs fs' leaf_bytes_inject[of target count k0 k1 v target' count' k0' k1' v'] by auto
  ultimately show ?thesis
    using fs(1) fs'(1) by (simp add: hash_request_leaf_def)
qed

theorem request_leaf_packing_injective_witness:
  "\<exists>fields fields'.
    pack_request_leaf_fields sample_mina 7 1 3 0 9 = Inr fields \<and> length fields = 4 \<and>
    pack_request_leaf_fields sample_mina 7 2 3 0 9 = Inr fields' \<and> length fields' = 4 \<and>
    hash_request_leaf sample_mina 7 1 3 0 9 = Inr (poseidon_hash sample_mina fields) \<and>
    hash_request_leaf sample_mina 7 2 3 0 9 = Inr (poseidon_hash sample_mina fields') \<and>
    (fields = fields' \<longleftrightarrow> (7 :: address, 1 :: u8, 3 :: b256, 0 :: b256, 9 :: u256) = (7, 2, 3, 0, 9))"
  by (rule request_leaf_packing_injective) (rule accepts_canonical_sample)

end
