(* ===== verification/Nori_Notices.thy ===== *)
theory Nori_Notices
  imports Nori_Types
begin

text \<open>
  The notices of the bridge head (\<open>nori/src/bridge_head/notice_messages.rs\<close>): the seven extensions, the
  messages the \<open>define_message!\<close> macro makes of them, \<open>into_message\<close>, and the hand-written marshalling that
  writes a notice as the bare message and reads it back by its \<open>message_type\<close>.

  JSON values are \<open>serde_json::Value\<close>. What \<open>#[derive(Serialize, Deserialize)]\<close> generates is written out
  field by field: an object with the fields in order, fields marked \<open>skip_serializing\<close> left out; reading
  takes each field by name, ignores others, and a missing field is an error unless it is an \<open>Option\<close>
  (the positional form of arrays, which serde also reads, is not modelled). The
  encodings of hashes, addresses, floats, verified requests and proof windows belong to other crates and
  are the codec argument; the text form of JSON is not modelled. \<open>'w\<close> is the type of
  proof windows, \<open>'r\<close> that of \<open>f64\<close>.
\<close>

section \<open>Messages\<close>

datatype notice_type =
    BridgeHeadStarted
  | BridgeHeadWarning
  | BridgeHeadJobCreated
  | BridgeHeadJobSucceeded
  | BridgeHeadJobFailed
  | BridgeHeadFinalityTransitionDetected
  | BridgeHeadAdvanced

record ext_started =
  es_latest_beacon_slot :: u64
  es_current_slot :: u64
  es_store_hash :: b256
  es_queue_cursor :: u64

record ext_warning =
  ew_message :: string

record ext_job_created =
  ec_job_id :: u64
  ec_input_slot :: u64
  ec_input_block_number :: u64
  ec_input_store_hash :: b256
  ec_input_queue_cursor :: u64
  ec_expected_output_slot :: u64
  ec_expected_output_block_number :: u64
  ec_expected_output_queue_cursor :: u64

record 'r ext_job_succeeded =
  ej_job_id :: u64
  ej_input_slot :: u64
  ej_input_block_number :: u64
  ej_input_store_hash :: b256
  ej_input_queue_cursor :: u64
  ej_output_slot :: u64
  ej_output_block_number :: u64
  ej_output_store_hash :: b256
  ej_output_queue_cursor :: u64
  ej_execution_state_root :: b256
  ej_verified_requests_root :: b256
  ej_next_sync_committee_hash :: b256
  ej_proof_request_queue_address :: address
  ej_verified_requests :: "verified_request list"
  ej_elapsed_sec :: 'r

record 'r ext_job_failed =
  ef_job_id :: u64
  ef_input_slot :: u64
  ef_input_block_number :: u64
  ef_input_store_hash :: b256
  ef_input_queue_cursor :: u64
  ef_expected_output_slot :: u64
  ef_expected_output_block_number :: u64
  ef_expected_output_queue_cursor :: u64
  ef_error :: string
  ef_elapsed_sec :: 'r
  ef_n_job_in_buffer :: u64

record 'w ext_finality_detected =
  et_block_number :: u64
  et_slot :: u64
  et_input_slot :: u64
  et_current_window_proof_inputs_with_window :: 'w
  et_next_window_proof_inputs_with_window :: "'w option"

record ext_advanced =
  ea_slot :: u64
  ea_store_hash :: b256
  ea_queue_cursor :: u64

datatype ('w, 'r) notice_extension =
    ExtStarted ext_started
  | ExtWarning ext_warning
  | ExtJobCreated ext_job_created
  | ExtJobSucceeded "'r ext_job_succeeded"
  | ExtJobFailed "'r ext_job_failed"
  | ExtFinalityTransitionDetected "'w ext_finality_detected"
  | ExtHeadAdvanced ext_advanced

text \<open>The struct the macro defines for each extension type.\<close>

record 'e message =
  datetime_iso :: string
  extension :: 'e
  message_type :: notice_type

definition message_new :: "notice_type \<Rightarrow> string \<Rightarrow> 'e \<Rightarrow> 'e message" where
  "message_new ty stamp ext = \<lparr>datetime_iso = stamp, extension = ext, message_type = ty\<rparr>"

datatype ('w, 'r) notice =
    Started "ext_started message"
  | Warning "ext_warning message"
  | JobCreated "ext_job_created message"
  | JobSucceeded "'r ext_job_succeeded message"
  | JobFailed "'r ext_job_failed message"
  | FinalityTransitionDetected "'w ext_finality_detected message"
  | HeadAdvanced "ext_advanced message"

fun into_message :: "('w, 'r) notice_extension \<Rightarrow> string \<Rightarrow> ('w, 'r) notice" where
  "into_message (ExtStarted ext) stamp = Started (message_new BridgeHeadStarted stamp ext)"
| "into_message (ExtWarning ext) stamp = Warning (message_new BridgeHeadWarning stamp ext)"
| "into_message (ExtJobCreated ext) stamp = JobCreated (message_new BridgeHeadJobCreated stamp ext)"
| "into_message (ExtJobSucceeded ext) stamp = JobSucceeded (message_new BridgeHeadJobSucceeded stamp ext)"
| "into_message (ExtJobFailed ext) stamp = JobFailed (message_new BridgeHeadJobFailed stamp ext)"
| "into_message (ExtFinalityTransitionDetected ext) stamp =
     FinalityTransitionDetected (message_new BridgeHeadFinalityTransitionDetected stamp ext)"
| "into_message (ExtHeadAdvanced ext) stamp = HeadAdvanced (message_new BridgeHeadAdvanced stamp ext)"

section \<open>Derived marshalling\<close>

datatype 'r json =
    JNull
  | JNumber nat
  | JFloat 'r
  | JString string
  | JArray "'r json list"
  | JObject "(string \<times> 'r json) list"

record ('w, 'r) codec =
  enc_b256 :: "b256 \<Rightarrow> 'r json"
  dec_b256 :: "'r json \<Rightarrow> string + b256"
  enc_address :: "address \<Rightarrow> 'r json"
  dec_address :: "'r json \<Rightarrow> string + address"
  enc_requests :: "verified_request list \<Rightarrow> 'r json"
  dec_requests :: "'r json \<Rightarrow> string + verified_request list"
  enc_f64 :: "'r \<Rightarrow> 'r json"
  dec_f64 :: "'r json \<Rightarrow> string + 'r"
  dec_window :: "'r json \<Rightarrow> string + 'w"

definition enc_u64 :: "u64 \<Rightarrow> 'r json" where
  "enc_u64 n = JNumber (unat n)"

fun dec_u64 :: "'r json \<Rightarrow> string + u64" where
  "dec_u64 (JNumber n) = (if n < 2 ^ 64 then Inr (of_nat n) else Inl ''invalid value'')"
| "dec_u64 _ = Inl ''invalid type''"

fun dec_string :: "'r json \<Rightarrow> string + string" where
  "dec_string (JString s) = Inr s"
| "dec_string _ = Inl ''invalid type''"

definition notice_type_names :: "(notice_type \<times> string) list" where
  "notice_type_names = [(BridgeHeadStarted, ''BridgeHeadStarted''), (BridgeHeadWarning, ''BridgeHeadWarning''),
     (BridgeHeadJobCreated, ''BridgeHeadJobCreated''), (BridgeHeadJobSucceeded, ''BridgeHeadJobSucceeded''),
     (BridgeHeadJobFailed, ''BridgeHeadJobFailed''),
     (BridgeHeadFinalityTransitionDetected, ''BridgeHeadFinalityTransitionDetected''),
     (BridgeHeadAdvanced, ''BridgeHeadAdvanced'')]"

definition enc_notice_type :: "notice_type \<Rightarrow> 'r json" where
  "enc_notice_type ty = (case map_of notice_type_names ty of Some s \<Rightarrow> JString s | None \<Rightarrow> JNull)"

fun dec_notice_type :: "'r json \<Rightarrow> string + notice_type" where
  "dec_notice_type (JString s) =
     ok_or ''unknown variant'' (map_of (map prod.swap notice_type_names) s)"
| "dec_notice_type _ = Inl ''invalid type''"

definition field :: "string \<Rightarrow> ('r json \<Rightarrow> string + 'a) \<Rightarrow> (string \<times> 'r json) list \<Rightarrow> string + 'a" where
  "field name dec obj = (case map_of obj name of None \<Rightarrow> Inl (''missing field '' @ name) | Some v \<Rightarrow> dec v)"

definition opt_field ::
    "string \<Rightarrow> ('r json \<Rightarrow> string + 'a) \<Rightarrow> (string \<times> 'r json) list \<Rightarrow> string + 'a option" where
  "opt_field name dec obj = (case map_of obj name of
     None \<Rightarrow> Inr None
   | Some JNull \<Rightarrow> Inr None
   | Some v \<Rightarrow> map_res Some (dec v))"

fun as_object :: "'r json \<Rightarrow> string + (string \<times> 'r json) list" where
  "as_object (JObject obj) = Inr obj"
| "as_object _ = Inl ''invalid type''"

text \<open>The derived impls of the extensions.\<close>

definition enc_started :: "('w, 'r) codec \<Rightarrow> ext_started \<Rightarrow> 'r json" where
  "enc_started K e = JObject [
     (''latest_beacon_slot'', enc_u64 (es_latest_beacon_slot e)),
     (''current_slot'', enc_u64 (es_current_slot e)),
     (''store_hash'', enc_b256 K (es_store_hash e)),
     (''queue_cursor'', enc_u64 (es_queue_cursor e))]"

definition dec_started :: "('w, 'r) codec \<Rightarrow> 'r json \<Rightarrow> string + ext_started" where
  "dec_started K j =
     bind_res (as_object j) (\<lambda>obj.
     bind_res (field ''latest_beacon_slot'' dec_u64 obj) (\<lambda>latest_beacon_slot.
     bind_res (field ''current_slot'' dec_u64 obj) (\<lambda>current_slot.
     bind_res (field ''store_hash'' (dec_b256 K) obj) (\<lambda>store_hash.
     bind_res (field ''queue_cursor'' dec_u64 obj) (\<lambda>queue_cursor.
     Inr \<lparr>es_latest_beacon_slot = latest_beacon_slot, es_current_slot = current_slot,
       es_store_hash = store_hash, es_queue_cursor = queue_cursor\<rparr>)))))"

definition enc_warning :: "('w, 'r) codec \<Rightarrow> ext_warning \<Rightarrow> 'r json" where
  "enc_warning K e = JObject [
     (''message'', JString (ew_message e))]"

definition dec_warning :: "('w, 'r) codec \<Rightarrow> 'r json \<Rightarrow> string + ext_warning" where
  "dec_warning K j =
     bind_res (as_object j) (\<lambda>obj.
     bind_res (field ''message'' dec_string obj) (\<lambda>message.
     Inr \<lparr>ew_message = message\<rparr>))"

definition enc_job_created :: "('w, 'r) codec \<Rightarrow> ext_job_created \<Rightarrow> 'r json" where
  "enc_job_created K e = JObject [
     (''job_id'', enc_u64 (ec_job_id e)),
     (''input_slot'', enc_u64 (ec_input_slot e)),
     (''input_block_number'', enc_u64 (ec_input_block_number e)),
     (''input_store_hash'', enc_b256 K (ec_input_store_hash e)),
     (''input_queue_cursor'', enc_u64 (ec_input_queue_cursor e)),
     (''expected_output_slot'', enc_u64 (ec_expected_output_slot e)),
     (''expected_output_block_number'', enc_u64 (ec_expected_output_block_number e)),
     (''expected_output_queue_cursor'', enc_u64 (ec_expected_output_queue_cursor e))]"

definition dec_job_created :: "('w, 'r) codec \<Rightarrow> 'r json \<Rightarrow> string + ext_job_created" where
  "dec_job_created K j =
     bind_res (as_object j) (\<lambda>obj.
     bind_res (field ''job_id'' dec_u64 obj) (\<lambda>job_id.
     bind_res (field ''input_slot'' dec_u64 obj) (\<lambda>input_slot.
     bind_res (field ''input_block_number'' dec_u64 obj) (\<lambda>input_block_number.
     bind_res (field ''input_store_hash'' (dec_b256 K) obj) (\<lambda>input_store_hash.
     bind_res (field ''input_queue_cursor'' dec_u64 obj) (\<lambda>input_queue_cursor.
     bind_res (field ''expected_output_slot'' dec_u64 obj) (\<lambda>expected_output_slot.
     bind_res (field ''expected_output_block_number'' dec_u64 obj) (\<lambda>expected_output_block_number.
     bind_res (field ''expected_output_queue_cursor'' dec_u64 obj) (\<lambda>expected_output_queue_cursor.
     Inr \<lparr>ec_job_id = job_id, ec_input_slot = input_slot, ec_input_block_number = input_block_number,
       ec_input_store_hash = input_store_hash, ec_input_queue_cursor = input_queue_cursor,
       ec_expected_output_slot = expected_output_slot,
       ec_expected_output_block_number = expected_output_block_number,
       ec_expected_output_queue_cursor = expected_output_queue_cursor\<rparr>)))))))))"

definition enc_job_succeeded :: "('w, 'r) codec \<Rightarrow> 'r ext_job_succeeded \<Rightarrow> 'r json" where
  "enc_job_succeeded K e = JObject [
     (''job_id'', enc_u64 (ej_job_id e)),
     (''input_slot'', enc_u64 (ej_input_slot e)),
     (''input_block_number'', enc_u64 (ej_input_block_number e)),
     (''input_store_hash'', enc_b256 K (ej_input_store_hash e)),
     (''input_queue_cursor'', enc_u64 (ej_input_queue_cursor e)),
     (''output_slot'', enc_u64 (ej_output_slot e)),
     (''output_block_number'', enc_u64 (ej_output_block_number e)),
     (''output_store_hash'', enc_b256 K (ej_output_store_hash e)),
     (''output_queue_cursor'', enc_u64 (ej_output_queue_cursor e)),
     (''execution_state_root'', enc_b256 K (ej_execution_state_root e)),
     (''verified_requests_root'', enc_b256 K (ej_verified_requests_root e)),
     (''next_sync_committee_hash'', enc_b256 K (ej_next_sync_committee_hash e)),
     (''proof_request_queue_address'', enc_address K (ej_proof_request_queue_address e)),
     (''verified_requests'', enc_requests K (ej_verified_requests e)),
     (''elapsed_sec'', enc_f64 K (ej_elapsed_sec e))]"

definition dec_job_succeeded :: "('w,
       'r) codec \<Rightarrow> 'r json \<Rightarrow> string + 'r ext_job_succeeded" where
  "dec_job_succeeded K j =
     bind_res (as_object j) (\<lambda>obj.
     bind_res (field ''job_id'' dec_u64 obj) (\<lambda>job_id.
     bind_res (field ''input_slot'' dec_u64 obj) (\<lambda>input_slot.
     bind_res (field ''input_block_number'' dec_u64 obj) (\<lambda>input_block_number.
     bind_res (field ''input_store_hash'' (dec_b256 K) obj) (\<lambda>input_store_hash.
     bind_res (field ''input_queue_cursor'' dec_u64 obj) (\<lambda>input_queue_cursor.
     bind_res (field ''output_slot'' dec_u64 obj) (\<lambda>output_slot.
     bind_res (field ''output_block_number'' dec_u64 obj) (\<lambda>output_block_number.
     bind_res (field ''output_store_hash'' (dec_b256 K) obj) (\<lambda>output_store_hash.
     bind_res (field ''output_queue_cursor'' dec_u64 obj) (\<lambda>output_queue_cursor.
     bind_res (field ''execution_state_root'' (dec_b256 K) obj) (\<lambda>execution_state_root.
     bind_res (field ''verified_requests_root'' (dec_b256 K) obj) (\<lambda>verified_requests_root.
     bind_res (field ''next_sync_committee_hash'' (dec_b256 K) obj) (\<lambda>next_sync_committee_hash.
     bind_res (field ''proof_request_queue_address'' (dec_address K) obj) (\<lambda>proof_request_queue_address.
     bind_res (field ''verified_requests'' (dec_requests K) obj) (\<lambda>verified_requests.
     bind_res (field ''elapsed_sec'' (dec_f64 K) obj) (\<lambda>elapsed_sec.
     Inr \<lparr>ej_job_id = job_id, ej_input_slot = input_slot, ej_input_block_number = input_block_number,
       ej_input_store_hash = input_store_hash, ej_input_queue_cursor = input_queue_cursor,
       ej_output_slot = output_slot, ej_output_block_number = output_block_number,
       ej_output_store_hash = output_store_hash, ej_output_queue_cursor = output_queue_cursor,
       ej_execution_state_root = execution_state_root, ej_verified_requests_root = verified_requests_root,
       ej_next_sync_committee_hash = next_sync_committee_hash,
       ej_proof_request_queue_address = proof_request_queue_address, ej_verified_requests = verified_requests,
       ej_elapsed_sec = elapsed_sec\<rparr>))))))))))))))))"

definition enc_job_failed :: "('w, 'r) codec \<Rightarrow> 'r ext_job_failed \<Rightarrow> 'r json" where
  "enc_job_failed K e = JObject [
     (''job_id'', enc_u64 (ef_job_id e)),
     (''input_slot'', enc_u64 (ef_input_slot e)),
     (''input_block_number'', enc_u64 (ef_input_block_number e)),
     (''input_store_hash'', enc_b256 K (ef_input_store_hash e)),
     (''input_queue_cursor'', enc_u64 (ef_input_queue_cursor e)),
     (''expected_output_slot'', enc_u64 (ef_expected_output_slot e)),
     (''expected_output_block_number'', enc_u64 (ef_expected_output_block_number e)),
     (''expected_output_queue_cursor'', enc_u64 (ef_expected_output_queue_cursor e)),
     (''error'', JString (ef_error e)),
     (''elapsed_sec'', enc_f64 K (ef_elapsed_sec e)),
     (''n_job_in_buffer'', enc_u64 (ef_n_job_in_buffer e))]"

definition dec_job_failed :: "('w, 'r) codec \<Rightarrow> 'r json \<Rightarrow> string + 'r ext_job_failed" where
  "dec_job_failed K j =
     bind_res (as_object j) (\<lambda>obj.
     bind_res (field ''job_id'' dec_u64 obj) (\<lambda>job_id.
     bind_res (field ''input_slot'' dec_u64 obj) (\<lambda>input_slot.
     bind_res (field ''input_block_number'' dec_u64 obj) (\<lambda>input_block_number.
     bind_res (field ''input_store_hash'' (dec_b256 K) obj) (\<lambda>input_store_hash.
     bind_res (field ''input_queue_cursor'' dec_u64 obj) (\<lambda>input_queue_cursor.
     bind_res (field ''expected_output_slot'' dec_u64 obj) (\<lambda>expected_output_slot.
     bind_res (field ''expected_output_block_number'' dec_u64 obj) (\<lambda>expected_output_block_number.
     bind_res (field ''expected_output_queue_cursor'' dec_u64 obj) (\<lambda>expected_output_queue_cursor.
     bind_res (field ''error'' dec_string obj) (\<lambda>error.
     bind_res (field ''elapsed_sec'' (dec_f64 K) obj) (\<lambda>elapsed_sec.
     bind_res (field ''n_job_in_buffer'' dec_u64 obj) (\<lambda>n_job_in_buffer.
     Inr \<lparr>ef_job_id = job_id, ef_input_slot = input_slot, ef_input_block_number = input_block_number,
       ef_input_store_hash = input_store_hash, ef_input_queue_cursor = input_queue_cursor,
       ef_expected_output_slot = expected_output_slot,
       ef_expected_output_block_number = expected_output_block_number,
       ef_expected_output_queue_cursor = expected_output_queue_cursor, ef_error = error,
       ef_elapsed_sec = elapsed_sec, ef_n_job_in_buffer = n_job_in_buffer\<rparr>))))))))))))"

definition enc_finality_detected :: "('w,
       'r) codec \<Rightarrow> 'w ext_finality_detected \<Rightarrow> 'r json" where
  "enc_finality_detected K e = JObject [
     (''block_number'', enc_u64 (et_block_number e)),
     (''slot'', enc_u64 (et_slot e))]"

definition dec_finality_detected ::
    "('w, 'r) codec \<Rightarrow> 'r json \<Rightarrow> string + 'w ext_finality_detected" where
  "dec_finality_detected K j =
     bind_res (as_object j) (\<lambda>obj.
     bind_res (field ''block_number'' dec_u64 obj) (\<lambda>block_number.
     bind_res (field ''slot'' dec_u64 obj) (\<lambda>slot.
     bind_res (field ''input_slot'' dec_u64 obj) (\<lambda>input_slot.
     bind_res (field ''current_window_proof_inputs_with_window'' (dec_window K) obj) (\<lambda>current_window_proof_inputs_with_window.
     bind_res (opt_field ''next_window_proof_inputs_with_window'' (dec_window K) obj) (\<lambda>next_window_proof_inputs_with_window.
     Inr \<lparr>et_block_number = block_number, et_slot = slot, et_input_slot = input_slot,
       et_current_window_proof_inputs_with_window = current_window_proof_inputs_with_window,
       et_next_window_proof_inputs_with_window = next_window_proof_inputs_with_window\<rparr>))))))"

definition enc_advanced :: "('w, 'r) codec \<Rightarrow> ext_advanced \<Rightarrow> 'r json" where
  "enc_advanced K e = JObject [
     (''slot'', enc_u64 (ea_slot e)),
     (''store_hash'', enc_b256 K (ea_store_hash e)),
     (''queue_cursor'', enc_u64 (ea_queue_cursor e))]"

definition dec_advanced :: "('w, 'r) codec \<Rightarrow> 'r json \<Rightarrow> string + ext_advanced" where
  "dec_advanced K j =
     bind_res (as_object j) (\<lambda>obj.
     bind_res (field ''slot'' dec_u64 obj) (\<lambda>slot.
     bind_res (field ''store_hash'' (dec_b256 K) obj) (\<lambda>store_hash.
     bind_res (field ''queue_cursor'' dec_u64 obj) (\<lambda>queue_cursor.
     Inr \<lparr>ea_slot = slot, ea_store_hash = store_hash, ea_queue_cursor = queue_cursor\<rparr>))))"

definition enc_message :: "('e \<Rightarrow> 'r json) \<Rightarrow> 'e message \<Rightarrow> 'r json" where
  "enc_message enc m = JObject [(''datetime_iso'', JString (datetime_iso m)), (''extension'', enc (extension m)),
     (''message_type'', enc_notice_type (message_type m))]"

definition dec_message :: "('r json \<Rightarrow> string + 'e) \<Rightarrow> 'r json \<Rightarrow> string + 'e message" where
  "dec_message dec j =
     bind_res (as_object j) (\<lambda>obj.
     bind_res (field ''datetime_iso'' dec_string obj) (\<lambda>stamp.
     bind_res (field ''extension'' dec obj) (\<lambda>ext.
     bind_res (field ''message_type'' dec_notice_type obj) (\<lambda>ty.
     Inr \<lparr>datetime_iso = stamp, extension = ext, message_type = ty\<rparr>))))"

section \<open>Marshalling of notices\<close>

fun serialize_notice :: "('w, 'r) codec \<Rightarrow> ('w, 'r) notice \<Rightarrow> 'r json" where
  "serialize_notice K (Started msg) = enc_message (enc_started K) msg"
| "serialize_notice K (Warning msg) = enc_message (enc_warning K) msg"
| "serialize_notice K (JobCreated msg) = enc_message (enc_job_created K) msg"
| "serialize_notice K (JobSucceeded msg) = enc_message (enc_job_succeeded K) msg"
| "serialize_notice K (JobFailed msg) = enc_message (enc_job_failed K) msg"
| "serialize_notice K (FinalityTransitionDetected msg) = enc_message (enc_finality_detected K) msg"
| "serialize_notice K (HeadAdvanced msg) = enc_message (enc_advanced K) msg"

text \<open>The helper struct takes \<open>message_type\<close> out of the object and flattens the rest.\<close>

definition read_helper :: "'r json \<Rightarrow> string + notice_type \<times> (string \<times> 'r json) list" where
  "read_helper j =
     bind_res (as_object j) (\<lambda>obj.
     bind_res (field ''message_type'' dec_notice_type obj) (\<lambda>ty.
     Inr (ty, filter (\<lambda>(name, _). name \<noteq> ''message_type'') obj)))"

definition deserialize_notice :: "('w, 'r) codec \<Rightarrow> 'r json \<Rightarrow> string + ('w, 'r) notice" where
  "deserialize_notice K j =
     bind_res (read_helper j) (\<lambda>(ty, other).
     let other = other @ [(''message_type'', enc_notice_type ty)];
         json_value = JObject other in
     case ty of
       BridgeHeadStarted \<Rightarrow> map_res Started (dec_message (dec_started K) json_value)
     | BridgeHeadWarning \<Rightarrow> map_res Warning (dec_message (dec_warning K) json_value)
     | BridgeHeadJobCreated \<Rightarrow> map_res JobCreated (dec_message (dec_job_created K) json_value)
     | BridgeHeadJobSucceeded \<Rightarrow> map_res JobSucceeded (dec_message (dec_job_succeeded K) json_value)
     | BridgeHeadJobFailed \<Rightarrow> map_res JobFailed (dec_message (dec_job_failed K) json_value)
     | BridgeHeadFinalityTransitionDetected \<Rightarrow>
         map_res FinalityTransitionDetected (dec_message (dec_finality_detected K) json_value)
     | BridgeHeadAdvanced \<Rightarrow> map_res HeadAdvanced (dec_message (dec_advanced K) json_value))"

section \<open>Round trips\<close>

text \<open>What the codec promises: values other than non-finite floats (\<open>F\<close> are the finite ones) are read back.\<close>

definition codec_laws :: "('w, 'r) codec \<Rightarrow> 'r set \<Rightarrow> bool" where
  "codec_laws K F \<longleftrightarrow>
     (\<forall>x. dec_b256 K (enc_b256 K x) = Inr x) \<and> (\<forall>x. dec_address K (enc_address K x) = Inr x) \<and>
     (\<forall>x. dec_requests K (enc_requests K x) = Inr x) \<and> (\<forall>x \<in> F. dec_f64 K (enc_f64 K x) = Inr x)"

lemma dec_enc_u64 [simp, codec_simps]: "dec_u64 (enc_u64 n) = Inr n"
  using unsigned_less[of n, where 'a = nat] by (simp add: enc_u64_def)

lemma dec_enc_notice_type [simp, codec_simps]: "dec_notice_type (enc_notice_type ty) = Inr ty"
  by (cases ty) (simp_all add: enc_notice_type_def notice_type_names_def ok_or_def)

lemma field_simps_json [codec_simps]:
  "field name dec ((name, v) # obj) = dec v"
  "name \<noteq> name' \<Longrightarrow> field name dec ((name', v) # obj) = field name dec obj"
  "field name dec [] = Inl (''missing field '' @ name)"
  by (simp_all add: field_def)

locale extension_codec =
  fixes enc :: "'e \<Rightarrow> 'r json" and dec :: "'r json \<Rightarrow> string + 'e" and valid :: "'e \<Rightarrow> bool"
  assumes dec_enc: "valid e \<Longrightarrow> dec (enc e) = Inr e"
begin

text \<open>Taking the type out of a message and putting it back at the end does not change what is read.\<close>

lemma message_reread:
  assumes "valid (extension m)"
  shows "\<exists>other. read_helper (enc_message enc m) = Inr (message_type m, other) \<and>
    dec_message dec (JObject (other @ [(''message_type'', enc_notice_type (message_type m))])) = Inr m"
  using dec_enc[OF assms]
  by (simp add: read_helper_def enc_message_def dec_message_def codec_simps)

end

interpretation started_codec: extension_codec "enc_started K" "dec_started K" "\<lambda>_. codec_laws K F" for K F
  by unfold_locales (simp add: enc_started_def dec_started_def codec_simps codec_laws_def)

interpretation warning_codec: extension_codec "enc_warning K" "dec_warning K" "\<lambda>_. codec_laws K F" for K F
  by unfold_locales (simp add: enc_warning_def dec_warning_def codec_simps)

interpretation job_created_codec: extension_codec "enc_job_created K" "dec_job_created K" "\<lambda>_. codec_laws K F" for K F
  by unfold_locales (simp add: enc_job_created_def dec_job_created_def codec_simps codec_laws_def)

interpretation job_succeeded_codec: extension_codec "enc_job_succeeded K" "dec_job_succeeded K"
    "\<lambda>e. codec_laws K F \<and> ej_elapsed_sec e \<in> F" for K F
  by unfold_locales (simp add: enc_job_succeeded_def dec_job_succeeded_def codec_simps codec_laws_def)

interpretation job_failed_codec: extension_codec "enc_job_failed K" "dec_job_failed K"
    "\<lambda>e. codec_laws K F \<and> ef_elapsed_sec e \<in> F" for K F
  by unfold_locales (simp add: enc_job_failed_def dec_job_failed_def codec_simps codec_laws_def)

interpretation advanced_codec: extension_codec "enc_advanced K" "dec_advanced K" "\<lambda>_. codec_laws K F" for K F
  by unfold_locales (simp add: enc_advanced_def dec_advanced_def codec_simps codec_laws_def)

definition elapsed_in :: "'r set \<Rightarrow> ('w, 'r) notice_extension \<Rightarrow> bool" where
  "elapsed_in F ext = (case ext of
     ExtJobSucceeded e \<Rightarrow> ej_elapsed_sec e \<in> F
   | ExtJobFailed e \<Rightarrow> ef_elapsed_sec e \<in> F
   | _ \<Rightarrow> True)"

definition is_finality :: "('w, 'r) notice_extension \<Rightarrow> bool" where
  "is_finality ext = (case ext of ExtFinalityTransitionDetected _ \<Rightarrow> True | _ \<Rightarrow> False)"

lemma finality_unreadable:
  "deserialize_notice K (serialize_notice K (FinalityTransitionDetected (message_new BridgeHeadFinalityTransitionDetected stamp e))) =
     Inl ''missing field input_slot''"
  by (simp add: deserialize_notice_def read_helper_def enc_message_def dec_message_def message_new_def
      enc_finality_detected_def dec_finality_detected_def map_res_def codec_simps)

section \<open>A concrete instance\<close>

text \<open>A codec that writes hashes and addresses as numbers and a request as the list of its fields.\<close>

definition sample_enc_request :: "verified_request \<Rightarrow> nat json" where
  "sample_enc_request r = JArray [JNumber (unat (vr_target r)), JNumber (unat (vr_collection_keys_count r)),
     JNumber (unat (fst (vr_collection_keys r))), JNumber (unat (snd (vr_collection_keys r))),
     JNumber (unat (vr_value r))]"

fun sample_dec_request :: "nat json \<Rightarrow> string + verified_request" where
  "sample_dec_request (JArray [JNumber t, JNumber n, JNumber k0, JNumber k1, JNumber v]) =
     Inr \<lparr>vr_target = of_nat t, vr_collection_keys_count = of_nat n, vr_collection_keys = (of_nat k0, of_nat k1),
          vr_value = of_nat v\<rparr>"
| "sample_dec_request _ = Inl ''invalid type''"

definition sample_codec :: "(unit, nat) codec" where
  "sample_codec = \<lparr>
     enc_b256 = (\<lambda>x. JNumber (unat x)),
     dec_b256 = (\<lambda>j. case j of JNumber n \<Rightarrow> Inr (of_nat n) | _ \<Rightarrow> Inl ''invalid type''),
     enc_address = (\<lambda>x. JNumber (unat x)),
     dec_address = (\<lambda>j. case j of JNumber n \<Rightarrow> Inr (of_nat n) | _ \<Rightarrow> Inl ''invalid type''),
     enc_requests = (\<lambda>rs. JArray (map sample_enc_request rs)),
     dec_requests = (\<lambda>j. case j of JArray js \<Rightarrow> traverse_res sample_dec_request js | _ \<Rightarrow> Inl ''invalid type''),
     enc_f64 = JFloat,
     dec_f64 = (\<lambda>j. case j of JFloat x \<Rightarrow> Inr x | _ \<Rightarrow> Inl ''invalid type''),
     dec_window = (\<lambda>_. Inl ''invalid type'')\<rparr>"

lemma sample_request_codec: "sample_dec_request (sample_enc_request r) = Inr r"
  by (simp add: sample_enc_request_def)

lemma sample_requests_codec: "traverse_res sample_dec_request (map sample_enc_request rs) = Inr rs"
  by (induction rs) (simp_all add: sample_request_codec)

lemma sample_codec_laws: "codec_laws sample_codec UNIV"
  by (simp add: codec_laws_def sample_codec_def sample_requests_codec)

definition sample_succeeded :: "nat ext_job_succeeded" where
  "sample_succeeded = \<lparr>ej_job_id = 1, ej_input_slot = 64, ej_input_block_number = 164, ej_input_store_hash = 5,
     ej_input_queue_cursor = 0, ej_output_slot = 96, ej_output_block_number = 196, ej_output_store_hash = 6,
     ej_output_queue_cursor = 1, ej_execution_state_root = 1, ej_verified_requests_root = 2,
     ej_next_sync_committee_hash = 6, ej_proof_request_queue_address = 7,
     ej_verified_requests = [\<lparr>vr_target = 9, vr_collection_keys_count = 1, vr_collection_keys = (3, 0), vr_value = 4\<rparr>],
     ej_elapsed_sec = 12\<rparr>"

section \<open>Properties\<close>

text \<open>C32: Notices survive the wire, except one kind. Writing the message of an extension and reading it back by its
  type gives the same message, for every kind of notice but \<open>FinalityTransitionDetected\<close>; that one leaves
  out fields its reader requires, so reading it back always fails with the missing \<open>input_slot\<close>.\<close>

theorem notice_round_trip:
  assumes "codec_laws K F" and "elapsed_in F ext"
  shows "deserialize_notice K (serialize_notice K (into_message ext stamp)) =
    (if is_finality ext then Inl ''missing field input_slot'' else Inr (into_message ext stamp))"
proof (cases ext)
  case (ExtStarted e)
  with started_codec.message_reread[of K F "message_new BridgeHeadStarted stamp e"] assms show ?thesis
    by (auto simp: deserialize_notice_def map_res_def is_finality_def message_new_def)
next
  case (ExtWarning e)
  with warning_codec.message_reread[of K F "message_new BridgeHeadWarning stamp e"] assms show ?thesis
    by (auto simp: deserialize_notice_def map_res_def is_finality_def message_new_def)
next
  case (ExtJobCreated e)
  with job_created_codec.message_reread[of K F "message_new BridgeHeadJobCreated stamp e"] assms show ?thesis
    by (auto simp: deserialize_notice_def map_res_def is_finality_def message_new_def)
next
  case (ExtJobSucceeded e)
  with job_succeeded_codec.message_reread[of K F "message_new BridgeHeadJobSucceeded stamp e"] assms show ?thesis
    by (auto simp: deserialize_notice_def map_res_def is_finality_def message_new_def elapsed_in_def)
next
  case (ExtJobFailed e)
  with job_failed_codec.message_reread[of K F "message_new BridgeHeadJobFailed stamp e"] assms show ?thesis
    by (auto simp: deserialize_notice_def map_res_def is_finality_def message_new_def elapsed_in_def)
next
  case (ExtFinalityTransitionDetected e)
  then show ?thesis using finality_unreadable[of K stamp e] by (simp add: is_finality_def)
next
  case (ExtHeadAdvanced e)
  with advanced_codec.message_reread[of K F "message_new BridgeHeadAdvanced stamp e"] assms show ?thesis
    by (auto simp: deserialize_notice_def map_res_def is_finality_def message_new_def)
qed

theorem notice_round_trip_witness:
  "deserialize_notice sample_codec (serialize_notice sample_codec
     (into_message (ExtJobSucceeded sample_succeeded) ''2025-01-01T00:00:00.000Z'')) =
   Inr (into_message (ExtJobSucceeded sample_succeeded) ''2025-01-01T00:00:00.000Z'')"
  using notice_round_trip[OF sample_codec_laws, of "ExtJobSucceeded sample_succeeded" "''2025-01-01T00:00:00.000Z''"]
  by (simp add: elapsed_in_def is_finality_def)

end
