(* ===== verification/Nori_Mpt.thy ===== *)
theory Nori_Mpt
  imports Nori_Request_Leaf
begin

text \<open>
  \<open>nori-program/src/mpt.rs\<close>: the guest's verification of one batch of the proof request queue
  against an execution state root. The trie verifier, the RLP encoders and Keccak (packages
  alloy-trie, alloy-rlp, alloy-primitives) are fields of \<open>guest_env\<close>, as are the field and the sponge
  and the bytes of \<open>merkle-zeros.dat\<close>.

  The abstract specification reads the queue from the contents of the tries alone
  (\<open>holds_word\<close>, \<open>holds_account\<close>, \<open>request_at\<close>, \<open>slot_reads\<close>, \<open>queue_outcome\<close>): it mentions
  no witness. The refinement theorem shows that whatever \<open>verify_queue\<close> accepts is an outcome
  of the specification, and the specification is deterministic, so the prover chooses nothing.
\<close>

section \<open>Parameters\<close>

record ('f, 's) guest_env =
  env_keccak256 :: keccak
  env_nibbles_unpack :: "b256 \<Rightarrow> bytes"
  env_rlp_u256 :: "u256 \<Rightarrow> bytes"
  env_rlp_account :: "trie_account \<Rightarrow> bytes"
  env_verify_proof :: "b256 \<Rightarrow> bytes \<Rightarrow> bytes option \<Rightarrow> bytes list \<Rightarrow> string + unit"
  env_EMPTY_ROOT_HASH :: b256
  env_mina :: "('f, 's) mina"
  env_merkle_zeros_dat :: bytes

section \<open>Errors\<close>

datatype proven_account = ProofRequestQueue | Target

datatype mpt_error =
    InvalidProofRequestQueueAccountProof address string
  | InvalidTargetAccountProof address string
  | InvalidStorageSlotProof b256 string
  | LeafHashError address b256 u256 string
  | ExceedsMaxTreeDepth nat nat nat
  | CursorAheadOfHead u64 u64
  | BatchSizeMismatch u64 nat
  | MissingTargetWitness address
  | MissingSlotWitness address b256

section \<open>Storage words and accounts\<close>

definition storage_path :: "('f, 's) guest_env \<Rightarrow> b256 \<Rightarrow> bytes" where
  "storage_path E key = env_nibbles_unpack E (env_keccak256 E (to_be_bytes 32 key))"

definition account_path :: "('f, 's) guest_env \<Rightarrow> address \<Rightarrow> bytes" where
  "account_path E addr = env_nibbles_unpack E (env_keccak256 E (to_be_bytes 20 addr))"

definition verify_storage_word ::
    "('f, 's) guest_env \<Rightarrow> b256 \<Rightarrow> b256 \<Rightarrow> u256 \<Rightarrow> bytes list \<Rightarrow> mpt_error fault + unit" where
  "verify_storage_word E storage_root key val prf =
     (let key_nibbles = storage_path E key;
          expected_value = (if val = 0 then None else Some (env_rlp_u256 E val))
      in map_err (\<lambda>e. Failed (InvalidStorageSlotProof key e))
           (env_verify_proof E storage_root key_nibbles expected_value prf))"

definition verify_account ::
    "('f, 's) guest_env \<Rightarrow> b256 \<Rightarrow> proven_account \<Rightarrow> address \<Rightarrow> trie_account option \<Rightarrow> bytes list
      \<Rightarrow> mpt_error fault + b256" where
  "verify_account E execution_state_root proven_account addr acct prf =
     (let address_nibbles = account_path E addr;
          expected_value = map_option (env_rlp_account E) acct
      in bind_res
           (map_err (\<lambda>e. case proven_account of
                ProofRequestQueue \<Rightarrow> Failed (InvalidProofRequestQueueAccountProof addr e)
              | Target \<Rightarrow> Failed (InvalidTargetAccountProof addr e))
             (env_verify_proof E execution_state_root address_nibbles expected_value prf))
           (\<lambda>_. Inr (case acct of None \<Rightarrow> env_EMPTY_ROOT_HASH E | Some a \<Rightarrow> ta_storage_root a)))"

section \<open>The queue\<close>

text \<open>The array \<open>entry_words\<close> paired with \<open>word_proofs\<close>.\<close>

definition entry_words ::
    "('f, 's) guest_env \<Rightarrow> u64 \<Rightarrow> queue_entry_proof \<Rightarrow> (b256 \<times> u256) list" where
  "entry_words E idx entry =
     (let base = mapping_entry_location (env_keccak256 E) (ucast idx) QUEUE_REQUESTS_STORAGE_INDEX
      in [(base, word_of_address (qe_target entry)),
          (struct_word_slot base 1, word_of_b256 (qe_slot_key entry)),
          (struct_word_slot base 2, ucast (qe_collection_keys_count entry)),
          (struct_word_slot base 3, word_of_b256 (fst (qe_collection_keys entry))),
          (struct_word_slot base 4, word_of_b256 (snd (qe_collection_keys entry)))])"

definition entry_word_proofs :: "queue_entry_proof \<Rightarrow> bytes list list" where
  "entry_word_proofs entry =
     (case qe_word_proofs entry of (p0, p1, p2, p3, p4) \<Rightarrow> [p0, p1, p2, p3, p4])"

definition verify_entry ::
    "('f, 's) guest_env \<Rightarrow> b256 \<Rightarrow> u64 \<Rightarrow> nat \<times> queue_entry_proof \<Rightarrow> mpt_error fault + unit" where
  "verify_entry E queue_storage_root input_cursor oe =
     (case oe of (offset, entry) \<Rightarrow>
        let idx = input_cursor + of_nat offset
        in for_each_res (\<lambda>((slot, val), prf). verify_storage_word E queue_storage_root slot val prf)
             (zip (entry_words E idx entry) (entry_word_proofs entry)))"

type_synonym target_maps =
  "(address \<rightharpoonup> b256) \<times> (address \<times> b256 \<rightharpoonup> target_slot_proof)"

definition insert_slots ::
    "address \<Rightarrow> target_slot_proof list \<Rightarrow> (address \<times> b256 \<rightharpoonup> target_slot_proof)
      \<Rightarrow> (address \<times> b256 \<rightharpoonup> target_slot_proof)" where
  "insert_slots addr slots m = foldl (\<lambda>m slot. m((addr, ts_key slot) \<mapsto> slot)) m slots"

definition verify_target ::
    "('f, 's) guest_env \<Rightarrow> b256 \<Rightarrow> target_maps \<Rightarrow> target_storage_proof
      \<Rightarrow> mpt_error fault + target_maps" where
  "verify_target E execution_state_root maps target =
     (case maps of (target_storage_roots, target_slots) \<Rightarrow>
        bind_res (verify_account E execution_state_root Target (tp_target_address target)
            (tp_account target) (tp_account_mpt_proof target)) (\<lambda>storage_root.
        Inr (target_storage_roots(tp_target_address target \<mapsto> storage_root),
             insert_slots (tp_target_address target) (tp_slots target) target_slots)))"

definition queue_leaf ::
    "('f, 's) guest_env \<Rightarrow> target_maps \<Rightarrow> queue_entry_proof \<Rightarrow> mpt_error fault + 'f" where
  "queue_leaf E maps entry =
     (case maps of (target_storage_roots, target_slots) \<Rightarrow>
        bind_res (ok_or (Failed (MissingTargetWitness (qe_target entry)))
            (target_storage_roots (qe_target entry))) (\<lambda>storage_root.
        bind_res (ok_or (Failed (MissingSlotWitness (qe_target entry) (qe_slot_key entry)))
            (target_slots (qe_target entry, qe_slot_key entry))) (\<lambda>slot.
        bind_res (verify_storage_word E storage_root (qe_slot_key entry) (ts_value slot)
            (ts_mpt_proof slot)) (\<lambda>_.
        map_err (\<lambda>e. Failed (LeafHashError (qe_target entry) (qe_slot_key entry) (ts_value slot) e))
          (hash_request_leaf (env_mina E) (qe_target entry) (qe_collection_keys_count entry)
             (fst (qe_collection_keys entry)) (snd (qe_collection_keys entry)) (ts_value slot))))))"

text \<open>The Merkle root of the leaves as 32 bytes; \<open>copy_from_slice\<close> aborts on another length.\<close>

definition requests_root ::
    "('f, 's) guest_env \<Rightarrow> 'f list \<Rightarrow> mpt_error fault + b256" where
  "requests_root E merkle_nodes =
     (case compute_merkle_tree_depth_and_size (length merkle_nodes) of (depth, padded_size) \<Rightarrow>
        if depth > MAX_TREE_DEPTH
        then Inl (Failed (ExceedsMaxTreeDepth (length merkle_nodes) depth MAX_TREE_DEPTH))
        else
          bind_res (map_err Panicked (get_merkle_zeros (env_mina E) (env_merkle_zeros_dat E))) (\<lambda>zeros.
          bind_res (map_err Panicked (fold_merkle_left (env_mina E) merkle_nodes padded_size depth zeros))
            (\<lambda>(root, _).
          let bs = fp_to_bytes (env_mina E) root
          in if length bs = 32 then Inr (from_be_bytes bs)
             else Inl (Panicked (UnwrapFailed ''copy_from_slice: length mismatch'')))))"

definition queue_batch :: "u64 \<Rightarrow> u64 \<Rightarrow> u64" where
  "queue_batch head input_cursor = min (head - input_cursor) (of_nat MAX_BATCH)"

definition verify_queue ::
    "('f, 's) guest_env \<Rightarrow> b256 \<Rightarrow> queue_storage \<Rightarrow> mpt_error fault + u64 \<times> b256" where
  "verify_queue E execution_state_root q =
     bind_res (verify_account E execution_state_root ProofRequestQueue
        (qs_proof_request_queue_address q) (Some (qs_proof_request_queue_account q))
        (qs_proof_request_queue_account_mpt_proof q)) (\<lambda>queue_storage_root.
     bind_res (verify_storage_word E queue_storage_root
        (storage_slot_of_index QUEUE_HEAD_STORAGE_INDEX) (ucast (qs_head q)) (qs_head_mpt_proof q)) (\<lambda>_.
     if qs_input_cursor q > qs_head q
     then Inl (Failed (CursorAheadOfHead (qs_input_cursor q) (qs_head q)))
     else
       let batch = queue_batch (qs_head q) (qs_input_cursor q) in
       if length (qs_entries q) \<noteq> unat batch
       then Inl (Failed (BatchSizeMismatch batch (length (qs_entries q))))
       else
         bind_res (for_each_res (verify_entry E queue_storage_root (qs_input_cursor q))
           (enumerate 0 (qs_entries q))) (\<lambda>_.
         bind_res (fold_res (verify_target E execution_state_root) (qs_targets q) (Map.empty, Map.empty)) (\<lambda>maps.
         bind_res (traverse_res (queue_leaf E maps) (qs_entries q)) (\<lambda>merkle_nodes.
         bind_res (requests_root E merkle_nodes) (\<lambda>root.
         Inr (qs_input_cursor q + batch, root)))))))"

section \<open>Laws of the parameters\<close>

text \<open>
  What the guest relies on. \<open>tv root path\<close> is the value stored at a path of the trie with the
  given root. A verified inclusion proof pins the value, a verified exclusion proof its absence
  (the second is the law that defect (1) of the audit note in \<open>mpt.rs\<close> breaks for alloy-trie before
  its pull request 134); RLP encodings are injective; field elements have a canonical 32-byte
  encoding and the zero table on disk is the one \<open>save_zeros\<close> writes.
\<close>

type_synonym trie_view = "b256 \<Rightarrow> bytes \<Rightarrow> bytes option"

definition inclusion_sound :: "('f, 's) guest_env \<Rightarrow> trie_view \<Rightarrow> bool" where
  "inclusion_sound E tv \<longleftrightarrow> (\<forall>root path val prf.
     env_verify_proof E root path (Some val) prf = Inr () \<longrightarrow> tv root path = Some val)"

definition exclusion_sound :: "('f, 's) guest_env \<Rightarrow> trie_view \<Rightarrow> bool" where
  "exclusion_sound E tv \<longleftrightarrow> (\<forall>root path prf.
     env_verify_proof E root path None prf = Inr () \<longrightarrow> tv root path = None)"

definition rlp_injective :: "('f, 's) guest_env \<Rightarrow> bool" where
  "rlp_injective E \<longleftrightarrow> inj (env_rlp_u256 E) \<and> inj (env_rlp_account E)"

definition field_laws :: "('f, 's) guest_env \<Rightarrow> bool" where
  "field_laws E \<longleftrightarrow> accepts_canonical (env_mina E) \<and>
     (\<forall>x. length (fp_to_bytes (env_mina E) x) = 32) \<and>
     get_merkle_zeros (env_mina E) (env_merkle_zeros_dat E) = Inr (calculate_zeros (env_mina E))"

section \<open>Specification\<close>

definition holds_word :: "('f, 's) guest_env \<Rightarrow> trie_view \<Rightarrow> b256 \<Rightarrow> b256 \<Rightarrow> u256 \<Rightarrow> bool" where
  "holds_word E tv root key val \<longleftrightarrow>
     tv root (storage_path E key) = (if val = 0 then None else Some (env_rlp_u256 E val))"

definition holds_account ::
    "('f, 's) guest_env \<Rightarrow> trie_view \<Rightarrow> b256 \<Rightarrow> address \<Rightarrow> trie_account option \<Rightarrow> bool" where
  "holds_account E tv root addr acct \<longleftrightarrow>
     tv root (account_path E addr) = map_option (env_rlp_account E) acct"

definition account_storage_root :: "('f, 's) guest_env \<Rightarrow> trie_account option \<Rightarrow> b256" where
  "account_storage_root E acct =
     (case acct of None \<Rightarrow> env_EMPTY_ROOT_HASH E | Some a \<Rightarrow> ta_storage_root a)"

text \<open>The request a contract enqueued, and its words in the queue's storage.\<close>

record queue_request =
  rq_target :: address
  rq_slot_key :: b256
  rq_collection_keys_count :: u8
  rq_collection_keys :: "b256 \<times> b256"

definition request_at ::
    "('f, 's) guest_env \<Rightarrow> trie_view \<Rightarrow> b256 \<Rightarrow> nat \<Rightarrow> queue_request \<Rightarrow> bool" where
  "request_at E tv root i r \<longleftrightarrow>
     (let base = env_keccak256 E (to_be_bytes 32 (of_nat i :: u256) @ to_be_bytes 32 (1 :: u256))
      in holds_word E tv root base (word_of_address (rq_target r)) \<and>
         holds_word E tv root (base + 1) (rq_slot_key r) \<and>
         holds_word E tv root (base + 2) (ucast (rq_collection_keys_count r)) \<and>
         holds_word E tv root (base + 3) (fst (rq_collection_keys r)) \<and>
         holds_word E tv root (base + 4) (snd (rq_collection_keys r)))"

definition slot_reads ::
    "('f, 's) guest_env \<Rightarrow> trie_view \<Rightarrow> b256 \<Rightarrow> address \<Rightarrow> b256 \<Rightarrow> u256 \<Rightarrow> bool" where
  "slot_reads E tv state_root addr key val \<longleftrightarrow>
     (\<exists>acct. holds_account E tv state_root addr acct \<and>
        holds_word E tv (account_storage_root E acct) key val)"

definition request_leaf :: "('f, 's) guest_env \<Rightarrow> queue_request \<Rightarrow> u256 \<Rightarrow> string + 'f" where
  "request_leaf E r val =
     hash_request_leaf (env_mina E) (rq_target r) (rq_collection_keys_count r)
       (fst (rq_collection_keys r)) (snd (rq_collection_keys r)) val"

definition leaves_root :: "('f, 's) guest_env \<Rightarrow> 'f list \<Rightarrow> b256 \<Rightarrow> bool" where
  "leaves_root E leaves root \<longleftrightarrow>
     (\<exists>r. reference_root_bruteforce (env_mina E) leaves
            (snd (compute_merkle_tree_depth_and_size (length leaves))) = Inr r \<and>
          root = from_be_bytes (fp_to_bytes (env_mina E) r))"

text \<open>
  The outcome of one update: the next \<open>min (head - cursor) MAX_BATCH\<close> requests, each with the
  value its target's storage holds, hashed into the root; the cursor moves by their number.
\<close>

definition queue_outcome ::
    "('f, 's) guest_env \<Rightarrow> trie_view \<Rightarrow> b256 \<Rightarrow> address \<Rightarrow> u64 \<Rightarrow> u64 \<Rightarrow> b256 \<Rightarrow> bool" where
  "queue_outcome E tv state_root queue cursor cursor' root \<longleftrightarrow>
     (\<exists>acct head reqs vals leaves.
        holds_account E tv state_root queue (Some acct) \<and>
        holds_word E tv (ta_storage_root acct) 0 (ucast (head :: u64)) \<and>
        unat cursor \<le> unat head \<and>
        length reqs = min (unat head - unat cursor) MAX_BATCH \<and>
        unat cursor' = unat cursor + length reqs \<and>
        (\<forall>i < length reqs. request_at E tv (ta_storage_root acct) (unat cursor + i) (reqs ! i)) \<and>
        list_all2 (\<lambda>r v. slot_reads E tv state_root (rq_target r) (rq_slot_key r) v) reqs vals \<and>
        list_all2 (\<lambda>(r, v) leaf. request_leaf E r v = Inr leaf) (zip reqs vals) leaves \<and>
        leaves_root E leaves root)"

section \<open>The specification is deterministic\<close>

lemma holds_word_unique:
  "rlp_injective E \<Longrightarrow> holds_word E tv root key v \<Longrightarrow> holds_word E tv root key w \<Longrightarrow> v = w"
  by (auto simp: holds_word_def rlp_injective_def inj_eq split: if_splits)

lemma holds_account_unique:
  "rlp_injective E \<Longrightarrow> holds_account E tv root addr a \<Longrightarrow> holds_account E tv root addr b \<Longrightarrow> a = b"
  by (cases a; cases b) (auto simp: holds_account_def rlp_injective_def inj_eq)

lemma slot_reads_unique:
  "rlp_injective E \<Longrightarrow> slot_reads E tv root addr key v \<Longrightarrow> slot_reads E tv root addr key w \<Longrightarrow> v = w"
  unfolding slot_reads_def by (metis holds_account_unique holds_word_unique)

definition request_base :: "('f, 's) guest_env \<Rightarrow> nat \<Rightarrow> b256" where
  "request_base E i = env_keccak256 E (to_be_bytes 32 (of_nat i :: u256) @ to_be_bytes 32 (1 :: u256))"

lemma request_at_words:
  "request_at E tv root i r \<longleftrightarrow>
     holds_word E tv root (request_base E i) (word_of_address (rq_target r)) \<and>
     holds_word E tv root (request_base E i + 1) (rq_slot_key r) \<and>
     holds_word E tv root (request_base E i + 2) (ucast (rq_collection_keys_count r)) \<and>
     holds_word E tv root (request_base E i + 3) (fst (rq_collection_keys r)) \<and>
     holds_word E tv root (request_base E i + 4) (snd (rq_collection_keys r))"
  by (simp add: request_at_def request_base_def Let_def)

lemma request_at_unique:
  assumes "rlp_injective E" and "request_at E tv root i r" and "request_at E tv root i s"
  shows "r = s"
proof -
  note eq = holds_word_unique[OF assms(1)]
  have "word_of_address (rq_target r) = word_of_address (rq_target s)"
    by (rule eq[of tv root "request_base E i"]) (use assms(2,3) in \<open>simp_all only: request_at_words\<close>)
  moreover have "rq_slot_key r = rq_slot_key s"
    by (rule eq[of tv root "request_base E i + 1"]) (use assms(2,3) in \<open>simp_all only: request_at_words\<close>)
  moreover have "(ucast (rq_collection_keys_count r) :: u256) = ucast (rq_collection_keys_count s)"
    by (rule eq[of tv root "request_base E i + 2"]) (use assms(2,3) in \<open>simp_all only: request_at_words\<close>)
  moreover have "fst (rq_collection_keys r) = fst (rq_collection_keys s)"
    by (rule eq[of tv root "request_base E i + 3"]) (use assms(2,3) in \<open>simp_all only: request_at_words\<close>)
  moreover have "snd (rq_collection_keys r) = snd (rq_collection_keys s)"
    by (rule eq[of tv root "request_base E i + 4"]) (use assms(2,3) in \<open>simp_all only: request_at_words\<close>)
  ultimately show ?thesis
    by (intro queue_request.equality)
      (simp_all add: word_of_address_inject ucast_u8_u256_inject prod_eq_iff)
qed

lemma list_all2_unique:
  assumes "list_all2 P xs ys" and "list_all2 P xs zs" and "\<And>x y z. P x y \<Longrightarrow> P x z \<Longrightarrow> y = z"
  shows "ys = zs"
  using assms(1,2)
proof (induction arbitrary: zs rule: list_all2_induct)
  case Nil
  then show ?case by simp
next
  case (Cons x xs y ys)
  from Cons.prems obtain z zs' where zs: "zs = z # zs'" "P x z" "list_all2 P xs zs'"
    by (auto simp: list_all2_Cons1)
  with Cons.IH[OF zs(3)] assms(3)[OF Cons.hyps(1) zs(2)] show ?case by blast
qed

lemma ucast_u64_u256_inject: "(ucast (i :: u64) :: u256) = ucast j \<longleftrightarrow> i = j"
proof
  assume "(ucast i :: u256) = ucast j"
  then have "unat (ucast i :: u256) = unat (ucast j :: u256)" by simp
  then have "unat i = unat j" by (simp add: unat_ucast_up)
  then show "i = j" by (rule unsigned_word_eqI)
qed simp

lemma queue_outcome_unique:
  assumes "rlp_injective E"
    and "queue_outcome E tv state_root queue cursor c1 r1"
    and "queue_outcome E tv state_root queue cursor c2 r2"
  shows "c1 = c2 \<and> r1 = r2"
proof -
  from assms(2) obtain a1 h1 q1 v1 l1 where o1: "holds_account E tv state_root queue (Some a1)"
      "holds_word E tv (ta_storage_root a1) 0 (ucast (h1 :: u64))"
      "length q1 = min (unat h1 - unat cursor) MAX_BATCH" "unat c1 = unat cursor + length q1"
      "\<forall>i < length q1. request_at E tv (ta_storage_root a1) (unat cursor + i) (q1 ! i)"
      "list_all2 (\<lambda>r v. slot_reads E tv state_root (rq_target r) (rq_slot_key r) v) q1 v1"
      "list_all2 (\<lambda>(r, v) leaf. request_leaf E r v = Inr leaf) (zip q1 v1) l1"
      "leaves_root E l1 r1"
    unfolding queue_outcome_def by blast
  from assms(3) obtain a2 h2 q2 v2 l2 where o2: "holds_account E tv state_root queue (Some a2)"
      "holds_word E tv (ta_storage_root a2) 0 (ucast (h2 :: u64))"
      "length q2 = min (unat h2 - unat cursor) MAX_BATCH" "unat c2 = unat cursor + length q2"
      "\<forall>i < length q2. request_at E tv (ta_storage_root a2) (unat cursor + i) (q2 ! i)"
      "list_all2 (\<lambda>r v. slot_reads E tv state_root (rq_target r) (rq_slot_key r) v) q2 v2"
      "list_all2 (\<lambda>(r, v) leaf. request_leaf E r v = Inr leaf) (zip q2 v2) l2"
      "leaves_root E l2 r2"
    unfolding queue_outcome_def by blast
  have a: "a1 = a2" using holds_account_unique[OF assms(1) o1(1) o2(1)] by simp
  have h: "h1 = h2"
    using holds_word_unique[OF assms(1) o1(2) o2(2)[folded a]] by (simp add: ucast_u64_u256_inject)
  have q: "q1 = q2"
    using o1(3,5) o2(3,5) request_at_unique[OF assms(1)] by (intro nth_equalityI) (auto simp: a h)
  have v: "v1 = v2"
    using o1(6) o2(6)[folded q] slot_reads_unique[OF assms(1)] by (rule list_all2_unique)
  have l: "l1 = l2"
    using o1(7) o2(7)[folded q v] by (rule list_all2_unique) auto
  have "unat c1 = unat c2" using o1(4) o2(4) by (simp add: q)
  then show ?thesis
    using o1(8) o2(8) by (auto simp: l leaves_root_def intro: unsigned_word_eqI)
qed

section \<open>What an accepted witness establishes\<close>

lemma inclusion_soundD:
  "inclusion_sound E tv \<Longrightarrow> env_verify_proof E root path (Some val) prf = Inr () \<Longrightarrow> tv root path = Some val"
  unfolding inclusion_sound_def by blast

lemma exclusion_soundD:
  "exclusion_sound E tv \<Longrightarrow> env_verify_proof E root path None prf = Inr () \<Longrightarrow> tv root path = None"
  unfolding exclusion_sound_def by blast

lemma verify_storage_word_sound:
  assumes "inclusion_sound E tv" and "exclusion_sound E tv"
    and "verify_storage_word E root key val prf = Inr ()"
  shows "holds_word E tv root key val"
  using assms
  by (cases "val = 0")
    (simp_all add: verify_storage_word_def holds_word_def inclusion_soundD exclusion_soundD)

lemma verify_account_ok:
  "verify_account E state_root pa addr acct prf = Inr root \<longleftrightarrow>
     env_verify_proof E state_root (account_path E addr) (map_option (env_rlp_account E) acct) prf = Inr () \<and>
     root = account_storage_root E acct"
  by (auto simp: verify_account_def account_storage_root_def Let_def bind_res_eq_Inr)

lemma verify_account_sound:
  assumes "inclusion_sound E tv" and "exclusion_sound E tv"
    and "verify_account E state_root pa addr acct prf = Inr root"
  shows "holds_account E tv state_root addr acct" and "root = account_storage_root E acct"
proof -
  note ok = assms(3)[unfolded verify_account_ok]
  show "root = account_storage_root E acct" using ok by blast
  from ok show "holds_account E tv state_root addr acct"
    by (cases acct)
      (auto simp: holds_account_def intro: inclusion_soundD[OF assms(1)] exclusion_soundD[OF assms(2)])
qed

definition request_of :: "queue_entry_proof \<Rightarrow> queue_request" where
  "request_of e = \<lparr>rq_target = qe_target e, rq_slot_key = qe_slot_key e,
     rq_collection_keys_count = qe_collection_keys_count e,
     rq_collection_keys = qe_collection_keys e\<rparr>"

lemma request_of_sel [simp]:
  "rq_target (request_of e) = qe_target e"
  "rq_slot_key (request_of e) = qe_slot_key e"
  "rq_collection_keys_count (request_of e) = qe_collection_keys_count e"
  "rq_collection_keys (request_of e) = qe_collection_keys e"
  by (simp_all add: request_of_def)

lemma unat_queue_batch:
  assumes "cursor \<le> head"
  shows "unat (queue_batch head cursor) = min (unat head - unat cursor) MAX_BATCH"
proof -
  have "unat (of_nat MAX_BATCH :: u64) = MAX_BATCH"
    by (simp add: MAX_BATCH_def MAX_TREE_DEPTH_def)
  then show ?thesis
    using assms by (auto simp: queue_batch_def min_def word_le_nat_alt unat_sub)
qed

lemma batch_index_no_wrap:
  fixes cursor head :: u64
  assumes "cursor \<le> head" and "i \<le> unat head - unat cursor"
  shows "unat (cursor + of_nat i) = unat cursor + i"
proof -
  have "unat head < 2 ^ 64" using unsigned_less[of head] by simp
  then have sum: "unat cursor + i < 2 ^ 64" and i: "i < 2 ^ 64"
    using assms by (auto simp: word_le_nat_alt)
  have "unat (of_nat i :: u64) = i" using i by (simp add: unat_of_nat)
  with sum show ?thesis by (subst unat_add_no_overflow) simp_all
qed

lemma ucast_u64_of_nat: "(ucast (w :: u64) :: u256) = of_nat (unat w)"
  by simp

lemma verify_entry_sound:
  assumes sound: "inclusion_sound E tv" "exclusion_sound E tv"
    and ok: "verify_entry E root cursor (i, e) = Inr ()"
    and idx: "unat (cursor + of_nat i) = unat cursor + i"
  shows "request_at E tv root (unat cursor + i) (request_of e)"
proof -
  obtain p0 p1 p2 p3 p4 where p: "qe_word_proofs e = (p0, p1, p2, p3, p4)"
    by (cases "qe_word_proofs e") auto
  have base: "mapping_entry_location (env_keccak256 E) (ucast (cursor + of_nat i)) QUEUE_REQUESTS_STORAGE_INDEX =
      env_keccak256 E (to_be_bytes 32 (of_nat (unat cursor + i) :: u256) @ to_be_bytes 32 (1 :: u256))"
    by (simp only: mapping_entry_location_def mapping_entry_preimage_layout ucast_u64_of_nat idx)
      (simp add: QUEUE_REQUESTS_STORAGE_INDEX_def)
  let ?b = "mapping_entry_location (env_keccak256 E) (ucast (cursor + of_nat i)) QUEUE_REQUESTS_STORAGE_INDEX"
  have "verify_storage_word E root ?b (word_of_address (qe_target e)) p0 = Inr ()"
    "verify_storage_word E root (?b + 1) (qe_slot_key e) p1 = Inr ()"
    "verify_storage_word E root (?b + 2) (ucast (qe_collection_keys_count e)) p2 = Inr ()"
    "verify_storage_word E root (?b + 3) (fst (qe_collection_keys e)) p3 = Inr ()"
    "verify_storage_word E root (?b + 4) (snd (qe_collection_keys e)) p4 = Inr ()"
    using ok
    by (auto simp: verify_entry_def entry_words_def entry_word_proofs_def p Let_def bind_res_eq_Inr
        struct_word_slot_add)
  from this[THEN verify_storage_word_sound[OF sound]] show ?thesis
    unfolding request_at_def Let_def base by simp
qed

text \<open>The maps the target loop leaves behind: a later witness for the same key wins.\<close>

definition targets_ok :: "('f, 's) guest_env \<Rightarrow> b256 \<Rightarrow> target_maps \<Rightarrow> target_storage_proof list \<Rightarrow> bool" where
  "targets_ok E state_root maps ts \<longleftrightarrow>
     (\<forall>addr root. fst maps addr = Some root \<longrightarrow>
        (\<exists>t \<in> set ts. tp_target_address t = addr \<and>
           verify_account E state_root Target addr (tp_account t) (tp_account_mpt_proof t) = Inr root))"

lemma fold_verify_target_ok:
  assumes "fold_res (verify_target E state_root) ts (Map.empty, Map.empty) = Inr maps"
  shows "targets_ok E state_root maps ts"
proof (rule fold_res_invariant[where I = "\<lambda>ts maps. targets_ok E state_root maps ts", OF assms])
  show "targets_ok E state_root (Map.empty, Map.empty) []" by (simp add: targets_ok_def)
  fix ys t s u
  assume I: "targets_ok E state_root s ys" and step: "verify_target E state_root s t = Inr u"
  from step obtain root where root: "verify_account E state_root Target (tp_target_address t)
      (tp_account t) (tp_account_mpt_proof t) = Inr root"
    and u: "fst u = (fst s)(tp_target_address t \<mapsto> root)"
    by (cases s) (auto simp: verify_target_def bind_res_eq_Inr)
  with I show "targets_ok E state_root u (ys @ [t])"
    by (auto simp: targets_ok_def split: if_splits)
qed

lemma queue_leaf_sound:
  assumes sound: "inclusion_sound E tv" "exclusion_sound E tv"
    and maps: "targets_ok E state_root maps ts" and ok: "queue_leaf E maps e = Inr leaf"
  shows "\<exists>v. slot_reads E tv state_root (qe_target e) (qe_slot_key e) v \<and>
    request_leaf E (request_of e) v = Inr leaf"
proof -
  obtain roots slots where m: "maps = (roots, slots)" by (cases maps)
  from ok obtain root and slot :: target_slot_proof where root: "roots (qe_target e) = Some root"
    and word: "verify_storage_word E root (qe_slot_key e) (ts_value slot) (ts_mpt_proof slot) = Inr ()"
    and leaf: "request_leaf E (request_of e) (ts_value slot) = Inr leaf"
    unfolding queue_leaf_def m by (auto simp: bind_res_eq_Inr request_leaf_def)
  from maps[unfolded m] root obtain t :: target_storage_proof where "verify_account E state_root Target (qe_target e) (tp_account t)
      (tp_account_mpt_proof t) = Inr root"
    by (auto simp: targets_ok_def)
  with verify_account_sound[OF sound this] verify_storage_word_sound[OF sound word] leaf
  show ?thesis by (auto simp: slot_reads_def)
qed

lemma requests_root_ok:
  assumes "field_laws E" and "length leaves \<le> MAX_BATCH"
  shows "\<exists>root. requests_root E leaves = Inr root \<and> leaves_root E leaves root"
proof -
  obtain depth padded where dp: "compute_merkle_tree_depth_and_size (length leaves) = (depth, padded)"
    by (cases "compute_merkle_tree_depth_and_size (length leaves)")
  from merkle_root_of_batch[OF assms(2) dp, of "env_mina E"] obtain root nodes where
    "fold_merkle_left (env_mina E) leaves padded depth (calculate_zeros (env_mina E)) = Inr (root, nodes)"
    "reference_root_bruteforce (env_mina E) leaves padded = Inr root" by blast
  with assms(1) depth_bounded[OF dp assms(2)] dp show ?thesis
    by (simp add: requests_root_def field_laws_def leaves_root_def Let_def)
qed

text \<open>The successful runs, stage by stage.\<close>

lemma verify_queue_stages:
  assumes "verify_queue E state_root q = Inr (cursor', root)"
  obtains maps leaves where
    "env_verify_proof E state_root (account_path E (qs_proof_request_queue_address q))
       (Some (env_rlp_account E (qs_proof_request_queue_account q)))
       (qs_proof_request_queue_account_mpt_proof q) = Inr ()"
    "verify_storage_word E (ta_storage_root (qs_proof_request_queue_account q)) 0 (ucast (qs_head q))
       (qs_head_mpt_proof q) = Inr ()"
    "qs_input_cursor q \<le> qs_head q"
    "length (qs_entries q) = unat (queue_batch (qs_head q) (qs_input_cursor q))"
    "\<forall>oe \<in> set (enumerate 0 (qs_entries q)).
       verify_entry E (ta_storage_root (qs_proof_request_queue_account q)) (qs_input_cursor q) oe = Inr ()"
    "fold_res (verify_target E state_root) (qs_targets q) (Map.empty, Map.empty) = Inr maps"
    "traverse_res (queue_leaf E maps) (qs_entries q) = Inr leaves"
    "requests_root E leaves = Inr root"
    "cursor' = qs_input_cursor q + queue_batch (qs_head q) (qs_input_cursor q)"
proof -
  have head_slot: "storage_slot_of_index QUEUE_HEAD_STORAGE_INDEX = 0"
    by (simp add: storage_slot_of_index_def QUEUE_HEAD_STORAGE_INDEX_def)
  show thesis
    using assms that
    unfolding verify_queue_def
    by (auto simp: bind_res_eq_Inr verify_account_ok account_storage_root_def head_slot Let_def not_less
        for_each_res_ok split: if_splits)
qed

lemma verify_queue_outcome:
  assumes sound: "inclusion_sound E tv" "exclusion_sound E tv" and laws: "field_laws E"
    and ok: "verify_queue E state_root q = Inr (cursor', root)"
  shows "queue_outcome E tv state_root (qs_proof_request_queue_address q) (qs_input_cursor q) cursor' root"
proof -
  let ?acct = "qs_proof_request_queue_account q" and ?c = "qs_input_cursor q" and ?h = "qs_head q"
  let ?es = "qs_entries q" and ?n = "length (qs_entries q)"
  from ok obtain maps leaves where st:
    "env_verify_proof E state_root (account_path E (qs_proof_request_queue_address q))
       (Some (env_rlp_account E ?acct)) (qs_proof_request_queue_account_mpt_proof q) = Inr ()"
    "verify_storage_word E (ta_storage_root ?acct) 0 (ucast ?h) (qs_head_mpt_proof q) = Inr ()"
    "?c \<le> ?h" "?n = unat (queue_batch ?h ?c)"
    "\<forall>oe \<in> set (enumerate 0 ?es). verify_entry E (ta_storage_root ?acct) ?c oe = Inr ()"
    "fold_res (verify_target E state_root) (qs_targets q) (Map.empty, Map.empty) = Inr maps"
    "traverse_res (queue_leaf E maps) ?es = Inr leaves" "requests_root E leaves = Inr root"
    "cursor' = ?c + queue_batch ?h ?c"
    by (rule verify_queue_stages)
  have n: "?n = min (unat ?h - unat ?c) MAX_BATCH" using st(3,4) unat_queue_batch by simp
  have len: "length leaves = ?n" using st(7) by (rule traverse_res_length)
  have "request_at E tv (ta_storage_root ?acct) (unat ?c + i) (request_of (?es ! i))" if "i < ?n" for i
    using st(5) that n batch_index_no_wrap[OF st(3), of i]
    by (intro verify_entry_sound[OF sound]) (auto simp: in_set_enumerate_eq)
  moreover have "\<forall>i < ?n. \<exists>v. slot_reads E tv state_root (qe_target (?es ! i)) (qe_slot_key (?es ! i)) v \<and>
      request_leaf E (request_of (?es ! i)) v = Inr (leaves ! i)"
    using st(7) queue_leaf_sound[OF sound fold_verify_target_ok[OF st(6)]]
    by (auto simp: traverse_res_eq_Inr list_all2_conv_all_nth)
  then obtain v where v: "\<And>i. i < ?n \<Longrightarrow>
      slot_reads E tv state_root (qe_target (?es ! i)) (qe_slot_key (?es ! i)) (v i) \<and>
      request_leaf E (request_of (?es ! i)) (v i) = Inr (leaves ! i)"
    by metis
  moreover have "leaves_root E leaves root"
    using requests_root_ok[OF laws, of leaves] st(8) len n by auto
  moreover have "unat cursor' = unat ?c + ?n"
    using st(4,9) batch_index_no_wrap[OF st(3), of ?n] n by (simp add: word_of_nat_eq_iff)
  ultimately show ?thesis
    unfolding queue_outcome_def
    using verify_account_sound(1)[OF sound, of state_root ProofRequestQueue
        "qs_proof_request_queue_address q" "Some ?acct"] st(1,3) n len
      verify_storage_word_sound[OF sound st(2)]
    by (intro exI[of _ ?acct] exI[of _ ?h] exI[of _ "map request_of ?es"] exI[of _ "map v [0..<?n]"]
        exI[of _ leaves])
      (auto simp: verify_account_ok list_all2_conv_all_nth word_le_nat_alt)
qed

section \<open>Failures\<close>

text \<open>The errors the guest can return once the parameters obey their laws.\<close>

fun witness_error :: "mpt_error fault \<Rightarrow> bool" where
  "witness_error (Panicked _) = False"
| "witness_error (Failed (ExceedsMaxTreeDepth _ _ _)) = False"
| "witness_error (Failed (LeafHashError _ _ _ _)) = False"
| "witness_error (Failed _) = True"

lemma verify_storage_word_error: "verify_storage_word E root key v prf = Inl e \<Longrightarrow> witness_error e"
  by (auto simp: verify_storage_word_def Let_def map_err_eq_Inl)

lemma verify_account_error: "verify_account E root pa addr acct prf = Inl e \<Longrightarrow> witness_error e"
  by (cases pa) (auto simp: verify_account_def Let_def bind_res_eq_Inl map_err_eq_Inl)

lemma verify_entry_error: "verify_entry E root c oe = Inl e \<Longrightarrow> witness_error e"
  by (auto simp: verify_entry_def Let_def split: prod.splits
      dest!: for_each_res_Inl dest: verify_storage_word_error)

lemma verify_target_error: "verify_target E root maps t = Inl e \<Longrightarrow> witness_error e"
  by (cases maps) (auto simp: verify_target_def bind_res_eq_Inl dest: verify_account_error)

lemma ok_or_eq_Inl: "ok_or e m = Inl e' \<longleftrightarrow> m = None \<and> e' = e"
  by (cases m) auto

lemma queue_leaf_error:
  assumes "field_laws E" and "queue_leaf E maps en = Inl e"
  shows "witness_error e"
proof -
  have total: "hash_request_leaf (env_mina E) t c k0 k1 v \<noteq> Inl r" for t c k0 k1 v r
    using assms(1) hash_request_leaf_total[of "env_mina E" t c k0 k1 v] by (auto simp: field_laws_def)
  obtain roots slots where m: "maps = (roots, slots)" by (cases maps)
  from assms(2) total show ?thesis
    unfolding queue_leaf_def m
    by (auto simp: bind_res_eq_Inl ok_or_eq_Inl map_err_eq_Inl dest: verify_storage_word_error)
qed

lemma loop_errors:
  "for_each_res (verify_entry E root c) oes = Inl e \<Longrightarrow> witness_error e"
  "fold_res (verify_target E root) ts maps = Inl e \<Longrightarrow> witness_error e"
  "field_laws E \<Longrightarrow> traverse_res (queue_leaf E maps') es = Inl e \<Longrightarrow> witness_error e"
  by (blast dest: for_each_res_Inl verify_entry_error fold_res_Inl verify_target_error
      traverse_res_Inl queue_leaf_error)+

lemma verify_queue_error:
  assumes laws: "field_laws E" and err: "verify_queue E state_root q = Inl e"
  shows "witness_error e"
proof (rule ccontr)
  assume bad: "\<not> witness_error e"
  obtain maps leaves where c: "qs_input_cursor q \<le> qs_head q"
    and n: "length (qs_entries q) = unat (queue_batch (qs_head q) (qs_input_cursor q))"
    and leaves: "traverse_res (queue_leaf E maps) (qs_entries q) = Inr leaves"
    and root: "requests_root E leaves = Inl e"
    using err bad unfolding verify_queue_def
    by (auto simp: bind_res_eq_Inl Let_def not_less split: if_splits
        dest: verify_account_error verify_storage_word_error loop_errors(1,2) loop_errors(3)[OF laws])
  have "length leaves \<le> MAX_BATCH"
    using traverse_res_length[OF leaves] n unat_queue_batch[OF c] by simp
  from requests_root_ok[OF laws this] root show False by auto
qed

section \<open>Honest witnesses\<close>

definition target_root :: "('f, 's) guest_env \<Rightarrow> target_storage_proof \<Rightarrow> b256" where
  "target_root E t = account_storage_root E (tp_account t)"

lemma insert_slots_lookup:
  "insert_slots addr slots m k =
     (if fst k = addr \<and> snd k \<in> ts_key ` set slots
      then find (\<lambda>s. ts_key s = snd k) (rev slots) else m k)"
proof (induction slots rule: rev_induct)
  case Nil
  then show ?case by (simp add: insert_slots_def)
next
  case (snoc s slots)
  then show ?case by (cases k) (auto simp: insert_slots_def)
qed

lemma find_distinct:
  assumes "distinct (map f xs)" and "x \<in> set xs"
  shows "find (\<lambda>y. f y = f x) (rev xs) = Some x"
  using assms
proof (induction xs rule: rev_induct)
  case Nil
  then show ?case by simp
next
  case (snoc y xs)
  then show ?case by auto
qed

lemma fold_verify_target_complete:
  assumes "distinct (map tp_target_address ts)"
    and "\<forall>t \<in> set ts. distinct (map ts_key (tp_slots t)) \<and>
      verify_account E state_root Target (tp_target_address t) (tp_account t) (tp_account_mpt_proof t) =
        Inr (target_root E t)"
  shows "\<exists>roots slots. fold_res (verify_target E state_root) ts (Map.empty, Map.empty) = Inr (roots, slots) \<and>
    (\<forall>t \<in> set ts. roots (tp_target_address t) = Some (target_root E t) \<and>
       (\<forall>s \<in> set (tp_slots t). slots (tp_target_address t, ts_key s) = Some s))"
  using assms
proof (induction ts rule: rev_induct)
  case Nil
  then show ?case by simp
next
  case (snoc t ts)
  then obtain roots slots where IH:
    "fold_res (verify_target E state_root) ts (Map.empty, Map.empty) = Inr (roots, slots)"
    "\<forall>t \<in> set ts. roots (tp_target_address t) = Some (target_root E t) \<and>
       (\<forall>s \<in> set (tp_slots t). slots (tp_target_address t, ts_key s) = Some s)"
    by auto
  have new: "insert_slots (tp_target_address t) (tp_slots t) slots (tp_target_address t, ts_key s) = Some s"
    if "s \<in> set (tp_slots t)" for s
    using that snoc.prems(2) find_distinct[of ts_key "tp_slots t" s] by (simp add: insert_slots_lookup)
  have fresh: "tp_target_address t' \<noteq> tp_target_address t" if "t' \<in> set ts" for t'
  proof -
    have "tp_target_address t' \<in> tp_target_address ` set ts" using that by simp
    then show ?thesis using snoc.prems(1) by auto
  qed
  have old: "insert_slots (tp_target_address t) (tp_slots t) slots (tp_target_address t', k) =
      slots (tp_target_address t', k)" if "t' \<in> set ts" for t' k
    using fresh[OF that] by (simp add: insert_slots_lookup)
  have "fold_res (verify_target E state_root) (ts @ [t]) (Map.empty, Map.empty) =
      Inr (roots(tp_target_address t \<mapsto> target_root E t),
           insert_slots (tp_target_address t) (tp_slots t) slots)"
    using IH(1) snoc.prems(2) by (simp add: fold_res_append verify_target_def)
  with IH(2) new old fresh show ?case by auto
qed

text \<open>Every supplied proof verifies and every entry has its witnesses.\<close>

definition honest_witness :: "('f, 's) guest_env \<Rightarrow> b256 \<Rightarrow> queue_storage \<Rightarrow> bool" where
  "honest_witness E state_root q \<longleftrightarrow>
     (let root = ta_storage_root (qs_proof_request_queue_account q) in
      is_ok (verify_account E state_root ProofRequestQueue (qs_proof_request_queue_address q)
        (Some (qs_proof_request_queue_account q)) (qs_proof_request_queue_account_mpt_proof q)) \<and>
      is_ok (verify_storage_word E root (storage_slot_of_index QUEUE_HEAD_STORAGE_INDEX)
        (ucast (qs_head q)) (qs_head_mpt_proof q)) \<and>
      qs_input_cursor q \<le> qs_head q \<and>
      length (qs_entries q) = min (unat (qs_head q) - unat (qs_input_cursor q)) MAX_BATCH \<and>
      (\<forall>oe \<in> set (enumerate 0 (qs_entries q)). is_ok (verify_entry E root (qs_input_cursor q) oe)) \<and>
      distinct (map tp_target_address (qs_targets q)) \<and>
      (\<forall>t \<in> set (qs_targets q). distinct (map ts_key (tp_slots t)) \<and>
        is_ok (verify_account E state_root Target (tp_target_address t) (tp_account t)
          (tp_account_mpt_proof t))) \<and>
      (\<forall>e \<in> set (qs_entries q). \<exists>t \<in> set (qs_targets q). \<exists>s \<in> set (tp_slots t).
        tp_target_address t = qe_target e \<and> ts_key s = qe_slot_key e \<and>
        is_ok (verify_storage_word E (target_root E t) (ts_key s) (ts_value s) (ts_mpt_proof s))))"

lemma is_ok_unit: "is_ok (r :: 'e + unit) \<longleftrightarrow> r = Inr ()"
  by (cases r) auto

lemma is_ok_verify_account:
  "is_ok (verify_account E root pa addr acct prf) \<longleftrightarrow>
     verify_account E root pa addr acct prf = Inr (account_storage_root E acct)"
  by (auto simp: is_ok_iff verify_account_ok)

lemma honest_witness_leaves:
  assumes laws: "field_laws E" and q: "honest_witness E state_root q"
  shows "\<exists>maps leaves. fold_res (verify_target E state_root) (qs_targets q) (Map.empty, Map.empty) = Inr maps \<and>
    traverse_res (queue_leaf E maps) (qs_entries q) = Inr leaves"
proof -
  have "\<exists>roots slots. fold_res (verify_target E state_root) (qs_targets q) (Map.empty, Map.empty) = Inr (roots, slots) \<and>
    (\<forall>t \<in> set (qs_targets q). roots (tp_target_address t) = Some (target_root E t) \<and>
       (\<forall>s \<in> set (tp_slots t). slots (tp_target_address t, ts_key s) = Some s))"
    using q by (intro fold_verify_target_complete)
      (auto simp: honest_witness_def Let_def is_ok_verify_account target_root_def)
  then obtain roots slots where maps:
    "fold_res (verify_target E state_root) (qs_targets q) (Map.empty, Map.empty) = Inr (roots, slots)"
    "\<forall>t \<in> set (qs_targets q). roots (tp_target_address t) = Some (target_root E t) \<and>
       (\<forall>s \<in> set (tp_slots t). slots (tp_target_address t, ts_key s) = Some s)"
    by blast
  have "\<exists>leaf. queue_leaf E (roots, slots) e = Inr leaf" if "e \<in> set (qs_entries q)" for e
  proof -
    from q that obtain t and s :: target_slot_proof where ts: "t \<in> set (qs_targets q)" "s \<in> set (tp_slots t)"
      "tp_target_address t = qe_target e" "ts_key s = qe_slot_key e"
      "verify_storage_word E (target_root E t) (ts_key s) (ts_value s) (ts_mpt_proof s) = Inr ()"
      unfolding honest_witness_def Let_def is_ok_unit by blast
    obtain leaf where "hash_request_leaf (env_mina E) (qe_target e) (qe_collection_keys_count e)
        (fst (qe_collection_keys e)) (snd (qe_collection_keys e)) (ts_value s) = Inr leaf"
      using hash_request_leaf_total laws unfolding field_laws_def by blast
    moreover have "roots (qe_target e) = Some (target_root E t)"
      "slots (qe_target e, qe_slot_key e) = Some s"
      using maps(2) ts by metis+
    ultimately have "queue_leaf E (roots, slots) e = Inr leaf"
      using ts(4,5) by (simp add: queue_leaf_def)
    then show ?thesis ..
  qed
  then obtain f where "\<And>e. e \<in> set (qs_entries q) \<Longrightarrow> queue_leaf E (roots, slots) e = Inr (f e)"
    by metis
  then have "traverse_res (queue_leaf E (roots, slots)) (qs_entries q) = Inr (map f (qs_entries q))"
    by (rule traverse_res_map)
  with maps(1) show ?thesis by blast
qed

lemma honest_witness_accepted:
  assumes laws: "field_laws E" and q: "honest_witness E state_root q"
  shows "\<exists>root. verify_queue E state_root q =
    Inr (qs_input_cursor q + of_nat (length (qs_entries q)), root)"
proof -
  let ?root = "ta_storage_root (qs_proof_request_queue_account q)"
  from honest_witness_leaves[OF assms] obtain maps leaves where
    l: "fold_res (verify_target E state_root) (qs_targets q) (Map.empty, Map.empty) = Inr maps"
      "traverse_res (queue_leaf E maps) (qs_entries q) = Inr leaves" by blast
  have h: "verify_account E state_root ProofRequestQueue (qs_proof_request_queue_address q)
        (Some (qs_proof_request_queue_account q)) (qs_proof_request_queue_account_mpt_proof q) = Inr ?root"
    "verify_storage_word E ?root (storage_slot_of_index QUEUE_HEAD_STORAGE_INDEX)
        (ucast (qs_head q)) (qs_head_mpt_proof q) = Inr ()"
    "qs_input_cursor q \<le> qs_head q"
    "length (qs_entries q) = min (unat (qs_head q) - unat (qs_input_cursor q)) MAX_BATCH"
    "for_each_res (verify_entry E ?root (qs_input_cursor q)) (enumerate 0 (qs_entries q)) = Inr ()"
    using q
    by (simp_all add: honest_witness_def Let_def is_ok_unit is_ok_verify_account
        account_storage_root_def for_each_res_ok)
  have n: "length (qs_entries q) = unat (queue_batch (qs_head q) (qs_input_cursor q))"
    using h(3,4) unat_queue_batch by simp
  then have b: "of_nat (length (qs_entries q)) = queue_batch (qs_head q) (qs_input_cursor q)"
    by simp
  have "length leaves \<le> MAX_BATCH"
    using traverse_res_length[OF l(2)] h(4) by simp
  from requests_root_ok[OF laws this] obtain root where "requests_root E leaves = Inr root" by blast
  with h l n b show ?thesis by (simp add: verify_queue_def Let_def not_less)
qed

section \<open>A concrete instance\<close>

text \<open>
  A small world on which the hypotheses are discharged: a verifier that compares the claim with
  the stored tries, one queue with one request, one target.
\<close>

definition sample_keccak :: keccak where
  "sample_keccak bs =
     (if length bs = 64 then 1000 + 8 * from_be_bytes (take 32 bs) + from_be_bytes (drop 32 bs)
      else from_be_bytes bs)"

definition sample_rlp_account :: "trie_account \<Rightarrow> bytes" where
  "sample_rlp_account a =
     to_be_bytes 8 (ta_nonce a) @ to_be_bytes 32 (ta_balance a) @
     to_be_bytes 32 (ta_storage_root a) @ to_be_bytes 32 (ta_code_hash a)"

definition sample_account :: "b256 \<Rightarrow> trie_account" where
  "sample_account root = \<lparr>ta_nonce = 1, ta_balance = 0, ta_storage_root = root, ta_code_hash = 77\<rparr>"

definition sample_storage :: "((b256 \<times> b256) \<times> u256) list" where
  "sample_storage =
     [((2, 0), 1), ((2, 1001), 9), ((2, 1002), 5), ((2, 1003), 1), ((2, 1004), 3), ((3, 5), 42)]"

definition sample_trie :: trie_view where
  "sample_trie root path =
     (if root = 1
      then if from_be_bytes path = (7 :: b256) then Some (sample_rlp_account (sample_account 2))
           else if from_be_bytes path = (9 :: b256) then Some (sample_rlp_account (sample_account 3))
           else None
      else map_option (to_be_bytes 32) (map_of sample_storage (root, from_be_bytes path)))"

definition sample_env :: "(u256, u256 list) guest_env" where
  "sample_env = \<lparr>
     env_keccak256 = sample_keccak,
     env_nibbles_unpack = to_be_bytes 32,
     env_rlp_u256 = to_be_bytes 32,
     env_rlp_account = sample_rlp_account,
     env_verify_proof = (\<lambda>root path expected prf.
       if sample_trie root path = expected then Inr () else Inl ''value mismatch''),
     env_EMPTY_ROOT_HASH = 99,
     env_mina = sample_mina,
     env_merkle_zeros_dat = save_zeros sample_mina\<rparr>"

definition sample_entry :: queue_entry_proof where
  "sample_entry = \<lparr>qe_target = 9, qe_slot_key = 5, qe_collection_keys_count = 1,
     qe_collection_keys = (3, 0), qe_word_proofs = ([], [], [], [], [])\<rparr>"

definition sample_queue :: queue_storage where
  "sample_queue = \<lparr>
     qs_proof_request_queue_address = 7, qs_proof_request_queue_account = sample_account 2,
     qs_proof_request_queue_account_mpt_proof = [], qs_head = 1, qs_head_mpt_proof = [],
     qs_input_cursor = 0, qs_entries = [sample_entry],
     qs_targets = [\<lparr>tp_target_address = 9, tp_account = Some (sample_account 3),
       tp_account_mpt_proof = [], tp_slots = [\<lparr>ts_key = 5, ts_value = 42, ts_mpt_proof = []\<rparr>]\<rparr>]\<rparr>"

lemma sample_env_sound: "inclusion_sound sample_env sample_trie" "exclusion_sound sample_env sample_trie"
  by (simp_all add: inclusion_sound_def exclusion_sound_def sample_env_def split: if_splits)

lemma sample_env_field_laws: "field_laws sample_env"
  using merkle_zeros_of_file[of sample_mina] accepts_canonical_sample
  by (simp add: field_laws_def sample_env_def sample_mina_def from_le_to_le_bytes)

lemma sample_rlp_account_inj: "inj sample_rlp_account"
proof (rule injI)
  fix a b :: trie_account
  assume "sample_rlp_account a = sample_rlp_account b"
  then show "a = b"
    by (intro trie_account.equality) (simp_all add: sample_rlp_account_def)
qed

lemma sample_env_rlp: "rlp_injective sample_env"
  using sample_rlp_account_inj
  by (simp add: rlp_injective_def sample_env_def inj_def)

lemma sample_word [simp]:
  assumes "root \<noteq> 1"
  shows "is_ok (verify_storage_word sample_env root key v prf) \<longleftrightarrow>
    map_of sample_storage (root, key) = (if v = 0 then None else Some v)"
  using assms
  by (auto simp: is_ok_unit verify_storage_word_def storage_path_def sample_env_def sample_trie_def
      sample_keccak_def Let_def)

lemma sample_verify_account [simp]:
  "is_ok (verify_account sample_env 1 pa addr acct prf) \<longleftrightarrow>
    sample_trie 1 (account_path sample_env addr) = map_option sample_rlp_account acct"
  by (auto simp: is_ok_verify_account verify_account_ok) (auto simp: sample_env_def split: if_splits)

lemma sample_account_path: "from_be_bytes (account_path sample_env addr) = word_of_address addr"
  by (simp add: account_path_def sample_env_def sample_keccak_def word_of_address_def)

lemma sample_entry_ok: "is_ok (verify_entry sample_env 2 0 (0, sample_entry))"
proof -
  have "mapping_entry_location sample_keccak 0 1 = 1001"
    by (simp add: mapping_entry_location_def mapping_entry_preimage_layout sample_keccak_def)
  then have "\<forall>x \<in> set (zip (entry_words sample_env 0 sample_entry) (entry_word_proofs sample_entry)).
      case x of ((slot, v), prf) \<Rightarrow> is_ok (verify_storage_word sample_env 2 slot v prf)"
    by (simp add: entry_words_def entry_word_proofs_def sample_entry_def Let_def struct_word_slot_add
        QUEUE_REQUESTS_STORAGE_INDEX_def sample_storage_def)
      (simp add: sample_env_def word_of_address_ucast)
  then show ?thesis
    by (auto simp: verify_entry_def is_ok_unit for_each_res_ok)
qed

lemma sample_queue_honest: "honest_witness sample_env 1 sample_queue"
  unfolding honest_witness_def Let_def
  by (simp add: sample_queue_def sample_account_def sample_entry_ok)
    (simp add: sample_trie_def sample_account_path word_of_address_ucast sample_storage_def
      storage_slot_of_index_def QUEUE_HEAD_STORAGE_INDEX_def MAX_BATCH_def MAX_TREE_DEPTH_def
      sample_entry_def sample_account_def target_root_def account_storage_root_def)

lemma sample_queue_accepted: "\<exists>root. verify_queue sample_env 1 sample_queue = Inr (1, root)"
  using honest_witness_accepted[OF sample_env_field_laws sample_queue_honest]
  by (simp add: sample_queue_def)

section \<open>Properties\<close>





text \<open>C20: Verification never aborts. On every input the guest either accepts or returns an error that
  blames the witness; in particular the tree is never too deep, no leaf fails to hash, and none of
  the vector accesses, subtractions and unwraps of the Merkle code fails.\<close>

theorem verify_queue_never_panics:
  assumes "field_laws E" and "verify_queue E state_root q = Inl e"
  shows "\<exists>err. e = Failed err \<and> (\<forall>n d m. err \<noteq> ExceedsMaxTreeDepth n d m) \<and>
    (\<forall>t s v r. err \<noteq> LeafHashError t s v r)"
  using verify_queue_error[OF assms] by (cases e rule: witness_error.cases) auto

theorem verify_queue_never_panics_witness:
  "\<exists>err. verify_queue sample_env 1 (sample_queue\<lparr>qs_input_cursor := 2\<rparr>) = Inl (Failed err) \<and>
    (\<forall>n d m. err \<noteq> ExceedsMaxTreeDepth n d m) \<and> (\<forall>t s v r. err \<noteq> LeafHashError t s v r)"
proof -
  have "verify_queue sample_env 1 (sample_queue\<lparr>qs_input_cursor := 2\<rparr>) = Inl (Failed (CursorAheadOfHead 2 1))"
    using sample_queue_honest
    by (simp add: honest_witness_def Let_def is_ok_unit is_ok_verify_account verify_queue_def
        account_storage_root_def) (simp add: sample_queue_def)
  with verify_queue_never_panics[OF sample_env_field_laws this] show ?thesis by blast
qed

text \<open>Completeness. A witness all of whose proofs verify, with as many entries as the queue state
  derives and one target and slot witness for every entry, is accepted, and the cursor moves
  by the number of entries: no enqueued request can stall the queue.\<close>

theorem verify_queue_accepts_honest:
  assumes "field_laws E" and "honest_witness E state_root q"
  shows "\<exists>root. verify_queue E state_root q =
    Inr (qs_input_cursor q + of_nat (length (qs_entries q)), root)"
  using assms by (rule honest_witness_accepted)

theorem verify_queue_accepts_honest_witness:
  "\<exists>root. verify_queue sample_env 1 sample_queue =
    Inr (qs_input_cursor sample_queue + of_nat (length (qs_entries sample_queue)), root)"
  by (rule verify_queue_accepts_honest[OF sample_env_field_laws sample_queue_honest])

end
