(* ===== verification/Nori_Helios_Store.thy ===== *)
theory Nori_Helios_Store
  imports Nori_Bytes
begin

text \<open>
  \<open>nori-hash/src/helios.rs\<close> and \<open>nori-hash/src/sha256_hash.rs\<close>: the serialization of the part of the
  light client store that a proof commits to, and its hash. The store is the record of package
  helios-consensus-core restricted to the fields the sources name; message-pack (rmp-serde),
  SHA-256, the SSZ tree hash and the light client's verification and application of updates are
  fields of the parameter record \<open>helios\<close>.
\<close>

section \<open>The light client store\<close>

record 'x exec_header =
  ex_state_root :: b256
  ex_block_number :: u64
  ex_rest :: 'x

text \<open>
  A header is its beacon slot, the execution header when the fork has one
  (\<open>execution()\<close> is an error before Capella), and the rest.
\<close>

record ('x, 'h) lc_header =
  hd_slot :: u64
  hd_execution :: "'x exec_header option"
  hd_rest :: 'h

record ('x, 'h, 'c, 'u) lc_store =
  finalized_header :: "('x, 'h) lc_header"
  current_sync_committee :: 'c
  next_sync_committee :: "'c option"
  optimistic_header :: "('x, 'h) lc_header"
  previous_max_active_participants :: u64
  current_max_active_participants :: u64
  best_valid_update :: "'u option"

record ('x, 'h, 'c, 'u, 'v, 'g) helios =
  rmp_header :: "('x, 'h) lc_header \<Rightarrow> string + bytes"
  rmp_committee :: "'c \<Rightarrow> string + bytes"
  sha256_digest :: "bytes \<Rightarrow> b256"
  committee_root :: "'c \<Rightarrow> b256"
  hl_verify_update :: "'u \<Rightarrow> u64 \<Rightarrow> ('x, 'h, 'c, 'u) lc_store \<Rightarrow> b256 \<Rightarrow> 'g \<Rightarrow> string + unit"
  hl_apply_update :: "('x, 'h, 'c, 'u) lc_store \<Rightarrow> 'u \<Rightarrow> ('x, 'h, 'c, 'u) lc_store"
  hl_verify_finality_update :: "'v \<Rightarrow> u64 \<Rightarrow> ('x, 'h, 'c, 'u) lc_store \<Rightarrow> b256 \<Rightarrow> 'g \<Rightarrow> string + unit"
  hl_apply_finality_update :: "('x, 'h, 'c, 'u) lc_store \<Rightarrow> 'v \<Rightarrow> ('x, 'h, 'c, 'u) lc_store"

section \<open>Serialization and hash\<close>

definition serialize_helios_store_serde ::
    "('x, 'h, 'c, 'u, 'v, 'g) helios \<Rightarrow> ('x, 'h, 'c, 'u) lc_store \<Rightarrow> string + bytes" where
  "serialize_helios_store_serde H helios_store =
     bind_res (rmp_header H (finalized_header helios_store)) (\<lambda>bs1.
     bind_res (rmp_committee H (current_sync_committee helios_store)) (\<lambda>bs2.
     case next_sync_committee helios_store of
       None \<Rightarrow> Inr (bs1 @ bs2)
     | Some next \<Rightarrow> bind_res (rmp_committee H next) (\<lambda>bs3. Inr (bs1 @ bs2 @ bs3))))"

definition sha256_hash_helios_store ::
    "('x, 'h, 'c, 'u, 'v, 'g) helios \<Rightarrow> ('x, 'h, 'c, 'u) lc_store \<Rightarrow> string + b256" where
  "sha256_hash_helios_store H helios_store =
     bind_res (serialize_helios_store_serde H helios_store) (\<lambda>encoded_store.
     Inr (sha256_digest H encoded_store))"

section \<open>What the hash commits to\<close>

text \<open>The committed part of a store.\<close>

definition committed_part ::
    "('x, 'h, 'c, 'u) lc_store \<Rightarrow> ('x, 'h) lc_header \<times> 'c \<times> 'c option" where
  "committed_part s = (finalized_header s, current_sync_committee s, next_sync_committee s)"

text \<open>
  Message-pack values are self-delimiting: an encoding followed by anything determines the value.
\<close>

definition self_delimiting :: "('a \<Rightarrow> string + bytes) \<Rightarrow> bool" where
  "self_delimiting ser \<longleftrightarrow> (\<forall>x y bx by rx ry.
     ser x = Inr bx \<longrightarrow> ser y = Inr by \<longrightarrow> bx @ rx = by @ ry \<longrightarrow> x = y) \<and>
     (\<forall>x. ser x \<noteq> Inr [])"

lemma self_delimitingD:
  "self_delimiting ser \<Longrightarrow> ser x = Inr bx \<Longrightarrow> ser y = Inr by' \<Longrightarrow> bx @ rx = by' @ ry \<Longrightarrow> x = y"
  "self_delimiting ser \<Longrightarrow> ser x \<noteq> Inr []"
  unfolding self_delimiting_def by blast+

lemma serialize_ok:
  "serialize_helios_store_serde H s = Inr bs \<longleftrightarrow>
    (\<exists>b1 b2 b3. rmp_header H (finalized_header s) = Inr b1 \<and>
       rmp_committee H (current_sync_committee s) = Inr b2 \<and>
       (case next_sync_committee s of None \<Rightarrow> b3 = [] | Some n \<Rightarrow> rmp_committee H n = Inr b3) \<and>
       bs = b1 @ b2 @ b3)"
  by (auto simp: serialize_helios_store_serde_def bind_res_eq_Inr split: option.splits)

lemma serialize_inject:
  assumes hdr: "self_delimiting (rmp_header H)" and com: "self_delimiting (rmp_committee H)"
    and "serialize_helios_store_serde H s = Inr bs" and "serialize_helios_store_serde H t = Inr bs"
  shows "committed_part s = committed_part t"
proof -
  from assms(3) obtain b1 b2 b3 where s: "rmp_header H (finalized_header s) = Inr b1"
    "rmp_committee H (current_sync_committee s) = Inr b2"
    "case next_sync_committee s of None \<Rightarrow> b3 = [] | Some n \<Rightarrow> rmp_committee H n = Inr b3"
    "bs = b1 @ b2 @ b3" by (auto simp: serialize_ok)
  from assms(4) obtain c1 c2 c3 where t: "rmp_header H (finalized_header t) = Inr c1"
    "rmp_committee H (current_sync_committee t) = Inr c2"
    "case next_sync_committee t of None \<Rightarrow> c3 = [] | Some n \<Rightarrow> rmp_committee H n = Inr c3"
    "bs = c1 @ c2 @ c3" by (auto simp: serialize_ok)
  have f: "finalized_header s = finalized_header t"
    using self_delimitingD(1)[OF hdr s(1) t(1), of "b2 @ b3" "c2 @ c3"] s(4) t(4) by simp
  then have b1: "b1 = c1" using s(1) t(1) by simp
  have c: "current_sync_committee s = current_sync_committee t"
    using self_delimitingD(1)[OF com s(2) t(2), of b3 c3] s(4) t(4) b1 by simp
  then have "b2 = c2" using s(2) t(2) by simp
  then have b3: "b3 = c3" using s(4) t(4) b1 by simp
  have n: "next_sync_committee s = next_sync_committee t"
  proof (cases "next_sync_committee s")
    case None
    then have "c3 = []" using s(3) b3 by simp
    with None t(3) self_delimitingD(2)[OF com] show ?thesis
      by (cases "next_sync_committee t") auto
  next
    case (Some n)
    with s(3) b3 have "rmp_committee H n = Inr c3" by simp
    with Some t(3) self_delimitingD[OF com] show ?thesis
      by (cases "next_sync_committee t") auto
  qed
  from f c n show ?thesis by (simp add: committed_part_def)
qed

text \<open>Equal hashes of stores with different committed parts exhibit a SHA-256 collision.\<close>

definition sha256_collision ::
    "('x, 'h, 'c, 'u, 'v, 'g) helios \<Rightarrow> ('x, 'h, 'c, 'u) lc_store \<Rightarrow> ('x, 'h, 'c, 'u) lc_store \<Rightarrow> bool" where
  "sha256_collision H s t \<longleftrightarrow> (\<exists>bs cs. serialize_helios_store_serde H s = Inr bs \<and>
     serialize_helios_store_serde H t = Inr cs \<and> bs \<noteq> cs \<and> sha256_digest H bs = sha256_digest H cs)"

lemma hash_binding:
  assumes "self_delimiting (rmp_header H)" and "self_delimiting (rmp_committee H)"
    and "sha256_hash_helios_store H s = Inr h" and "sha256_hash_helios_store H t = Inr h"
  shows "committed_part s = committed_part t \<or> sha256_collision H s t"
proof -
  from assms(3,4) obtain bs cs where "serialize_helios_store_serde H s = Inr bs"
    "serialize_helios_store_serde H t = Inr cs" "sha256_digest H bs = h" "sha256_digest H cs = h"
    by (auto simp: sha256_hash_helios_store_def bind_res_eq_Inr)
  then show ?thesis
    using serialize_inject[OF assms(1,2), of s cs t] unfolding sha256_collision_def by metis
qed

lemma hash_frame: "committed_part s = committed_part t \<Longrightarrow>
  sha256_hash_helios_store H s = sha256_hash_helios_store H t"
  by (simp add: sha256_hash_helios_store_def serialize_helios_store_serde_def committed_part_def)

section \<open>A concrete instance\<close>

text \<open>A light client whose headers are slots, with one-byte committees, that accepts newer slots.\<close>

definition sample_header :: "u64 \<Rightarrow> (unit, unit) lc_header" where
  "sample_header slot = \<lparr>hd_slot = slot,
     hd_execution = Some \<lparr>ex_state_root = 1, ex_block_number = slot + 100, ex_rest = ()\<rparr>, hd_rest = ()\<rparr>"

definition sample_store :: "u64 \<Rightarrow> (unit, unit, u8, u64) lc_store" where
  "sample_store slot = \<lparr>finalized_header = sample_header slot, current_sync_committee = 5,
     next_sync_committee = Some 6, optimistic_header = sample_header slot,
     previous_max_active_participants = 0, current_max_active_participants = 0,
     best_valid_update = None\<rparr>"

definition sample_rmp_header :: "(unit, unit) lc_header \<Rightarrow> string + bytes" where
  "sample_rmp_header h =
     Inr (to_be_bytes 8 (hd_slot h) @
       (case hd_execution h of None \<Rightarrow> [0]
        | Some e \<Rightarrow> [1] @ to_be_bytes 32 (ex_state_root e) @ to_be_bytes 8 (ex_block_number e)))"

definition sample_helios :: "(unit, unit, u8, u64, u64, unit) helios" where
  "sample_helios = \<lparr>
     rmp_header = sample_rmp_header, rmp_committee = (\<lambda>c. Inr [c]), sha256_digest = from_be_bytes,
     committee_root = ucast,
     hl_verify_update = (\<lambda>u now s g f. if hd_slot (finalized_header s) < u \<and> u \<le> now then Inr () else Inl ''update''),
     hl_apply_update = (\<lambda>s u. s\<lparr>finalized_header := sample_header u\<rparr>),
     hl_verify_finality_update = (\<lambda>u now s g f. if hd_slot (finalized_header s) < u \<and> u \<le> now then Inr () else Inl ''finality''),
     hl_apply_finality_update = (\<lambda>s u. s\<lparr>finalized_header := sample_header u\<rparr>)\<rparr>"

lemma sample_rmp_header_delimiting: "self_delimiting sample_rmp_header"
proof -
  have "x = y" if eq: "bx @ rx = by' @ ry" and bx: "sample_rmp_header x = Inr bx"
    and by': "sample_rmp_header y = Inr by'" for x y :: "(unit, unit) lc_header" and bx rx by' ry
  proof -
    have slots: "hd_slot x = hd_slot y"
      using eq bx by' by (auto simp: sample_rmp_header_def)
    have "hd_execution x = hd_execution y"
      using eq bx by' unfolding sample_rmp_header_def slots
      by (cases "hd_execution x"; cases "hd_execution y")
        (auto intro!: exec_header.equality)
    with slots show ?thesis by (intro lc_header.equality) auto
  qed
  moreover have "sample_rmp_header x \<noteq> Inr []" for x
    by (simp add: sample_rmp_header_def flip: length_0_conv)
  ultimately show ?thesis unfolding self_delimiting_def by blast
qed

lemma sample_helios_delimiting:
  "self_delimiting (rmp_header sample_helios)" "self_delimiting (rmp_committee sample_helios)"
  using sample_rmp_header_delimiting by (auto simp: sample_helios_def self_delimiting_def)

section \<open>Properties\<close>

text \<open>C26: What a store hash commits to. It is unchanged by the optimistic header, the participant
  counts and the best valid update, and two stores with the same hash have the same finalized
  header, current committee and next committee (present or absent), unless their two
  different serializations are a SHA-256 collision.\<close>

theorem store_hash_commitment:
  assumes "self_delimiting (rmp_header H)" and "self_delimiting (rmp_committee H)"
  shows "sha256_hash_helios_store H (s\<lparr>optimistic_header := o', previous_max_active_participants := p,
      current_max_active_participants := c, best_valid_update := b\<rparr>) = sha256_hash_helios_store H s \<and>
    (is_ok (sha256_hash_helios_store H s) \<longrightarrow>
      sha256_hash_helios_store H s = sha256_hash_helios_store H t \<longrightarrow>
      committed_part s = committed_part t \<or> sha256_collision H s t)"
proof -
  have "sha256_hash_helios_store H (s\<lparr>optimistic_header := o', previous_max_active_participants := p,
      current_max_active_participants := c, best_valid_update := b\<rparr>) = sha256_hash_helios_store H s"
    by (rule hash_frame) (simp add: committed_part_def)
  with hash_binding[OF assms, of s _ t] show ?thesis by (auto simp: is_ok_iff)
qed

theorem store_hash_commitment_witness:
  "sha256_hash_helios_store sample_helios ((sample_store 64)\<lparr>optimistic_header := sample_header 70,
      previous_max_active_participants := 1, current_max_active_participants := 2,
      best_valid_update := Some 3\<rparr>) = sha256_hash_helios_store sample_helios (sample_store 64)"
  using store_hash_commitment[OF sample_helios_delimiting] by blast

end
