(* ===== verification/Nori_Consensus.thy ===== *)
theory Nori_Consensus
  imports Nori_Mpt Nori_Helios_Store
begin

text \<open>
  \<open>nori-program/src/consensus.rs\<close> and the guest's entry point \<open>nori-program/src/main.rs\<close>: the
  consensus transition, alone (\<open>consensus_program\<close>) and with the queue
  (\<open>consensus_mpt_program\<close>). The flag \<open>debug_print\<close> only prints and is left out.

  \<open>light_client_run\<close> is the specification of the update loop, as a step relation; the locale
  \<open>hash_chained_program\<close> is the contract that lets two proofs be chained, interpreted for both
  programs.
\<close>

section \<open>Inputs and errors\<close>

record ('x, 'h, 'c, 'u, 'v, 'g) consensus_proof_inputs =
  ci_updates :: "'u list"
  ci_finality_update :: 'v
  ci_expected_current_slot :: u64
  ci_store :: "('x, 'h, 'c, 'u) lc_store"
  ci_genesis_root :: b256
  ci_forks :: 'g
  ci_store_hash :: b256

record ('x, 'h, 'c, 'u, 'v, 'g) proof_inputs =
  pi_updates :: "'u list"
  pi_finality_update :: 'v
  pi_expected_current_slot :: u64
  pi_store :: "('x, 'h, 'c, 'u) lc_store"
  pi_genesis_root :: b256
  pi_forks :: 'g
  pi_store_hash :: b256
  pi_queue_storage :: queue_storage

datatype program_error =
    HashChainMismatch b256 b256
  | InvalidUpdate nat string
  | InvalidFinalityUpdate string
  | MissingExecutionRoot
  | StoreHashingError string
  | MptError mpt_error
  | NonCheckpointOutputSlot u64

section \<open>The programs\<close>

definition process_update ::
    "('x, 'h, 'c, 'u, 'v, 'g) helios \<Rightarrow> u64 \<Rightarrow> b256 \<Rightarrow> 'g \<Rightarrow> ('x, 'h, 'c, 'u) lc_store \<Rightarrow> nat \<times> 'u
      \<Rightarrow> program_error fault + ('x, 'h, 'c, 'u) lc_store" where
  "process_update H expected_current_slot genesis_root forks store iu =
     (case iu of (index, update) \<Rightarrow>
        case hl_verify_update H update expected_current_slot store genesis_root forks of
          Inl err \<Rightarrow> Inl (Failed (InvalidUpdate index err))
        | Inr _ \<Rightarrow> Inr (hl_apply_update H store update))"

definition process_finality_update ::
    "('x, 'h, 'c, 'u, 'v, 'g) helios \<Rightarrow> u64 \<Rightarrow> b256 \<Rightarrow> 'g \<Rightarrow> ('x, 'h, 'c, 'u) lc_store \<Rightarrow> 'v
      \<Rightarrow> program_error fault + ('x, 'h, 'c, 'u) lc_store" where
  "process_finality_update H expected_current_slot genesis_root forks store finality_update =
     (case hl_verify_finality_update H finality_update expected_current_slot store genesis_root forks of
        Inl err \<Rightarrow> Inl (Failed (InvalidFinalityUpdate err))
      | Inr _ \<Rightarrow> Inr (hl_apply_finality_update H store finality_update))"

definition committee_hash ::
    "('x, 'h, 'c, 'u, 'v, 'g) helios \<Rightarrow> ('x, 'h, 'c, 'u) lc_store \<Rightarrow> b256" where
  "committee_hash H store =
     (case next_sync_committee store of Some c \<Rightarrow> committee_root H c | None \<Rightarrow> 0)"

definition consensus_program ::
    "('x, 'h, 'c, 'u, 'v, 'g) helios \<Rightarrow> ('x, 'h, 'c, 'u, 'v, 'g) consensus_proof_inputs
      \<Rightarrow> program_error fault + consensus_proof_outputs" where
  "consensus_program H i =
     (let store = ci_store i; input_store_hash = ci_store_hash i in
      bind_res (map_err (\<lambda>e. Failed (StoreHashingError (''Failed to hash store: '' @ e)))
        (sha256_hash_helios_store H store)) (\<lambda>calculated_prev_store_hash.
      if calculated_prev_store_hash \<noteq> input_store_hash
      then Inl (Failed (HashChainMismatch input_store_hash calculated_prev_store_hash))
      else
        let input_slot = hd_slot (finalized_header store) in
        bind_res (fold_res (process_update H (ci_expected_current_slot i) (ci_genesis_root i) (ci_forks i))
          (enumerate 0 (ci_updates i)) store) (\<lambda>store.
        bind_res (process_finality_update H (ci_expected_current_slot i) (ci_genesis_root i) (ci_forks i)
          store (ci_finality_update i)) (\<lambda>store.
        let output_slot = hd_slot (finalized_header store);
            next_sync_committee_hash = committee_hash H store in
        case hd_execution (finalized_header store) of
          None \<Rightarrow> Inl (Failed MissingExecutionRoot)
        | Some execution \<Rightarrow>
            bind_res (map_err (\<lambda>e. Failed (StoreHashingError (''Failed to hash updated store: '' @ e)))
              (sha256_hash_helios_store H store)) (\<lambda>output_store_hash.
            Inr \<lparr>co_input_slot = input_slot,
                 co_input_store_hash = input_store_hash,
                 co_output_slot = output_slot,
                 co_output_store_hash = output_store_hash,
                 co_execution_state_root = ex_state_root execution,
                 co_next_sync_committee_hash = next_sync_committee_hash,
                 co_output_block_number = ex_block_number execution\<rparr>)))))"

fun wrap_mpt_fault :: "mpt_error fault \<Rightarrow> program_error fault" where
  "wrap_mpt_fault (Panicked p) = Panicked p"
| "wrap_mpt_fault (Failed e) = Failed (MptError e)"

definition consensus_mpt_program ::
    "('f, 's) guest_env \<Rightarrow> ('x, 'h, 'c, 'u, 'v, 'g) helios \<Rightarrow> ('x, 'h, 'c, 'u, 'v, 'g) proof_inputs
      \<Rightarrow> program_error fault + proof_outputs" where
  "consensus_mpt_program E H i =
     (let store = pi_store i; input_store_hash = pi_store_hash i;
          queue_storage = pi_queue_storage i;
          proof_request_queue_address = qs_proof_request_queue_address queue_storage;
          input_queue_cursor = qs_input_cursor queue_storage in
      bind_res (map_err (\<lambda>e. Failed (StoreHashingError (''Failed to hash store: '' @ e)))
        (sha256_hash_helios_store H store)) (\<lambda>calculated_prev_store_hash.
      if calculated_prev_store_hash \<noteq> input_store_hash
      then Inl (Failed (HashChainMismatch input_store_hash calculated_prev_store_hash))
      else
        let input_slot = hd_slot (finalized_header store) in
        bind_res (fold_res (process_update H (pi_expected_current_slot i) (pi_genesis_root i) (pi_forks i))
          (enumerate 0 (pi_updates i)) store) (\<lambda>store.
        bind_res (process_finality_update H (pi_expected_current_slot i) (pi_genesis_root i) (pi_forks i)
          store (pi_finality_update i)) (\<lambda>store.
        case hd_execution (finalized_header store) of
          None \<Rightarrow> Inl (Failed MissingExecutionRoot)
        | Some execution \<Rightarrow>
            let execution_state_root = ex_state_root execution;
                output_block_number = ex_block_number execution in
            bind_res (map_err wrap_mpt_fault (verify_queue E execution_state_root queue_storage))
              (\<lambda>(output_queue_cursor, verified_requests_root).
            let output_slot = hd_slot (finalized_header store);
                next_sync_committee_hash = committee_hash H store in
            if output_slot mod 32 \<noteq> 0
            then Inl (Failed (NonCheckpointOutputSlot output_slot))
            else
              bind_res (map_err (\<lambda>e. Failed (StoreHashingError (''Failed to hash updated store: '' @ e)))
                (sha256_hash_helios_store H store)) (\<lambda>output_store_hash.
              Inr \<lparr>po_input_slot = input_slot,
                   po_input_store_hash = input_store_hash,
                   po_output_slot = output_slot,
                   po_output_store_hash = output_store_hash,
                   po_execution_state_root = execution_state_root,
                   po_verified_requests_root = verified_requests_root,
                   po_next_sync_committee_hash = next_sync_committee_hash,
                   po_proof_request_queue_address = proof_request_queue_address,
                   po_input_queue_cursor = input_queue_cursor,
                   po_output_queue_cursor = output_queue_cursor,
                   po_output_block_number = output_block_number\<rparr>))))))"

text \<open>
  The entry point of the zkVM: decode the inputs (\<open>cbor\<close> is package serde-cbor), run, commit the bytes. Both
  \<open>unwrap\<close>s abort.
\<close>

definition guest_main ::
    "('f, 's) guest_env \<Rightarrow> ('x, 'h, 'c, 'u, 'v, 'g) helios
      \<Rightarrow> (bytes \<Rightarrow> string + ('x, 'h, 'c, 'u, 'v, 'g) proof_inputs) \<Rightarrow> bytes \<Rightarrow> panic + bytes" where
  "guest_main E H cbor encoded_inputs =
     bind_res (map_err UnwrapFailed (cbor encoded_inputs)) (\<lambda>proof_inputs.
     bind_res (map_err (\<lambda>e. case e of Panicked p \<Rightarrow> p | Failed _ \<Rightarrow> UnwrapFailed ''consensus_mpt_program'')
       (consensus_mpt_program E H proof_inputs)) (\<lambda>proof_outputs.
     Inr (proof_outputs_to_bytes proof_outputs)))"

section \<open>Specification of the transition\<close>

text \<open>Each update is verified against the store that the updates before it produced.\<close>

inductive light_client_run ::
    "('x, 'h, 'c, 'u, 'v, 'g) helios \<Rightarrow> u64 \<Rightarrow> b256 \<Rightarrow> 'g \<Rightarrow> ('x, 'h, 'c, 'u) lc_store \<Rightarrow> 'u list
      \<Rightarrow> ('x, 'h, 'c, 'u) lc_store \<Rightarrow> bool"
  for H now genesis forks where
  run_done: "light_client_run H now genesis forks s [] s"
| run_step: "hl_verify_update H u now s genesis forks = Inr () \<Longrightarrow>
     light_client_run H now genesis forks (hl_apply_update H s u) us t \<Longrightarrow>
     light_client_run H now genesis forks s (u # us) t"

inductive_simps run_Nil [simp]: "light_client_run H now genesis forks s [] t"
inductive_simps run_Cons: "light_client_run H now genesis forks s (u # us) t"

text \<open>One whole transition: the updates, then the finality update.\<close>

definition transition ::
    "('x, 'h, 'c, 'u, 'v, 'g) helios \<Rightarrow> u64 \<Rightarrow> b256 \<Rightarrow> 'g \<Rightarrow> ('x, 'h, 'c, 'u) lc_store \<Rightarrow> 'u list \<Rightarrow> 'v
      \<Rightarrow> ('x, 'h, 'c, 'u) lc_store \<Rightarrow> bool" where
  "transition H now genesis forks s us fu t \<longleftrightarrow>
     (\<exists>m. light_client_run H now genesis forks s us m \<and>
        hl_verify_finality_update H fu now m genesis forks = Inr () \<and>
        t = hl_apply_finality_update H m fu)"

lemma process_updates_run:
  "fold_res (process_update H now genesis forks) (enumerate n us) s = Inr t \<longleftrightarrow>
     light_client_run H now genesis forks s us t"
proof (induction us arbitrary: n s)
  case Nil
  then show ?case by auto
next
  case (Cons u us)
  then show ?case
    by (auto simp: process_update_def run_Cons split: sum.splits)
qed

lemma process_finality_ok:
  "process_finality_update H now genesis forks s fu = Inr t \<longleftrightarrow>
     hl_verify_finality_update H fu now s genesis forks = Inr () \<and> t = hl_apply_finality_update H s fu"
  by (auto simp: process_finality_update_def split: sum.splits)

definition run_transition ::
    "('x, 'h, 'c, 'u, 'v, 'g) helios \<Rightarrow> u64 \<Rightarrow> b256 \<Rightarrow> 'g \<Rightarrow> ('x, 'h, 'c, 'u) lc_store \<Rightarrow> 'u list \<Rightarrow> 'v
      \<Rightarrow> program_error fault + ('x, 'h, 'c, 'u) lc_store" where
  "run_transition H now genesis forks s us fu =
     bind_res (fold_res (process_update H now genesis forks) (enumerate 0 us) s)
       (\<lambda>m. process_finality_update H now genesis forks m fu)"

lemma run_transition_ok [simp]:
  "run_transition H now genesis forks s us fu = Inr t \<longleftrightarrow> transition H now genesis forks s us fu t"
  by (auto simp: run_transition_def transition_def bind_res_eq_Inr process_updates_run process_finality_ok)

lemma light_client_run_functional:
  "light_client_run H now genesis forks s us t \<Longrightarrow> light_client_run H now genesis forks s us t' \<Longrightarrow> t = t'"
  by (induction rule: light_client_run.induct) (auto simp: run_Cons)

section \<open>Successful runs\<close>

lemma bind_process_updates:
  "bind_res (fold_res (process_update H now genesis forks) (enumerate 0 us) s)
     (\<lambda>m. bind_res (process_finality_update H now genesis forks m fu) K) =
   bind_res (run_transition H now genesis forks s us fu) K"
  by (simp add: run_transition_def bind_res_assoc)

lemma consensus_program_ok:
  "consensus_program H i = Inr out \<longleftrightarrow>
    (\<exists>t ex. sha256_hash_helios_store H (ci_store i) = Inr (ci_store_hash i) \<and>
       transition H (ci_expected_current_slot i) (ci_genesis_root i) (ci_forks i) (ci_store i)
         (ci_updates i) (ci_finality_update i) t \<and>
       hd_execution (finalized_header t) = Some ex \<and>
       sha256_hash_helios_store H t = Inr (co_output_store_hash out) \<and>
       co_input_slot out = hd_slot (finalized_header (ci_store i)) \<and>
       co_input_store_hash out = ci_store_hash i \<and>
       co_output_slot out = hd_slot (finalized_header t) \<and>
       co_execution_state_root out = ex_state_root ex \<and>
       co_next_sync_committee_hash out = committee_hash H t \<and>
       co_output_block_number out = ex_block_number ex)"
  unfolding consensus_program_def Let_def transition_def
  by (cases out)
    (auto simp: bind_res_eq_Inr process_updates_run process_finality_ok
      split: option.splits if_splits; blast)

definition bridge_outputs ::
    "('x, 'h, 'c, 'u, 'v, 'g) helios \<Rightarrow> ('x, 'h, 'c, 'u, 'v, 'g) proof_inputs \<Rightarrow> ('x, 'h, 'c, 'u) lc_store
      \<Rightarrow> 'x exec_header \<Rightarrow> b256 \<Rightarrow> u64 \<Rightarrow> b256 \<Rightarrow> proof_outputs" where
  "bridge_outputs H i t ex out_hash cursor root =
     \<lparr>po_input_slot = hd_slot (finalized_header (pi_store i)),
      po_input_store_hash = pi_store_hash i,
      po_output_slot = hd_slot (finalized_header t),
      po_output_store_hash = out_hash,
      po_execution_state_root = ex_state_root ex,
      po_verified_requests_root = root,
      po_next_sync_committee_hash = committee_hash H t,
      po_proof_request_queue_address = qs_proof_request_queue_address (pi_queue_storage i),
      po_input_queue_cursor = qs_input_cursor (pi_queue_storage i),
      po_output_queue_cursor = cursor,
      po_output_block_number = ex_block_number ex\<rparr>"

lemma consensus_mpt_program_stages:
  "consensus_mpt_program E H i = Inr out \<longleftrightarrow>
    sha256_hash_helios_store H (pi_store i) = Inr (pi_store_hash i) \<and>
    (\<exists>t. transition H (pi_expected_current_slot i) (pi_genesis_root i) (pi_forks i) (pi_store i)
         (pi_updates i) (pi_finality_update i) t \<and>
     (\<exists>ex. hd_execution (finalized_header t) = Some ex \<and>
     (\<exists>c r. verify_queue E (ex_state_root ex) (pi_queue_storage i) = Inr (c, r) \<and>
       hd_slot (finalized_header t) mod 32 = 0 \<and>
     (\<exists>h. sha256_hash_helios_store H t = Inr h \<and> bridge_outputs H i t ex h c r = out))))"
  unfolding consensus_mpt_program_def Let_def bind_process_updates bridge_outputs_def[symmetric]
  by (simp add: bind_res_eq_Inr guard_eq_Inr case_option_eq_Inr)

lemma bridge_outputs_eq:
  "bridge_outputs H i t ex h c r = out \<longleftrightarrow>
     po_input_slot out = hd_slot (finalized_header (pi_store i)) \<and>
     po_input_store_hash out = pi_store_hash i \<and>
     po_output_slot out = hd_slot (finalized_header t) \<and>
     h = po_output_store_hash out \<and>
     po_execution_state_root out = ex_state_root ex \<and>
     r = po_verified_requests_root out \<and>
     po_next_sync_committee_hash out = committee_hash H t \<and>
     po_proof_request_queue_address out = qs_proof_request_queue_address (pi_queue_storage i) \<and>
     po_input_queue_cursor out = qs_input_cursor (pi_queue_storage i) \<and>
     c = po_output_queue_cursor out \<and>
     po_output_block_number out = ex_block_number ex"
  by (cases out) (auto simp: bridge_outputs_def)

lemma consensus_mpt_program_ok:
  "consensus_mpt_program E H i = Inr out \<longleftrightarrow>
    (\<exists>t ex. sha256_hash_helios_store H (pi_store i) = Inr (pi_store_hash i) \<and>
       transition H (pi_expected_current_slot i) (pi_genesis_root i) (pi_forks i) (pi_store i)
         (pi_updates i) (pi_finality_update i) t \<and>
       hd_execution (finalized_header t) = Some ex \<and>
       verify_queue E (ex_state_root ex) (pi_queue_storage i) =
         Inr (po_output_queue_cursor out, po_verified_requests_root out) \<and>
       hd_slot (finalized_header t) mod 32 = 0 \<and>
       sha256_hash_helios_store H t = Inr (po_output_store_hash out) \<and>
       po_input_slot out = hd_slot (finalized_header (pi_store i)) \<and>
       po_input_store_hash out = pi_store_hash i \<and>
       po_output_slot out = hd_slot (finalized_header t) \<and>
       po_execution_state_root out = ex_state_root ex \<and>
       po_next_sync_committee_hash out = committee_hash H t \<and>
       po_proof_request_queue_address out = qs_proof_request_queue_address (pi_queue_storage i) \<and>
       po_input_queue_cursor out = qs_input_cursor (pi_queue_storage i) \<and>
       po_output_block_number out = ex_block_number ex)"
  (is "?L \<longleftrightarrow> (\<exists>t ex. ?R t ex)")
proof
  assume ?L
  then obtain t ex c r h where "sha256_hash_helios_store H (pi_store i) = Inr (pi_store_hash i)"
    "transition H (pi_expected_current_slot i) (pi_genesis_root i) (pi_forks i) (pi_store i)
       (pi_updates i) (pi_finality_update i) t"
    "hd_execution (finalized_header t) = Some ex"
    "verify_queue E (ex_state_root ex) (pi_queue_storage i) = Inr (c, r)"
    "hd_slot (finalized_header t) mod 32 = 0" "sha256_hash_helios_store H t = Inr h"
    "bridge_outputs H i t ex h c r = out"
    unfolding consensus_mpt_program_stages by (elim conjE exE) (rule that; assumption)
  then have "?R t ex" by (simp add: bridge_outputs_eq)
  then show "\<exists>t ex. ?R t ex" by (intro exI)
next
  assume "\<exists>t ex. ?R t ex"
  then obtain t ex where R: "?R t ex" by (elim exE)
  then have "bridge_outputs H i t ex (po_output_store_hash out) (po_output_queue_cursor out)
      (po_verified_requests_root out) = out"
    by (simp add: bridge_outputs_eq)
  with R show ?L
    unfolding consensus_mpt_program_stages
    by (intro conjI exI[of _ t] exI[of _ ex] exI[of _ "po_output_queue_cursor out"]
        exI[of _ "po_verified_requests_root out"] exI[of _ "po_output_store_hash out"]) simp_all
qed

section \<open>Contract of a hash-chained program\<close>

text \<open>
  A proof program reads a store, checks its hash, produces a new store and commits to both. Whoever
  chains two proofs sees only their outputs.
\<close>

locale hash_chained_program =
  fixes H :: "('x, 'h, 'c, 'u, 'v, 'g) helios"
    and prog :: "'i \<Rightarrow> 'e + 'o"
    and in_store :: "'i \<Rightarrow> ('x, 'h, 'c, 'u) lc_store"
    and in_slot out_slot :: "'o \<Rightarrow> u64"
    and in_hash out_hash :: "'o \<Rightarrow> b256"
    and post :: "'i \<Rightarrow> ('x, 'h, 'c, 'u) lc_store \<Rightarrow> bool"
  assumes prog_commits: "prog i = Inr out \<Longrightarrow>
    \<exists>t. post i t \<and>
      sha256_hash_helios_store H (in_store i) = Inr (in_hash out) \<and>
      sha256_hash_helios_store H t = Inr (out_hash out) \<and>
      in_slot out = hd_slot (finalized_header (in_store i)) \<and>
      out_slot out = hd_slot (finalized_header t)"
begin

lemma chain:
  assumes laws: "self_delimiting (rmp_header H)" "self_delimiting (rmp_committee H)"
    and p1: "prog i = Inr out" and p2: "prog i' = Inr out'" and link: "in_hash out' = out_hash out"
  shows "\<exists>t. post i t \<and>
    (committed_part (in_store i') = committed_part t \<and> in_slot out' = out_slot out \<or>
     sha256_collision H t (in_store i'))"
proof -
  from prog_commits[OF p1] obtain t where t: "post i t"
    "sha256_hash_helios_store H t = Inr (out_hash out)" "out_slot out = hd_slot (finalized_header t)"
    by blast
  from prog_commits[OF p2] link have i': "sha256_hash_helios_store H (in_store i') = Inr (out_hash out)"
    "in_slot out' = hd_slot (finalized_header (in_store i'))" by auto
  from hash_binding[OF laws t(2) i'(1)] t i'(2) show ?thesis
    by (auto simp: committed_part_def)
qed

text \<open>A whole chain of proofs that link by hash.\<close>

lemma chain_all:
  assumes laws: "self_delimiting (rmp_header H)" "self_delimiting (rmp_committee H)"
    and progs: "list_all2 (\<lambda>i out. prog i = Inr out) ins outs"
    and links: "successively (\<lambda>out out'. in_hash out' = out_hash out) outs"
    and k: "Suc k < length outs"
  shows "\<exists>t. post (ins ! k) t \<and>
    (committed_part (in_store (ins ! Suc k)) = committed_part t \<and> in_slot (outs ! Suc k) = out_slot (outs ! k) \<or>
     sha256_collision H t (in_store (ins ! Suc k)))"
proof (rule chain[OF laws])
  show "prog (ins ! k) = Inr (outs ! k)" "prog (ins ! Suc k) = Inr (outs ! Suc k)"
    using progs k by (auto simp: list_all2_conv_all_nth)
  show "in_hash (outs ! Suc k) = out_hash (outs ! k)"
    using links k by (simp add: successively_conv_nth)
qed

end

abbreviation post_of_inputs ::
    "('x, 'h, 'c, 'u, 'v, 'g) helios \<Rightarrow> ('x, 'h, 'c, 'u, 'v, 'g) proof_inputs \<Rightarrow> ('x, 'h, 'c, 'u) lc_store \<Rightarrow> bool" where
  "post_of_inputs H i \<equiv> transition H (pi_expected_current_slot i) (pi_genesis_root i) (pi_forks i)
     (pi_store i) (pi_updates i) (pi_finality_update i)"

abbreviation post_of_consensus_inputs ::
    "('x, 'h, 'c, 'u, 'v, 'g) helios \<Rightarrow> ('x, 'h, 'c, 'u, 'v, 'g) consensus_proof_inputs \<Rightarrow> ('x, 'h, 'c, 'u) lc_store \<Rightarrow> bool" where
  "post_of_consensus_inputs H i \<equiv> transition H (ci_expected_current_slot i) (ci_genesis_root i) (ci_forks i)
     (ci_store i) (ci_updates i) (ci_finality_update i)"

interpretation bridge_program: hash_chained_program H "consensus_mpt_program E H" pi_store
  po_input_slot po_output_slot po_input_store_hash po_output_store_hash "post_of_inputs H" for E H
  by unfold_locales (auto simp: consensus_mpt_program_ok)

interpretation consensus_only: hash_chained_program H "consensus_program H" ci_store
  co_input_slot co_output_slot co_input_store_hash co_output_store_hash "post_of_consensus_inputs H" for H
  by unfold_locales (auto simp: consensus_program_ok)

section \<open>Faults\<close>

lemma update_fault_index:
  "fold_res (process_update H now genesis forks) (enumerate n us) s = Inl e \<longleftrightarrow>
     (\<exists>k < length us. \<exists>m err. light_client_run H now genesis forks s (take k us) m \<and>
        hl_verify_update H (us ! k) now m genesis forks = Inl err \<and> e = Failed (InvalidUpdate (n + k) err))"
proof (induction us arbitrary: n s)
  case Nil
  then show ?case by simp
next
  case (Cons u us)
  show ?case
  proof (cases "hl_verify_update H u now s genesis forks")
    case (Inl err)
    then show ?thesis
      by (auto simp: process_update_def Ex_less_Suc2 run_Cons)
  next
    case (Inr x)
    then have "process_update H now genesis forks s (n, u) = Inr (hl_apply_update H s u)"
      by (simp add: process_update_def)
    then show ?thesis
      using Inr by (simp add: Cons.IH Ex_less_Suc2 run_Cons)
  qed
qed

lemma consensus_mpt_program_no_panic:
  assumes "field_laws E" and "consensus_mpt_program E H i = Inl e"
  shows "\<exists>err. e = Failed err"
proof (cases e)
  case (Panicked p)
  have queue: "verify_queue E root q \<noteq> Inl (Panicked p)" for root q
    using verify_queue_error[OF assms(1)] by fastforce
  have "fold_res (process_update H now genesis forks) (enumerate 0 us) s \<noteq> Inl (Panicked p)"
    for now genesis forks us s
    by (simp add: update_fault_index)
  moreover have "process_finality_update H now genesis forks s fu \<noteq> Inl (Panicked p)" for now genesis forks s fu
    by (simp add: process_finality_update_def split: sum.splits)
  moreover have "map_err wrap_mpt_fault (verify_queue E root q) \<noteq> Inl (Panicked p)" for root q
  proof
    assume "map_err wrap_mpt_fault (verify_queue E root q) = Inl (Panicked p)"
    then obtain f where "verify_queue E root q = Inl f" "wrap_mpt_fault f = Panicked p"
      by (auto simp: map_err_eq_Inl)
    with queue[of root q] show False by (cases f) auto
  qed
  ultimately show ?thesis
    using assms(2) unfolding Panicked consensus_mpt_program_def Let_def
    by (auto simp: bind_res_eq_Inl map_err_eq_Inl split: option.splits if_splits prod.splits)
qed auto

section \<open>The light client part of a bridge run\<close>

definition consensus_part ::
    "('x, 'h, 'c, 'u, 'v, 'g) proof_inputs \<Rightarrow> ('x, 'h, 'c, 'u, 'v, 'g) consensus_proof_inputs" where
  "consensus_part i = \<lparr>ci_updates = pi_updates i, ci_finality_update = pi_finality_update i,
     ci_expected_current_slot = pi_expected_current_slot i, ci_store = pi_store i,
     ci_genesis_root = pi_genesis_root i, ci_forks = pi_forks i, ci_store_hash = pi_store_hash i\<rparr>"

definition consensus_outputs_of :: "proof_outputs \<Rightarrow> consensus_proof_outputs" where
  "consensus_outputs_of out = \<lparr>co_input_slot = po_input_slot out,
     co_input_store_hash = po_input_store_hash out, co_output_slot = po_output_slot out,
     co_output_store_hash = po_output_store_hash out,
     co_execution_state_root = po_execution_state_root out,
     co_next_sync_committee_hash = po_next_sync_committee_hash out,
     co_output_block_number = po_output_block_number out\<rparr>"

lemma consensus_part_iff:
  "consensus_mpt_program E H i = Inr out \<longleftrightarrow>
    consensus_program H (consensus_part i) = Inr (consensus_outputs_of out) \<and>
    verify_queue E (po_execution_state_root out) (pi_queue_storage i) =
      Inr (po_output_queue_cursor out, po_verified_requests_root out) \<and>
    po_output_slot out mod 32 = 0 \<and>
    po_proof_request_queue_address out = qs_proof_request_queue_address (pi_queue_storage i) \<and>
    po_input_queue_cursor out = qs_input_cursor (pi_queue_storage i)"
  unfolding consensus_mpt_program_ok consensus_program_ok consensus_part_def consensus_outputs_of_def
  by (simp cong: conj_cong) metis

lemma consensus_part_outputs:
  "consensus_mpt_program E H i = Inr out \<Longrightarrow>
   consensus_program H (consensus_part i) = Inr (consensus_outputs_of out)"
  by (simp add: consensus_part_iff)

section \<open>A concrete instance\<close>

definition sample_hash :: "u64 \<Rightarrow> b256" where
  "sample_hash slot = (case sha256_hash_helios_store sample_helios (sample_store slot) of Inr h \<Rightarrow> h | Inl _ \<Rightarrow> 0)"

definition sample_inputs ::
    "u64 \<Rightarrow> u64 list \<Rightarrow> u64 \<Rightarrow> (unit, unit, u8, u64, u64, unit) proof_inputs" where
  "sample_inputs slot us fu = \<lparr>pi_updates = us, pi_finality_update = fu, pi_expected_current_slot = 1000,
     pi_store = sample_store slot, pi_genesis_root = 0, pi_forks = (), pi_store_hash = sample_hash slot,
     pi_queue_storage = sample_queue\<rparr>"

lemma sample_hash_ok: "sha256_hash_helios_store sample_helios (sample_store slot) = Inr (sample_hash slot)"
  by (simp add: sample_hash_def sha256_hash_helios_store_def serialize_helios_store_serde_def
      sample_helios_def sample_rmp_header_def sample_store_def)

lemma sample_transition:
  assumes "slot < u" and "u < fu" and "fu \<le> 1000"
  shows "transition sample_helios 1000 0 () (sample_store slot) [u] fu
    ((sample_store slot)\<lparr>finalized_header := sample_header fu\<rparr>)"
  using assms
  by (auto simp: transition_def run_Cons sample_helios_def sample_store_def sample_header_def)

lemma sample_run:
  assumes "slot < u" and "u < fu" and "fu \<le> 1000" and "fu mod 32 = 0"
  shows "\<exists>out. consensus_mpt_program sample_env sample_helios (sample_inputs slot [u] fu) = Inr out \<and>
    po_input_store_hash out = sample_hash slot \<and> po_output_store_hash out = sample_hash fu"
proof -
  from sample_queue_accepted obtain root where q: "verify_queue sample_env 1 sample_queue = Inr (1, root)"
    by blast
  let ?t = "(sample_store slot)\<lparr>finalized_header := sample_header fu\<rparr>"
  let ?ex = "\<lparr>ex_state_root = 1, ex_block_number = fu + 100, ex_rest = ()\<rparr>"
  have h: "sha256_hash_helios_store sample_helios ?t = Inr (sample_hash fu)"
    unfolding sample_hash_ok[symmetric] by (rule hash_frame) (simp add: committed_part_def sample_store_def)
  have "consensus_mpt_program sample_env sample_helios (sample_inputs slot [u] fu) =
      Inr (bridge_outputs sample_helios (sample_inputs slot [u] fu) ?t ?ex (sample_hash fu) 1 root)"
    unfolding consensus_mpt_program_stages
    using sample_transition[OF assms(1-3)] sample_hash_ok[of slot] h q assms(4)
    by (intro conjI exI[of _ ?t] exI[of _ ?ex] exI[of _ 1] exI[of _ root] exI[of _ "sample_hash fu"])
      (simp_all add: sample_inputs_def, simp_all add: sample_header_def)
  then show ?thesis by (simp add: bridge_outputs_def sample_inputs_def)
qed

section \<open>Properties\<close>

text \<open>C7: The bridge program, characterised. It succeeds exactly when the input store has the committed
  hash, every update verifies against the store the updates before it produced, the finality
  update verifies after them, the new finalized header has an execution payload, the queue
  batch verifies against that payload's state root, the new slot is a checkpoint slot and the new
  store can be hashed; and every public output is the corresponding part of the two stores.\<close>

theorem consensus_mpt_program_characterised:
  "consensus_mpt_program E H i = Inr out \<longleftrightarrow>
    (\<exists>t ex. sha256_hash_helios_store H (pi_store i) = Inr (pi_store_hash i) \<and>
       transition H (pi_expected_current_slot i) (pi_genesis_root i) (pi_forks i) (pi_store i)
         (pi_updates i) (pi_finality_update i) t \<and>
       hd_execution (finalized_header t) = Some ex \<and>
       verify_queue E (ex_state_root ex) (pi_queue_storage i) =
         Inr (po_output_queue_cursor out, po_verified_requests_root out) \<and>
       hd_slot (finalized_header t) mod 32 = 0 \<and>
       sha256_hash_helios_store H t = Inr (po_output_store_hash out) \<and>
       po_input_slot out = hd_slot (finalized_header (pi_store i)) \<and>
       po_input_store_hash out = pi_store_hash i \<and>
       po_output_slot out = hd_slot (finalized_header t) \<and>
       po_execution_state_root out = ex_state_root ex \<and>
       po_next_sync_committee_hash out = committee_hash H t \<and>
       po_proof_request_queue_address out = qs_proof_request_queue_address (pi_queue_storage i) \<and>
       po_input_queue_cursor out = qs_input_cursor (pi_queue_storage i) \<and>
       po_output_block_number out = ex_block_number ex)"
  by (rule consensus_mpt_program_ok)

text \<open>The two programs agree. Whatever the bridge program accepts, the consensus-only program accepts on
  the same light client inputs with the same public outputs; conversely an accepted consensus
  run that ends on a checkpoint slot and whose state root accepts the queue batch is an accepted
  bridge run.\<close>

theorem programs_agree:
  "consensus_mpt_program E H i = Inr out \<longleftrightarrow>
    consensus_program H (consensus_part i) = Inr (consensus_outputs_of out) \<and>
    verify_queue E (po_execution_state_root out) (pi_queue_storage i) =
      Inr (po_output_queue_cursor out, po_verified_requests_root out) \<and>
    po_output_slot out mod 32 = 0 \<and>
    po_proof_request_queue_address out = qs_proof_request_queue_address (pi_queue_storage i) \<and>
    po_input_queue_cursor out = qs_input_cursor (pi_queue_storage i)"
  by (rule consensus_part_iff)

text \<open>C16: Chaining. In a list of bridge proofs in which every proof's input store hash is the output store
  hash of the proof before it, every proof continues from the committed store of the one
  before it (finalized header, current and next committee), in particular its input slot is the
  previous output slot, unless the two stores named are a SHA-256 collision.\<close>

theorem bridge_proofs_chain:
  assumes "self_delimiting (rmp_header H)" and "self_delimiting (rmp_committee H)"
    and "list_all2 (\<lambda>i out. consensus_mpt_program E H i = Inr out) ins outs"
    and "successively (\<lambda>out out'. po_input_store_hash out' = po_output_store_hash out) outs"
    and "Suc k < length outs"
  shows "\<exists>t. post_of_inputs H (ins ! k) t \<and>
    (committed_part (pi_store (ins ! Suc k)) = committed_part t \<and>
       po_input_slot (outs ! Suc k) = po_output_slot (outs ! k) \<or>
     sha256_collision H t (pi_store (ins ! Suc k)))"
  using assms by (rule bridge_program.chain_all)

theorem bridge_proofs_chain_witness:
  "\<exists>out out' t. consensus_mpt_program sample_env sample_helios (sample_inputs 32 [40] 64) = Inr out \<and>
    consensus_mpt_program sample_env sample_helios (sample_inputs 64 [70] 96) = Inr out' \<and>
    post_of_inputs sample_helios (sample_inputs 32 [40] 64) t \<and>
    (committed_part (pi_store (sample_inputs 64 [70] 96)) = committed_part t \<and>
       po_input_slot out' = po_output_slot out \<or>
     sha256_collision sample_helios t (pi_store (sample_inputs 64 [70] 96)))"
proof -
  from sample_run[of 32 40 64] sample_run[of 64 70 96] obtain out out' where
    ok: "consensus_mpt_program sample_env sample_helios (sample_inputs 32 [40] 64) = Inr out"
      "consensus_mpt_program sample_env sample_helios (sample_inputs 64 [70] 96) = Inr out'"
    and link: "po_input_store_hash out' = po_output_store_hash out" by auto
  from bridge_proofs_chain[OF sample_helios_delimiting, of sample_env
      "[sample_inputs 32 [40] 64, sample_inputs 64 [70] 96]" "[out, out']" 0] ok link
  show ?thesis by auto
qed


end
