(* ===== verification/Nori_Rpc.thy ===== *)
theory Nori_Rpc
  imports Nori_Prelude
begin

text \<open>
  \<open>nori/src/rpcs/mod.rs\<close>: the two ways of querying several providers. A query of one provider either
  completes with a result or runs into the timeout; the order in which concurrent queries
  complete is a parameter (\<open>order\<close>), so the theorems hold for every interleaving.
  The locale \<open>provider_query\<close> is what the callers rely on; both functions interpret it.
\<close>

section \<open>Queries\<close>

datatype 'r reply = Reply "string + 'r" | TimedOut

text \<open>\<open>timeout(d, fut).await.map_err(..)?\<close>\<close>

fun with_timeout :: "'r reply \<Rightarrow> string + 'r" where
  "with_timeout (Reply r) = r"
| "with_timeout TimedOut = Inl ''Provider timed out''"

text \<open>
  \<open>futures::select_ok\<close> on the results in the order in which they complete: the first success, or
  the last error. It aborts on an empty list, which both callers exclude.
\<close>

fun select_ok :: "(string + 'r) list \<Rightarrow> string + 'r" where
  "select_ok [] = Inl ''select_ok: empty''"
| "select_ok (r # rs) =
     (case r of Inr x \<Rightarrow> Inr x | Inl e \<Rightarrow> if rs = [] then Inl e else select_ok rs)"

text \<open>
  The results of concurrent queries in the order in which they complete: first those named by
  \<open>order\<close> (their positions), then the others from left to right. Every permutation is some
  \<open>order\<close>.
\<close>

definition completion_order :: "nat list \<Rightarrow> nat \<Rightarrow> nat list" where
  "completion_order order n =
     (let named = remdups (filter (\<lambda>k. k < n) order)
      in named @ filter (\<lambda>k. k \<notin> set named) [0..<n])"

definition complete_in :: "nat list \<Rightarrow> 'a list \<Rightarrow> 'a list" where
  "complete_in order xs = map (nth xs) (completion_order order (length xs))"

definition query_with_fallback ::
    "nat list \<Rightarrow> ('p \<Rightarrow> 'r reply) \<Rightarrow> 'p \<Rightarrow> 'p list \<Rightarrow> string + 'r" where
  "query_with_fallback order f principal_provider backup_providers =
     (case f principal_provider of
        Reply (Inr result) \<Rightarrow> Inr result
      | _ \<Rightarrow>
          if backup_providers = []
          then Inl ''Principal provider failed and no backups available.''
          else let backup_futures = map (\<lambda>provider. with_timeout (f provider)) backup_providers
               in case select_ok (complete_in order backup_futures) of
                    Inr result \<Rightarrow> Inr result
                  | Inl e \<Rightarrow> Inl (''All backups failed: '' @ e))"

definition multiplex ::
    "nat list \<Rightarrow> ('p \<Rightarrow> 'r reply) \<Rightarrow> 'p list \<Rightarrow> string + 'r" where
  "multiplex order f providers =
     (if providers = [] then Inl ''No providers available.''
      else let futs = map (\<lambda>client. with_timeout (f client)) providers
           in case select_ok (complete_in order futs) of
                Inr result \<Rightarrow> Inr result
              | Inl e \<Rightarrow> Inl (''All multiplexed requests failed: '' @ e))"

section \<open>Selection\<close>

lemma completion_order_perm:
  "distinct (completion_order order n)" "set (completion_order order n) = {0..<n}"
  by (auto simp: completion_order_def Let_def)

lemma completion_order_any:
  assumes "distinct ks" and "set ks = {0..<n}"
  shows "completion_order ks n = ks"
  using assms by (auto simp: completion_order_def Let_def distinct_remdups_id filter_empty_conv)

lemma set_complete_in [simp]: "set (complete_in order xs) = set xs"
  by (simp add: complete_in_def completion_order_perm(2)) (metis atLeast0LessThan nth_image order_refl take_all_iff)

lemma select_ok_Inr: "select_ok rs = Inr x \<Longrightarrow> Inr x \<in> set rs"
  by (induction rs) (auto split: sum.splits if_splits)

lemma select_ok_success: "Inr x \<in> set rs \<Longrightarrow> \<exists>y. select_ok rs = Inr y"
  by (induction rs) (auto split: sum.splits if_splits)

lemma select_ok_first:
  "select_ok rs = Inr x \<longleftrightarrow> (\<exists>k < length rs. rs ! k = Inr x \<and> (\<forall>j < k. \<exists>e. rs ! j = Inl e))"
proof (induction rs)
  case Nil
  then show ?case by simp
next
  case (Cons r rs)
  show ?case
  proof (cases r)
    case (Inl e)
    then show ?thesis using Cons by (cases rs) (auto simp: Ex_less_Suc2 All_less_Suc2)
  next
    case (Inr y)
    then show ?thesis by (auto simp: Ex_less_Suc2 All_less_Suc2)
  qed
qed

section \<open>What callers rely on\<close>

text \<open>
  A query over several providers returns only what one of them answered, and returns whenever
  one of them answers.
\<close>

locale provider_query =
  fixes f :: "'p \<Rightarrow> 'r reply"
    and run :: "'p list \<Rightarrow> string + 'r"
  assumes run_sound: "run ps = Inr x \<Longrightarrow> \<exists>p \<in> set ps. f p = Reply (Inr x)"
    and run_live: "p \<in> set ps \<Longrightarrow> f p = Reply (Inr x) \<Longrightarrow> \<exists>y. run ps = Inr y"
begin

lemma run_ok_iff: "is_ok (run ps) \<longleftrightarrow> (\<exists>p \<in> set ps. \<exists>x. f p = Reply (Inr x))"
  using run_sound run_live unfolding is_ok_iff by blast

text \<open>What every successful answer satisfies, the result satisfies.\<close>

lemma run_invariant:
  "run ps = Inr x \<Longrightarrow> (\<And>p y. p \<in> set ps \<Longrightarrow> f p = Reply (Inr y) \<Longrightarrow> P y) \<Longrightarrow> P x"
  using run_sound by blast

text \<open>Providers that agree leave no choice to the schedule.\<close>

lemma run_agreed:
  assumes "\<And>p y. p \<in> set ps \<Longrightarrow> f p = Reply (Inr y) \<Longrightarrow> y = x" and "q \<in> set ps" and "f q = Reply (Inr x)"
  shows "run ps = Inr x"
  using run_live[OF assms(2,3)] run_sound assms(1) by blast

end

lemma with_timeout_Inr: "with_timeout r = Inr x \<longleftrightarrow> r = Reply (Inr x)"
  by (cases r) auto

lemma select_completed:
  "select_ok (complete_in order (map (\<lambda>p. with_timeout (f p)) ps)) = Inr x \<Longrightarrow>
     \<exists>p \<in> set ps. f p = Reply (Inr x)"
  by (drule select_ok_Inr) (metis (mono_tags, lifting) image_iff set_complete_in set_map with_timeout_Inr)

lemma select_completed_live:
  assumes "p \<in> set ps" and "f p = Reply (Inr x)"
  shows "\<exists>y. select_ok (complete_in order (map (\<lambda>p. with_timeout (f p)) ps)) = Inr y"
proof (rule select_ok_success)
  have "Inr x = with_timeout (f p)" using assms(2) by simp
  then show "Inr x \<in> set (complete_in order (map (\<lambda>p. with_timeout (f p)) ps))"
    using assms(1) by auto
qed

text \<open>Both functions as queries of a nonempty list, the principal first.\<close>

definition fallback_all :: "nat list \<Rightarrow> ('p \<Rightarrow> 'r reply) \<Rightarrow> 'p list \<Rightarrow> string + 'r" where
  "fallback_all order f ps =
     (case ps of [] \<Rightarrow> Inl ''no principal provider'' | p # qs \<Rightarrow> query_with_fallback order f p qs)"

interpretation fallback: provider_query f "fallback_all order f" for f order
proof
  show "\<exists>p \<in> set ps. f p = Reply (Inr x)" if "fallback_all order f ps = Inr x" for ps x
    using that
    by (cases ps) (auto simp: fallback_all_def query_with_fallback_def Let_def
        split: reply.splits sum.splits if_splits dest: select_completed)
  show "\<exists>y. fallback_all order f ps = Inr y" if p: "p \<in> set ps" and x: "f p = Reply (Inr x)" for p ps x
  proof (cases ps)
    case Nil
    with p show ?thesis by simp
  next
    case (Cons q qs)
    show ?thesis
    proof (cases "\<exists>y. f q = Reply (Inr y)")
      case True
      with Cons show ?thesis by (auto simp: fallback_all_def query_with_fallback_def)
    next
      case False
      with p x Cons have q: "p \<in> set qs" by auto
      obtain y where "select_ok (complete_in order (map (\<lambda>p. with_timeout (f p)) qs)) = Inr y"
        using select_completed_live[of p qs f x order] q x by blast
      with False q Cons show ?thesis
        by (cases "f q") (auto simp: fallback_all_def query_with_fallback_def Let_def split: sum.splits)
    qed
  qed
qed

interpretation mplex: provider_query f "multiplex order f" for f order
proof
  show "\<exists>p \<in> set ps. f p = Reply (Inr x)" if "multiplex order f ps = Inr x" for ps x
    using that by (auto simp: multiplex_def Let_def split: sum.splits if_splits dest: select_completed)
  show "\<exists>y. multiplex order f ps = Inr y" if p: "p \<in> set ps" and x: "f p = Reply (Inr x)" for p ps x
  proof -
    obtain y where "select_ok (complete_in order (map (\<lambda>p. with_timeout (f p)) ps)) = Inr y"
      using select_completed_live[of p ps f x order] p x by blast
    with p show ?thesis by (auto simp: multiplex_def Let_def)
  qed
qed

section \<open>Properties\<close>

text \<open>Querying with a fallback. For every order in which the backups complete: an answer of the
  principal is returned whatever the backups say; a result is returned exactly when some provider
  answers within the timeout; and what is returned is an answer of one of the providers.\<close>

theorem query_with_fallback_correct:
  "(f p = Reply (Inr x) \<longrightarrow> query_with_fallback order f p ps = Inr x) \<and>
   (is_ok (query_with_fallback order f p ps) \<longleftrightarrow> (\<exists>q \<in> set (p # ps). \<exists>y. f q = Reply (Inr y))) \<and>
   (query_with_fallback order f p ps = Inr y \<longrightarrow> (\<exists>q \<in> set (p # ps). f q = Reply (Inr y)))"
  using fallback.run_ok_iff[of order f "p # ps"] fallback.run_sound[of order f "p # ps" y]
  by (auto simp: fallback_all_def query_with_fallback_def)

theorem query_with_fallback_correct_witness:
  "query_with_fallback [1, 0] (\<lambda>p :: nat. if p = 0 then TimedOut else Reply (Inr p)) 0 [7, 8] = Inr 8 \<and>
   is_ok (query_with_fallback [1, 0] (\<lambda>p :: nat. if p = 0 then TimedOut else Reply (Inr p)) 0 [7, 8])"
  using query_with_fallback_correct[of "\<lambda>p :: nat. if p = 0 then TimedOut else Reply (Inr p)" 0 8 "[1, 0]" "[7, 8]" 8]
  by (simp add: query_with_fallback_def complete_in_def completion_order_def)

text \<open>Multiplexing. For every completion order: a result is returned exactly when some provider
  answers within the timeout, it is the answer that completes first among the successful ones, and
  no providers at all is an error.\<close>

theorem multiplex_correct:
  "(is_ok (multiplex order f ps) \<longleftrightarrow> (\<exists>q \<in> set ps. \<exists>y. f q = Reply (Inr y))) \<and>
   (multiplex order f ps = Inr x \<longleftrightarrow>
     (\<exists>k < length ps. complete_in order (map (\<lambda>p. with_timeout (f p)) ps) ! k = Inr x \<and>
       (\<forall>j < k. \<not> is_ok (complete_in order (map (\<lambda>p. with_timeout (f p)) ps) ! j))))"
proof -
  have len: "length (complete_in order (map (\<lambda>p. with_timeout (f p)) ps)) = length ps"
    using distinct_card[OF completion_order_perm(1)[of order "length ps"]]
    by (simp add: complete_in_def completion_order_perm(2))
  have "multiplex order f ps = Inr x \<longleftrightarrow>
      select_ok (complete_in order (map (\<lambda>p. with_timeout (f p)) ps)) = Inr x"
    using len by (cases "ps = []") (auto simp: multiplex_def Let_def split: sum.splits)
  then show ?thesis
    using mplex.run_ok_iff[of order f ps]
    by (simp add: select_ok_first len not_is_ok_iff)
qed

theorem multiplex_correct_witness:
  "multiplex [2, 0] (\<lambda>p :: nat. if p = 5 then Reply (Inl ''down'') else Reply (Inr p)) [3, 4, 5] = Inr 3"
  using multiplex_correct[of "[2, 0]" "\<lambda>p :: nat. if p = 5 then Reply (Inl ''down'') else Reply (Inr p)" "[3, 4, 5]" 3]
  by (simp add: multiplex_def complete_in_def completion_order_def)

end
