(* ===== verification/Nori_Env.thy ===== *)
theory Nori_Env
  imports Nori_Prelude
begin

text \<open>
  Reading configuration from the process environment: \<open>env::var\<close> is a partial map; the pieces of the
  standard library the sources use on its values (\<open>str::split\<close>, \<open>str::trim\<close>, \<open>str::parse\<close>
  for integers and booleans) are modelled on ASCII strings. \<open>proof_queue_address\<close> is
  \<open>nori/src/contract.rs\<close>; the parsers of addresses and URLs (packages alloy-primitives, url) are
  parameters.
\<close>

type_synonym env = "string \<rightharpoonup> string"

section \<open>Strings\<close>

fun split_on :: "char \<Rightarrow> string \<Rightarrow> string list" where
  "split_on c [] = [[]]"
| "split_on c (x # xs) =
     (if x = c then [] # split_on c xs
      else case split_on c xs of [] \<Rightarrow> [[x]] | y # ys \<Rightarrow> (x # y) # ys)"

definition is_space :: "char \<Rightarrow> bool" where
  "is_space c \<longleftrightarrow> c \<in> {CHR '' '', CHR 0x09, CHR 0x0A, CHR 0x0B, CHR 0x0C, CHR 0x0D}"

definition trim :: "string \<Rightarrow> string" where
  "trim s = rev (dropWhile is_space (rev (dropWhile is_space s)))"

fun digit_value :: "char \<Rightarrow> nat option" where
  "digit_value c =
     (let n = of_char c :: nat in if 48 \<le> n \<and> n \<le> 57 then Some (n - 48) else None)"

fun digits_value :: "nat \<Rightarrow> string \<Rightarrow> nat option" where
  "digits_value acc [] = Some acc"
| "digits_value acc (c # cs) =
     (case digit_value c of None \<Rightarrow> None | Some d \<Rightarrow> digits_value (10 * acc + d) cs)"

text \<open>\<open>str::parse\<close> of an unsigned integer of the given width: an optional sign, then digits.\<close>

definition parse_uint :: "nat \<Rightarrow> string \<Rightarrow> string + nat" where
  "parse_uint width s =
     (let ds = (case s of [] \<Rightarrow> [] | c # cs \<Rightarrow> if c = CHR ''+'' then cs else s)
      in if s = [] then Inl ''cannot parse integer from empty string''
         else if ds = [] then Inl ''invalid digit found in string''
         else case digits_value 0 ds of
                None \<Rightarrow> Inl ''invalid digit found in string''
              | Some n \<Rightarrow> if n < 2 ^ width then Inr n else Inl ''number too large to fit in target type'')"

definition parse_u64 :: "string \<Rightarrow> string + u64" where
  "parse_u64 s = map_res of_nat (parse_uint 64 s)"

definition parse_bool :: "string \<Rightarrow> string + bool" where
  "parse_bool s =
     (if s = ''true'' then Inr True else if s = ''false'' then Inr False
      else Inl ''provided string was not `true` or `false`'')"

section \<open>Variables\<close>

text \<open>\<open>match env::var(name) { Ok(val) => val.parse().with_context(..)?, Err(_) => default }\<close>\<close>

definition var_or :: "env \<Rightarrow> string \<Rightarrow> (string \<Rightarrow> string + 'a) \<Rightarrow> 'a \<Rightarrow> string + 'a" where
  "var_or env name parse dflt =
     (case env name of
        None \<Rightarrow> Inr dflt
      | Some val \<Rightarrow> map_err (\<lambda>e. ''Failed to parse '' @ name @ '': '' @ e) (parse val))"

text \<open>\<open>env::var(name).ok().map(parse).transpose()?\<close>\<close>

definition var_opt :: "env \<Rightarrow> string \<Rightarrow> (string \<Rightarrow> string + 'a) \<Rightarrow> string + 'a option" where
  "var_opt env name parse =
     (case env name of
        None \<Rightarrow> Inr None
      | Some val \<Rightarrow> map_res Some (map_err (\<lambda>e. ''Failed to parse '' @ name @ '': '' @ e) (parse val)))"

text \<open>\<open>split(',').map(trim).filter(nonempty).filter_map(parse.ok())\<close>: invalid entries are skipped.\<close>

fun keep_ok :: "(string \<Rightarrow> string + 'u) \<Rightarrow> string list \<Rightarrow> 'u list" where
  "keep_ok parse [] = []"
| "keep_ok parse (s # ss) =
     (case parse s of Inr u \<Rightarrow> u # keep_ok parse ss | Inl _ \<Rightarrow> keep_ok parse ss)"

definition url_list :: "(string \<Rightarrow> string + 'u) \<Rightarrow> string \<Rightarrow> 'u list" where
  "url_list parse_url s =
     keep_ok parse_url (filter (\<lambda>s. s \<noteq> []) (map trim (split_on (CHR '','') s)))"

definition get_proof_queue_address :: "(string \<Rightarrow> string + address) \<Rightarrow> env \<Rightarrow> string + address" where
  "get_proof_queue_address parse_address env =
     bind_res (ok_or ''Missing NORI_PROOF_QUEUE_ADDRESS in environment''
       (env ''NORI_PROOF_QUEUE_ADDRESS'')) (\<lambda>val.
     map_err (\<lambda>_. ''Invalid Ethereum address format'') (parse_address val))"

section \<open>Lemmas\<close>

lemma var_or_eq_Inr:
  "var_or env name parse d = Inr v \<longleftrightarrow>
     (env name = None \<and> v = d) \<or> (\<exists>s. env name = Some s \<and> parse s = Inr v)"
  by (auto simp: var_or_def split: option.splits)

lemma var_opt_eq_Inr:
  "var_opt env name parse = Inr v \<longleftrightarrow>
     (env name = None \<and> v = None) \<or> (\<exists>s x. env name = Some s \<and> parse s = Inr x \<and> v = Some x)"
  by (auto simp: var_opt_def map_res_eq_Inr split: option.splits)

lemma keep_ok_set: "set (keep_ok parse ss) = {u. \<exists>s \<in> set ss. parse s = Inr u}"
  by (induction ss) (auto split: sum.splits)

lemma parse_uint_bound: "parse_uint w s = Inr n \<Longrightarrow> n < 2 ^ w"
  by (auto simp: parse_uint_def Let_def split: if_splits option.splits)

lemma split_on_nonempty: "split_on c s \<noteq> []"
  by (induction s) (auto split: list.splits)

lemma split_on_no_sep: "t \<in> set (split_on c s) \<Longrightarrow> c \<notin> set t"
  by (induction s arbitrary: t) (auto split: list.splits if_splits)

end
