(* ===== verification/Nori_Text.thy ===== *)
theory Nori_Text
  imports Nori_Env
begin

text \<open>
  Texts the program writes with \<open>format!\<close> and \<open>write!\<close>: decimal integers, quoted strings (\<open>Debug\<close> of \<open>str\<close>) and when such
  texts can be read back. A text field is unambiguous inside a longer text if its values have different texts made of
  characters of one class and the next character is of another (locale \<open>delimited_text\<close>).
\<close>

section \<open>Decimal integers\<close>

text \<open>\<open>Display\<close> of an unsigned integer.\<close>

fun show_nat :: "nat \<Rightarrow> string" where
  "show_nat n = (if n < 10 then [char_of (48 + n)] else show_nat (n div 10) @ [char_of (48 + n mod 10)])"

declare show_nat.simps [simp del]

definition is_digit :: "char \<Rightarrow> bool" where
  "is_digit c \<longleftrightarrow> digit_value c \<noteq> None"

lemma digits_value_append:
  "digits_value acc (xs @ ys) = (case digits_value acc xs of None \<Rightarrow> None | Some a \<Rightarrow> digits_value a ys)"
  by (induction xs arbitrary: acc) (auto split: option.splits)

lemma digit_char: "d < 10 \<Longrightarrow> digit_value (char_of (48 + d)) = Some d"
  by (simp add: Let_def)

lemma show_nat_value: "digits_value 0 (show_nat n) = Some n"
proof (induction n rule: less_induct)
  case (less n)
  show ?case
  proof (cases "n < 10")
    case True
    then show ?thesis
      using digit_char[of n] by (subst show_nat.simps) (simp del: digit_value.simps)
  next
    case False
    then have "digits_value 0 (show_nat (n div 10)) = Some (n div 10)" by (intro less) simp
    with False digit_char[of "n mod 10"] show ?thesis
      by (subst show_nat.simps) (simp add: digits_value_append del: digit_value.simps)
  qed
qed

lemma digits_value_digits: "digits_value acc s = Some n \<Longrightarrow> c \<in> set s \<Longrightarrow> is_digit c"
  by (induction s arbitrary: acc) (auto simp: is_digit_def simp del: digit_value.simps split: option.splits)

lemma show_nat_digits: "c \<in> set (show_nat n) \<Longrightarrow> is_digit c"
  using digits_value_digits[OF show_nat_value] .

section \<open>Fields of a text\<close>

locale delimited_text =
  fixes enc :: "'a \<Rightarrow> string" and class_of :: "char \<Rightarrow> bool"
  assumes enc_class: "c \<in> set (enc x) \<Longrightarrow> class_of c"
    and enc_inj: "enc x = enc y \<Longrightarrow> x = y"
begin

lemma enc_eq [simp]: "enc x = enc y \<longleftrightarrow> x = y"
  using enc_inj by blast

lemma field_eq:
  assumes "\<not> class_of c" and "\<not> class_of d"
  shows "enc x @ c # xs = enc y @ d # ys \<longleftrightarrow> x = y \<and> c = d \<and> xs = ys"
proof
  assume eq: "enc x @ c # xs = enc y @ d # ys"
  have "takeWhile class_of (enc x @ c # xs) = enc x" "takeWhile class_of (enc y @ d # ys) = enc y"
    using assms enc_class by (simp_all add: takeWhile_append)
  with eq have "enc x = enc y" by simp
  with eq show "x = y \<and> c = d \<and> xs = ys" by simp
qed simp

end

interpretation dec: delimited_text show_nat is_digit
proof
  show "show_nat m = show_nat n \<Longrightarrow> m = n" for m n
    by (drule arg_cong[of _ _ "digits_value 0"]) (simp only: show_nat_value option.inject)
qed (rule show_nat_digits)

abbreviation show_word :: "'a::len word \<Rightarrow> string" where
  "show_word w \<equiv> show_nat (unat w)"

interpretation dec_word: delimited_text "\<lambda>w :: 'a::len word. show_word w" is_digit
  by unfold_locales (use show_nat_digits in \<open>auto intro: unsigned_word_eqI\<close>)

section \<open>Quoted strings\<close>

text \<open>\<open>Debug\<close> of \<open>str\<close> on single-byte characters; bytes of longer characters are written as they are.\<close>

fun show_hex :: "nat \<Rightarrow> string" where
  "show_hex n = (if n < 16 then [''0123456789abcdef'' ! n] else show_hex (n div 16) @ [''0123456789abcdef'' ! (n mod 16)])"

declare show_hex.simps [simp del]

definition BACKSLASH :: char where
  "BACKSLASH = CHR 0x5C"

definition escape_debug :: "char \<Rightarrow> string" where
  "escape_debug c =
     (let n = of_char c :: nat in
      if n = 0 then [BACKSLASH, CHR ''0''] else if n = 9 then [BACKSLASH, CHR ''t'']
      else if n = 10 then [BACKSLASH, CHR ''n''] else if n = 13 then [BACKSLASH, CHR ''r'']
      else if n = 34 \<or> n = 92 then [BACKSLASH, c]
      else if n < 32 \<or> n = 127 then BACKSLASH # ''u{'' @ show_hex n @ ''}''
      else [c])"

definition debug_str :: "string \<Rightarrow> string" where
  "debug_str s = CHR 0x22 # concat (map escape_debug s) @ [CHR 0x22]"

fun hex_value :: "char \<Rightarrow> nat option" where
  "hex_value c = (let n = of_char c :: nat in
     if 48 \<le> n \<and> n \<le> 57 then Some (n - 48) else if 97 \<le> n \<and> n \<le> 102 then Some (n - 87) else None)"

fun hexes_value :: "nat \<Rightarrow> string \<Rightarrow> nat option" where
  "hexes_value acc [] = Some acc"
| "hexes_value acc (c # cs) = (case hex_value c of None \<Rightarrow> None | Some d \<Rightarrow> hexes_value (16 * acc + d) cs)"

lemma hexes_value_append:
  "hexes_value acc (xs @ ys) = (case hexes_value acc xs of None \<Rightarrow> None | Some a \<Rightarrow> hexes_value a ys)"
  by (induction xs arbitrary: acc) (auto split: option.splits)

lemma hex_char: "d < 16 \<Longrightarrow> hex_value (''0123456789abcdef'' ! d) = Some d"
  by (auto simp: less_Suc_eq eval_nat_numeral)

lemma show_hex_value: "hexes_value 0 (show_hex n) = Some n"
proof (induction n rule: less_induct)
  case (less n)
  show ?case
  proof (cases "n < 16")
    case True
    then show ?thesis using hex_char[of n] by (subst show_hex.simps) (simp del: hex_value.simps)
  next
    case False
    then have "hexes_value 0 (show_hex (n div 16)) = Some (n div 16)" by (intro less) simp
    with False hex_char[of "n mod 16"] show ?thesis
      by (subst show_hex.simps) (simp add: hexes_value_append del: hex_value.simps)
  qed
qed

lemma hexes_value_hexes: "hexes_value acc s = Some n \<Longrightarrow> c \<in> set s \<Longrightarrow> hex_value c \<noteq> None"
  by (induction s arbitrary: acc) (auto simp del: hex_value.simps split: option.splits)

interpretation hexa: delimited_text show_hex "\<lambda>c. hex_value c \<noteq> None"
proof
  show "show_hex m = show_hex n \<Longrightarrow> m = n" for m n
    by (drule arg_cong[of _ _ "hexes_value 0"]) (simp only: show_hex_value option.inject)
qed (rule hexes_value_hexes[OF show_hex_value])

lemma of_char_inj: "(of_char c :: nat) = of_char d \<Longrightarrow> c = d"
  by (metis char_of_char)

lemma escape_debug_cons:
  assumes "escape_debug c @ xs = escape_debug d @ ys"
  shows "c = d \<and> xs = ys"
  using assms
  by (auto simp: escape_debug_def BACKSLASH_def Let_def hexa.field_eq[OF _ _, simplified] split: if_splits)
    (rule of_char_inj, simp)+

lemma escape_debug_nonempty: "escape_debug c \<noteq> []"
  by (simp add: escape_debug_def Let_def)

lemma escaped_eq: "concat (map escape_debug s) = concat (map escape_debug t) \<longleftrightarrow> s = t"
proof
  assume "concat (map escape_debug s) = concat (map escape_debug t)"
  then show "s = t"
  proof (induction s arbitrary: t)
    case Nil
    then show ?case by (cases t) (simp_all add: escape_debug_nonempty)
  next
    case (Cons c s)
    then obtain d t' where t: "t = d # t'" by (cases t) (simp_all add: escape_debug_nonempty)
    with Cons.prems have "escape_debug c @ concat (map escape_debug s) = escape_debug d @ concat (map escape_debug t')" by simp
    from escape_debug_cons[OF this] Cons.IH[of t'] t show ?case by simp
  qed
qed simp

lemma debug_str_eq [simp]: "debug_str s = debug_str t \<longleftrightarrow> s = t"
  by (simp add: debug_str_def escaped_eq)

end
