(* ===== verification/Nori_Execution_Rpc.thy ===== *)
theory Nori_Execution_Rpc
  imports Nori_Consensus Nori_Rpc Nori_Text
begin

text \<open>
  \<open>nori/src/rpcs/execution/http.rs\<close>: the host builds the queue witness for the guest from
  \<open>eth_getProof\<close> and \<open>eth_getStorageAt\<close>. The provider (package alloy) is the record
  \<open>execution_rpc\<close>, whose calls pass a state \<open>'w\<close> along, so that a retry may see another answer; a
  \<open>HashMap\<close> that is iterated is its list of entries in an order given by the parameter
  \<open>hash_order\<close>.
\<close>

section \<open>Provider\<close>

record slot_response =
  sr_key :: b256
  sr_value :: u256
  sr_proof :: "bytes list"

record account_response =
  ar_address :: address
  ar_nonce :: u64
  ar_balance :: u256
  ar_storage_hash :: b256
  ar_code_hash :: b256
  ar_account_proof :: "bytes list"
  ar_storage_proof :: "slot_response list"

record 'w execution_rpc =
  rpc_get_proof :: "address \<Rightarrow> b256 list \<Rightarrow> u64 \<Rightarrow> 'w \<Rightarrow> (string + account_response) \<times> 'w"
  rpc_get_storage_at :: "address \<Rightarrow> b256 \<Rightarrow> u64 \<Rightarrow> 'w \<Rightarrow> (string + u256) \<times> 'w"
  rpc_sleep :: "nat \<Rightarrow> 'w \<Rightarrow> 'w"

text \<open>Computations that talk to the provider.\<close>

type_synonym ('w, 'a) io = "'w \<Rightarrow> (string fault + 'a) \<times> 'w"

definition bind_io :: "('w, 'a) io \<Rightarrow> ('a \<Rightarrow> ('w, 'b) io) \<Rightarrow> ('w, 'b) io" where
  "bind_io m f w = (case m w of (Inl e, w') \<Rightarrow> (Inl e, w') | (Inr x, w') \<Rightarrow> f x w')"

definition lift_io :: "string fault + 'a \<Rightarrow> ('w, 'a) io" where
  "lift_io r w = (r, w)"

fun traverse_io :: "('a \<Rightarrow> ('w, 'b) io) \<Rightarrow> 'a list \<Rightarrow> ('w, 'b list) io" where
  "traverse_io f [] = lift_io (Inr [])"
| "traverse_io f (x # xs) =
     bind_io (f x) (\<lambda>y. bind_io (traverse_io f xs) (\<lambda>ys. lift_io (Inr (y # ys))))"

section \<open>Fetching proofs\<close>

definition MAX_RETRIES :: nat where
  "MAX_RETRIES = 3"

definition RETRY_BASE_DELAY :: nat where
  "RETRY_BASE_DELAY = 1"

text \<open>
  The retry loop on one chunk. The first argument is \<open>MAX_RETRIES - retries\<close>, the number of retries
  that are left.
\<close>

fun fetch_chunk ::
    "nat \<Rightarrow> 'w execution_rpc \<Rightarrow> address \<Rightarrow> b256 list \<Rightarrow> u64 \<Rightarrow> ('w, account_response) io" where
  "fetch_chunk 0 R addr chunk block w =
     (case rpc_get_proof R addr chunk block w of
        (Inr proof, w') \<Rightarrow> (Inr proof, w')
      | (Inl e, w') \<Rightarrow> (Inl (Failed (''ExecutionHttp RPC error: '' @ e)), w'))"
| "fetch_chunk (Suc left) R addr chunk block w =
     (case rpc_get_proof R addr chunk block w of
        (Inr proof, w') \<Rightarrow> (Inr proof, w')
      | (Inl e, w') \<Rightarrow>
          let delay = RETRY_BASE_DELAY * 2 ^ (MAX_RETRIES - Suc left)
          in fetch_chunk left R addr chunk block (rpc_sleep R delay w'))"

fun merge_response :: "account_response option \<Rightarrow> account_response \<Rightarrow> account_response option" where
  "merge_response None proof = Some proof"
| "merge_response (Some acc) proof =
     Some (acc\<lparr>ar_storage_proof := ar_storage_proof acc @ ar_storage_proof proof\<rparr>)"

fun fetch_chunks ::
    "'w execution_rpc \<Rightarrow> address \<Rightarrow> u64 \<Rightarrow> b256 list list \<Rightarrow> account_response option
      \<Rightarrow> ('w, account_response option) io" where
  "fetch_chunks R addr block [] merged = lift_io (Inr merged)"
| "fetch_chunks R addr block (chunk # rest) merged =
     bind_io (fetch_chunk MAX_RETRIES R addr chunk block) (\<lambda>proof.
     fetch_chunks R addr block rest (merge_response merged proof))"

definition proof_chunks :: "nat \<Rightarrow> b256 list \<Rightarrow> b256 list list" where
  "proof_chunks chunk_limit storage_keys =
     (let chunk_limit = max chunk_limit 1
      in if storage_keys = [] then [[]] else chunks chunk_limit storage_keys)"

definition get_proof ::
    "'w execution_rpc \<Rightarrow> address \<Rightarrow> b256 list \<Rightarrow> u64 \<Rightarrow> nat \<Rightarrow> ('w, account_response) io" where
  "get_proof R addr storage_keys block chunk_limit =
     bind_io (fetch_chunks R addr block (proof_chunks chunk_limit storage_keys) None) (\<lambda>merged.
     lift_io (case merged of
        Some proof \<Rightarrow> Inr proof
      | None \<Rightarrow> Inl (Panicked (UnwrapFailed ''at least one request is always issued''))))"

definition get_storage_word ::
    "'w execution_rpc \<Rightarrow> address \<Rightarrow> b256 \<Rightarrow> u64 \<Rightarrow> ('w, u256) io" where
  "get_storage_word R addr key block w =
     (case rpc_get_storage_at R addr key block w of
        (Inr v, w') \<Rightarrow> (Inr v, w')
      | (Inl e, w') \<Rightarrow> (Inl (Failed (''ExecutionHttp RPC error reading storage: '' @ e)), w'))"

definition get_queue_head_at :: "'w execution_rpc \<Rightarrow> address \<Rightarrow> u64 \<Rightarrow> ('w, u64) io" where
  "get_queue_head_at R proof_queue_address block =
     (let head_key = storage_slot_of_index QUEUE_HEAD_STORAGE_INDEX in
      bind_io (get_storage_word R proof_queue_address head_key block) (\<lambda>v.
      lift_io (if unat v < 2 ^ 64 then Inr (ucast v) else Inl (Failed ''Queue head exceeds u64''))))"

section \<open>Building the witness\<close>

definition response_account :: "account_response \<Rightarrow> trie_account" where
  "response_account proof =
     \<lparr>ta_nonce = ar_nonce proof, ta_balance = ar_balance proof,
      ta_storage_root = ar_storage_hash proof, ta_code_hash = ar_code_hash proof\<rparr>"

definition account_witness ::
    "('f, 's) guest_env \<Rightarrow> account_response \<Rightarrow> b256 \<Rightarrow> string fault + trie_account option" where
  "account_witness E proof execution_state_root =
     (let acct = response_account proof;
          address_nibbles = account_path E (ar_address proof)
      in if is_ok (env_verify_proof E execution_state_root address_nibbles
              (Some (env_rlp_account E acct)) (ar_account_proof proof))
         then Inr (Some acct)
         else bind_res
           (map_err (\<lambda>e. Failed (''Account proof verifies neither as present nor absent: '' @ e))
             (env_verify_proof E execution_state_root address_nibbles None (ar_account_proof proof)))
           (\<lambda>_. Inr None))"

text \<open>\<open>collect\<close> into a \<open>HashMap\<close>: a later element for the same key replaces an earlier one.\<close>

definition words_by_key :: "slot_response list \<Rightarrow> (b256 \<rightharpoonup> u256 \<times> bytes list)" where
  "words_by_key slots = map_of (rev (map (\<lambda>s. (sr_key s, (sr_value s, sr_proof s))) slots))"

definition word_at ::
    "string \<Rightarrow> (b256 \<rightharpoonup> u256 \<times> bytes list) \<Rightarrow> b256 \<Rightarrow> string fault + u256 \<times> bytes list" where
  "word_at msg queue_words key = ok_or (Failed msg) (queue_words key)"

definition entry_word_keys :: "('f, 's) guest_env \<Rightarrow> u64 \<Rightarrow> b256 list" where
  "entry_word_keys E idx =
     (let base = mapping_entry_location (env_keccak256 E) (ucast idx) QUEUE_REQUESTS_STORAGE_INDEX
      in base # map (\<lambda>word_index. struct_word_slot base (of_nat word_index)) [1..<QUEUE_ENTRY_WORDS])"

definition assemble_entry ::
    "(b256 \<rightharpoonup> u256 \<times> bytes list) \<Rightarrow> b256 list \<Rightarrow> string fault + queue_entry_proof" where
  "assemble_entry queue_words keys =
     bind_res (traverse_res (word_at ''Queue proof missing storage key'' queue_words) keys) (\<lambda>words.
     case words of
       [w0, w1, w2, w3, w4] \<Rightarrow>
         let target = from_be_bytes (slice_at 12 32 (to_be_bytes 32 (fst w0)));
             slot_key = b256_of_u256 (fst w1) in
         if unat (fst w2) < 256
         then Inr \<lparr>qe_target = target, qe_slot_key = slot_key,
                   qe_collection_keys_count = ucast (fst w2),
                   qe_collection_keys = (b256_of_u256 (fst w3), b256_of_u256 (fst w4)),
                   qe_word_proofs = (snd w0, snd w1, snd w2, snd w3, snd w4)\<rparr>
         else Inl (Panicked (UnwrapFailed ''Uint conversion to u8''))
     | _ \<Rightarrow> Inl (Panicked IndexOutOfBounds))"

text \<open>\<open>slots_by_target.entry(target).or_default()\<close> and the push of a key that is not there yet.\<close>

fun add_slot :: "address \<Rightarrow> b256 \<Rightarrow> (address \<times> b256 list) list \<Rightarrow> (address \<times> b256 list) list" where
  "add_slot target key [] = [(target, [key])]"
| "add_slot target key ((a, ks) # m) =
     (if a = target then (a, if key \<in> set ks then ks else ks @ [key]) # m
      else (a, ks) # add_slot target key m)"

definition slots_by_target :: "queue_entry_proof list \<Rightarrow> (address \<times> b256 list) list" where
  "slots_by_target entries = foldl (\<lambda>m e. add_slot (qe_target e) (qe_slot_key e) m) [] entries"

definition target_slot ::
    "(b256 \<rightharpoonup> u256 \<times> bytes list) \<Rightarrow> b256 \<Rightarrow> string fault + target_slot_proof" where
  "target_slot proved key =
     bind_res (word_at ''Target proof missing storage key'' proved key) (\<lambda>(v, mpt_proof).
     Inr \<lparr>ts_key = key, ts_value = v, ts_mpt_proof = mpt_proof\<rparr>)"

definition prepare_target ::
    "('f, 's) guest_env \<Rightarrow> 'w execution_rpc \<Rightarrow> b256 \<Rightarrow> u64 \<Rightarrow> nat \<Rightarrow> address \<times> b256 list
      \<Rightarrow> ('w, target_storage_proof) io" where
  "prepare_target E R output_execution_state_root block chunk_limit at =
     (case at of (addr, slot_keys) \<Rightarrow>
        bind_io (get_proof R addr slot_keys block chunk_limit) (\<lambda>target_proof.
        lift_io (bind_res (account_witness E target_proof output_execution_state_root) (\<lambda>acct.
          bind_res (traverse_res (target_slot (words_by_key (ar_storage_proof target_proof))) slot_keys)
            (\<lambda>slots.
          Inr \<lparr>tp_target_address = addr, tp_account = acct,
               tp_account_mpt_proof = ar_account_proof target_proof, tp_slots = slots\<rparr>)))))"

definition prepare_queue_storage ::
    "('f, 's) guest_env \<Rightarrow> 'w execution_rpc \<Rightarrow> nat list \<Rightarrow> address \<Rightarrow> u64 \<Rightarrow> u64 \<Rightarrow> b256 \<Rightarrow> nat
      \<Rightarrow> ('w, queue_storage) io" where
  "prepare_queue_storage E R hash_order proof_queue_address input_queue_cursor block
       output_execution_state_root chunk_limit =
     (let queue_head_key = storage_slot_of_index QUEUE_HEAD_STORAGE_INDEX in
      bind_io (get_queue_head_at R proof_queue_address block) (\<lambda>queue_head.
      if input_queue_cursor > queue_head
      then lift_io (Inl (Failed (''Request cursor '' @ show_word input_queue_cursor @ '' is ahead of queue head '' @ show_word queue_head)))
      else
        let batch = queue_batch queue_head input_queue_cursor;
            entry_keys = map (\<lambda>offset. entry_word_keys E (input_queue_cursor + of_nat offset)) [0..<unat batch];
            queue_keys = queue_head_key # concat entry_keys in
        bind_io (get_proof R proof_queue_address queue_keys block chunk_limit) (\<lambda>queue_proof.
        let queue_words = words_by_key (ar_storage_proof queue_proof) in
        bind_io (lift_io (traverse_res (assemble_entry queue_words) entry_keys)) (\<lambda>entries.
        bind_io (traverse_io (prepare_target E R output_execution_state_root block chunk_limit)
            (complete_in hash_order (slots_by_target entries))) (\<lambda>targets.
        bind_io (lift_io (word_at ''Queue proof missing storage key'' queue_words queue_head_key)) (\<lambda>head_word.
        lift_io (Inr
          \<lparr>qs_proof_request_queue_address = ar_address queue_proof,
           qs_proof_request_queue_account = response_account queue_proof,
           qs_proof_request_queue_account_mpt_proof = ar_account_proof queue_proof,
           qs_head = queue_head,
           qs_head_mpt_proof = snd head_word,
           qs_input_cursor = input_queue_cursor,
           qs_entries = entries,
           qs_targets = targets\<rparr>)))))))"

definition with_queue_storage ::
    "('x, 'h, 'c, 'u, 'v, 'g) consensus_proof_inputs \<Rightarrow> queue_storage \<Rightarrow> ('x, 'h, 'c, 'u, 'v, 'g) proof_inputs" where
  "with_queue_storage ci queue_storage =
     \<lparr>pi_updates = ci_updates ci, pi_finality_update = ci_finality_update ci,
      pi_expected_current_slot = ci_expected_current_slot ci, pi_store = ci_store ci,
      pi_genesis_root = ci_genesis_root ci, pi_forks = ci_forks ci,
      pi_store_hash = ci_store_hash ci, pi_queue_storage = queue_storage\<rparr>"

definition prepare_inputs ::
    "('f, 's) guest_env \<Rightarrow> ('x, 'h, 'c, 'u, 'v, 'g) helios \<Rightarrow> 'w execution_rpc \<Rightarrow> nat list \<Rightarrow> address \<Rightarrow> u64 \<Rightarrow> u64
      \<Rightarrow> ('x, 'h, 'c, 'u, 'v, 'g) consensus_proof_inputs \<Rightarrow> b256 \<Rightarrow> nat
      \<Rightarrow> ('w, ('x, 'h, 'c, 'u, 'v, 'g) proof_inputs) io" where
  "prepare_inputs E H R hash_order proof_queue_address input_queue_cursor output_block_number ci
       output_execution_state_root chunk_limit =
     bind_io (prepare_queue_storage E R hash_order proof_queue_address input_queue_cursor
       output_block_number output_execution_state_root chunk_limit) (\<lambda>queue_storage.
     let consensus_mpt_proof_input = with_queue_storage ci queue_storage in
     case consensus_mpt_program E H consensus_mpt_proof_input of
       Inl _ \<Rightarrow> lift_io (Inl (Failed ''dry run failed''))
     | Inr _ \<Rightarrow> lift_io (Inr consensus_mpt_proof_input))"

section \<open>The proxy\<close>

record 'p execution_proxy =
  ep_principal_provider :: 'p
  ep_backup_providers :: "'p list"
  ep_proof_queue_address :: address
  ep_validation_timeout :: u64
  ep_chunk_limit :: nat

definition execution_proxy_from_env ::
    "(string \<Rightarrow> string + 'p) \<Rightarrow> (string \<Rightarrow> string + address) \<Rightarrow> env \<Rightarrow> string + 'p execution_proxy" where
  "execution_proxy_from_env parse_url parse_address env =
     bind_res (map_res (\<lambda>t. case t of None \<Rightarrow> 300 | Some t \<Rightarrow> t)
       (var_opt env ''NORI_EXECUTION_PROOF_INPUT_VALIDATION_TIMEOUT'' parse_u64)) (\<lambda>validation_timeout.
     bind_res (map_res (\<lambda>t. case t of None \<Rightarrow> 100 | Some t \<Rightarrow> t)
       (var_opt env ''NORI_EXECUTION_CHUNK_LIMIT'' (parse_uint 64))) (\<lambda>chunk_limit.
     bind_res (ok_or ''Missing NORI_SOURCE_EXECUTION_HTTP_RPCS in environment''
       (env ''NORI_SOURCE_EXECUTION_HTTP_RPCS'')) (\<lambda>urls.
     case url_list parse_url urls of
       [] \<Rightarrow> Inl ''No valid execution RPC URLs found in NORI_SOURCE_EXECUTION_HTTP_RPCS.''
     | principal_provider # providers \<Rightarrow>
         bind_res (get_proof_queue_address parse_address env) (\<lambda>proof_queue_address.
         Inr \<lparr>ep_principal_provider = principal_provider, ep_backup_providers = providers,
              ep_proof_queue_address = proof_queue_address,
              ep_validation_timeout = validation_timeout, ep_chunk_limit = chunk_limit\<rparr>))))"

text \<open>
  One query of a provider as the callers of \<open>query_with_fallback\<close> see it. A panic of the query
  unwinds through the caller; it is carried as a result that ends the query.
\<close>

definition query_reply :: "bool \<Rightarrow> string fault + 'a \<Rightarrow> (panic + 'a) reply" where
  "query_reply timed_out r =
     (if timed_out then TimedOut
      else case r of Inr x \<Rightarrow> Reply (Inr (Inr x)) | Inl (Failed e) \<Rightarrow> Reply (Inl e)
           | Inl (Panicked p) \<Rightarrow> Reply (Inr (Inl p)))"

definition settle_query :: "string + (panic + 'a) \<Rightarrow> string fault + 'a" where
  "settle_query r = (case r of Inl e \<Rightarrow> Inl (Failed e) | Inr (Inl p) \<Rightarrow> Inl (Panicked p) | Inr (Inr x) \<Rightarrow> Inr x)"

text \<open>
  What the network does during one query: which providers run into the timeout, the state in which
  each is found, the order in which the backups complete, the iteration order of hash maps.
\<close>

record ('p, 'w) execution_net =
  net_rpc :: "'p \<Rightarrow> 'w execution_rpc"
  net_world :: "'p \<Rightarrow> 'w"
  net_times_out :: "'p \<Rightarrow> bool"
  net_order :: "nat list"
  net_hash_order :: "'p \<Rightarrow> nat list"

definition get_queue_head ::
    "('p, 'w) execution_net \<Rightarrow> 'p execution_proxy \<Rightarrow> u64 \<Rightarrow> string fault + u64" where
  "get_queue_head N proxy block =
     settle_query (query_with_fallback (net_order N)
       (\<lambda>provider. query_reply (net_times_out N provider)
          (fst (get_queue_head_at (net_rpc N provider) (ep_proof_queue_address proxy) block
             (net_world N provider))))
       (ep_principal_provider proxy) (ep_backup_providers proxy))"

record ('x, 'h, 'c, 'u, 'v, 'g) proof_inputs_with_window =
  wi_input_slot :: u64
  wi_expected_output_slot :: u64
  wi_input_block_number :: u64
  wi_expected_output_block_number :: u64
  wi_proof_inputs :: "('x, 'h, 'c, 'u, 'v, 'g) proof_inputs"
  wi_expected_output_store_hash :: b256
  wi_expected_output_queue_cursor :: u64

definition prepare_execution_inputs ::
    "('f, 's) guest_env \<Rightarrow> ('x, 'h, 'c, 'u, 'v, 'g) helios \<Rightarrow> ('p, 'w) execution_net \<Rightarrow> 'p execution_proxy
      \<Rightarrow> u64 \<Rightarrow> u64 \<Rightarrow> u64 \<Rightarrow> u64 \<Rightarrow> u64 \<Rightarrow> ('x, 'h, 'c, 'u, 'v, 'g) consensus_proof_inputs \<Rightarrow> b256 \<Rightarrow> b256
      \<Rightarrow> string fault + ('x, 'h, 'c, 'u, 'v, 'g) proof_inputs_with_window" where
  "prepare_execution_inputs E H N proxy input_slot output_slot input_block_number output_block_number
       input_queue_cursor ci expected_output_store_hash expected_execution_state_root =
     bind_res (settle_query (query_with_fallback (net_order N)
       (\<lambda>provider. query_reply (net_times_out N provider)
          (fst (prepare_inputs E H (net_rpc N provider) (net_hash_order N provider)
             (ep_proof_queue_address proxy) input_queue_cursor output_block_number ci
             expected_execution_state_root (ep_chunk_limit proxy) (net_world N provider))))
       (ep_principal_provider proxy) (ep_backup_providers proxy))) (\<lambda>output.
     let expected_output_queue_cursor =
           input_queue_cursor + of_nat (length (qs_entries (pi_queue_storage output)))
     in Inr \<lparr>wi_input_slot = input_slot, wi_expected_output_slot = output_slot,
             wi_input_block_number = input_block_number,
             wi_expected_output_block_number = output_block_number,
             wi_proof_inputs = output,
             wi_expected_output_store_hash = expected_output_store_hash,
             wi_expected_output_queue_cursor = expected_output_queue_cursor\<rparr>)"

section \<open>Computations that talk to the provider\<close>

lemma bind_io_Inr: "fst (bind_io m f w) = Inr y \<longleftrightarrow> (\<exists>x w'. m w = (Inr x, w') \<and> fst (f x w') = Inr y)"
  by (auto simp: bind_io_def split: prod.splits sum.splits)

lemma bind_io_ok: "m w = (Inr x, w') \<Longrightarrow> bind_io m f w = f x w'"
  by (simp add: bind_io_def)

lemma lift_io_apply: "lift_io r w = (r, w)"
  by (simp add: lift_io_def)

text \<open>A computation that always succeeds with the same value, whatever the state.\<close>

definition always :: "('w, 'a) io \<Rightarrow> 'a \<Rightarrow> bool" where
  "always m x \<longleftrightarrow> (\<forall>w. \<exists>w'. m w = (Inr x, w'))"

lemma always_lift [simp]: "always (lift_io r) x \<longleftrightarrow> r = Inr x"
  by (auto simp: always_def lift_io_def)

lemma always_bind: "always m x \<Longrightarrow> always (f x) y \<Longrightarrow> always (bind_io m f) y"
  unfolding always_def by (metis bind_io_ok)

lemma always_traverse:
  "(\<And>x. x \<in> set xs \<Longrightarrow> always (f x) (g x)) \<Longrightarrow> always (traverse_io f xs) (map g xs)"
proof (induction xs)
  case Nil
  then show ?case by simp
next
  case (Cons x xs)
  then have "always (f x) (g x)" "always (traverse_io f xs) (map g xs)" by auto
  then show ?case by (auto intro!: always_bind)
qed

section \<open>Retries and chunks\<close>

text \<open>What a provider that follows the chain at one block answers.\<close>

record chain_view =
  cv_account :: "address \<Rightarrow> trie_account"
  cv_account_proof :: "address \<Rightarrow> bytes list"
  cv_word :: "address \<Rightarrow> b256 \<Rightarrow> u256"
  cv_word_proof :: "address \<Rightarrow> b256 \<Rightarrow> bytes list"

definition honest_response :: "chain_view \<Rightarrow> address \<Rightarrow> b256 list \<Rightarrow> account_response" where
  "honest_response C addr keys =
     \<lparr>ar_address = addr, ar_nonce = ta_nonce (cv_account C addr), ar_balance = ta_balance (cv_account C addr),
      ar_storage_hash = ta_storage_root (cv_account C addr), ar_code_hash = ta_code_hash (cv_account C addr),
      ar_account_proof = cv_account_proof C addr,
      ar_storage_proof = map (\<lambda>k. \<lparr>sr_key = k, sr_value = cv_word C addr k, sr_proof = cv_word_proof C addr k\<rparr>) keys\<rparr>"

definition follows_chain :: "'w execution_rpc \<Rightarrow> u64 \<Rightarrow> chain_view \<Rightarrow> bool" where
  "follows_chain R block C \<longleftrightarrow>
     (\<forall>addr keys w. fst (rpc_get_proof R addr keys block w) = Inr (honest_response C addr keys)) \<and>
     (\<forall>addr key w. fst (rpc_get_storage_at R addr key block w) = Inr (cv_word C addr key))"

text \<open>A flaky provider may fail, but what it answers is right and a chunk succeeds within its retries.\<close>

definition eventually_follows :: "'w execution_rpc \<Rightarrow> u64 \<Rightarrow> chain_view \<Rightarrow> bool" where
  "eventually_follows R block C \<longleftrightarrow>
     (\<forall>addr keys. always (fetch_chunk MAX_RETRIES R addr keys block) (honest_response C addr keys)) \<and>
     (\<forall>addr key w. fst (rpc_get_storage_at R addr key block w) = Inr (cv_word C addr key))"

lemma follows_eventually: "follows_chain R block C \<Longrightarrow> eventually_follows R block C"
proof -
  assume f: "follows_chain R block C"
  have "always (fetch_chunk n R addr keys block) (honest_response C addr keys)" for n addr keys
  proof -
    have "\<exists>w'. fetch_chunk n R addr keys block w = (Inr (honest_response C addr keys), w')" for w
      using f by (cases n) (auto simp: follows_chain_def split: prod.splits sum.splits; metis fst_conv sum.distinct(1) sum.inject(2))+
    then show ?thesis by (simp add: always_def)
  qed
  with f show ?thesis by (simp add: eventually_follows_def follows_chain_def)
qed

lemma fetch_chunks_honest:
  assumes "eventually_follows R block C"
  shows "always (fetch_chunks R addr block cs (Some (honest_response C addr ks)))
    (Some (honest_response C addr (ks @ concat cs)))"
proof (induction cs arbitrary: ks)
  case Nil
  then show ?case by simp
next
  case (Cons c cs)
  have "merge_response (Some (honest_response C addr ks)) (honest_response C addr c) =
      Some (honest_response C addr (ks @ c))"
    by (simp add: honest_response_def)
  with Cons.IH[of "ks @ c"] assms show ?case
    by (auto simp: eventually_follows_def intro!: always_bind)
qed

lemma get_proof_honest:
  assumes "eventually_follows R block C"
  shows "always (get_proof R addr keys block chunk_limit) (honest_response C addr keys)"
proof -
  obtain c cs where cs: "proof_chunks chunk_limit keys = c # cs" "c @ concat cs = keys"
  proof (cases "keys = []")
    case True
    with that[of "[]" "[]"] show ?thesis by (simp add: proof_chunks_def)
  next
    case False
    have eq: "concat (chunks (max chunk_limit 1) keys) = keys" by (rule concat_chunks) simp
    with False obtain c cs where c: "chunks (max chunk_limit 1) keys = c # cs"
      by (metis concat.simps(1) neq_Nil_conv)
    from eq have "c @ concat cs = keys" unfolding c by simp
    with that[of c cs] False c show ?thesis by (simp add: proof_chunks_def)
  qed
  have "always (fetch_chunks R addr block (c # cs) None) (Some (honest_response C addr keys))"
    using fetch_chunks_honest[OF assms, of addr cs c] assms cs(2)
    by (auto simp: eventually_follows_def intro!: always_bind)
  then show ?thesis
    unfolding get_proof_def cs(1) by (rule always_bind) simp
qed

lemma words_by_key_honest:
  "k \<in> set keys \<Longrightarrow> words_by_key (ar_storage_proof (honest_response C addr keys)) k =
     Some (cv_word C addr k, cv_word_proof C addr k)"
proof -
  assume k: "k \<in> set keys"
  let ?f = "\<lambda>k. (cv_word C addr k, cv_word_proof C addr k)"
  have "words_by_key (ar_storage_proof (honest_response C addr keys)) = map_of (map (\<lambda>k. (k, ?f k)) (rev keys))"
    by (simp add: words_by_key_def honest_response_def rev_map comp_def)
  with k show ?thesis by (simp add: map_of_map_restrict)
qed

section \<open>Entries and targets\<close>

text \<open>A storage word that holds an address is restored from its last 20 bytes.\<close>

lemma from_be_bytes_drop:
  fixes v :: u256
  assumes "unat v < 2 ^ 160"
  shows "word_of_address (from_be_bytes (slice_at 12 32 (to_be_bytes 32 v))) = v"
proof -
  have "slice_at 12 32 (to_be_bytes 32 v) = rev (take 20 (to_le_bytes 32 v))"
    by (simp add: slice_at_def to_be_bytes_def drop_rev)
  then have "from_be_bytes (slice_at 12 32 (to_be_bytes 32 v)) = (of_nat (nat_of_le (take 20 (to_le_bytes 32 v))) :: address)"
    by (simp add: from_be_bytes_def from_le_bytes_def)
  moreover have "nat_of_le (take 20 (le_of_nat 32 (unat v))) = unat v mod 256 ^ 20"
    by (simp add: take_le_of_nat nat_of_le_of_nat)
  moreover have "unat v mod 256 ^ 20 = unat v" using assms by simp
  ultimately have "unat (from_be_bytes (slice_at 12 32 (to_be_bytes 32 v)) :: address) = unat v"
    using assms by (simp add: to_le_bytes_def unsigned_ucast_eq take_bit_nat_eq_self)
  then have "unat (word_of_address (from_be_bytes (slice_at 12 32 (to_be_bytes 32 v)))) = unat v"
    by (simp only: unat_word_of_address)
  then show ?thesis by (rule unsigned_word_eqI)
qed

lemma ucast_ucast_small:
  fixes v :: "'a::len word"
  assumes "unat v < 2 ^ LENGTH('b::len)" and "LENGTH('b) \<le> LENGTH('a)"
  shows "ucast (ucast v :: 'b word) = v"
proof -
  have "unat (ucast (ucast v :: 'b word) :: 'a word) = unat (ucast v :: 'b word)"
    by (rule unat_ucast_up) (rule assms(2))
  also have "\<dots> = unat v" using assms(1) by (simp add: unsigned_ucast_eq take_bit_nat_eq_self)
  finally show ?thesis by (rule unsigned_word_eqI)
qed

lemma ucast_u8_of_small: "unat (v :: u256) < 256 \<Longrightarrow> ucast (ucast v :: u8) = v"
  by (rule ucast_ucast_small) simp_all

lemma entry_word_keys_list:
  "entry_word_keys E idx =
     (let b = mapping_entry_location (env_keccak256 E) (ucast idx) QUEUE_REQUESTS_STORAGE_INDEX
      in [b, struct_word_slot b 1, struct_word_slot b 2, struct_word_slot b 3, struct_word_slot b 4])"
proof -
  have "[1..<QUEUE_ENTRY_WORDS] = [1, 2, 3, 4]"
    by (simp add: QUEUE_ENTRY_WORDS_def upt_rec)
  then show ?thesis by (simp add: entry_word_keys_def Let_def)
qed

definition entry_at :: "('f, 's) guest_env \<Rightarrow> chain_view \<Rightarrow> address \<Rightarrow> u64 \<Rightarrow> queue_entry_proof" where
  "entry_at E C queue idx =
     (let ks = entry_word_keys E idx; v = (\<lambda>i. cv_word C queue (ks ! i)); p = (\<lambda>i. cv_word_proof C queue (ks ! i))
      in \<lparr>qe_target = from_be_bytes (slice_at 12 32 (to_be_bytes 32 (v 0))), qe_slot_key = v 1,
          qe_collection_keys_count = ucast (v 2), qe_collection_keys = (v 3, v 4),
          qe_word_proofs = (p 0, p 1, p 2, p 3, p 4)\<rparr>)"

text \<open>The queue contract only stores addresses and small key counts in these words.\<close>

definition entry_well_formed :: "('f, 's) guest_env \<Rightarrow> chain_view \<Rightarrow> address \<Rightarrow> u64 \<Rightarrow> bool" where
  "entry_well_formed E C queue idx \<longleftrightarrow>
     unat (cv_word C queue (entry_word_keys E idx ! 0)) < 2 ^ 160 \<and>
     unat (cv_word C queue (entry_word_keys E idx ! 2)) < 256"

lemma assemble_entry_honest:
  assumes "set (entry_word_keys E idx) \<subseteq> set keys" and "entry_well_formed E C queue idx"
  shows "assemble_entry (words_by_key (ar_storage_proof (honest_response C queue keys))) (entry_word_keys E idx) =
    Inr (entry_at E C queue idx)"
proof -
  let ?m = "words_by_key (ar_storage_proof (honest_response C queue keys))"
  have "traverse_res (word_at ''Queue proof missing storage key'' ?m) (entry_word_keys E idx) =
      Inr (map (\<lambda>k. (cv_word C queue k, cv_word_proof C queue k)) (entry_word_keys E idx))"
    using assms(1) by (intro traverse_res_map) (auto simp: word_at_def words_by_key_honest)
  with assms(2) show ?thesis
    by (simp add: assemble_entry_def entry_at_def entry_word_keys_list Let_def entry_well_formed_def)
qed

lemma entry_at_verifies:
  assumes "entry_well_formed E C queue idx"
    and "\<And>k. k \<in> set (entry_word_keys E idx) \<Longrightarrow>
      verify_storage_word E root k (cv_word C queue k) (cv_word_proof C queue k) = Inr ()"
    and "idx = cursor + of_nat off"
  shows "verify_entry E root cursor (off, entry_at E C queue idx) = Inr ()"
  using assms
  by (simp add: verify_entry_def entry_words_def entry_word_proofs_def entry_at_def Let_def
      entry_word_keys_list entry_well_formed_def from_be_bytes_drop ucast_u8_of_small)

text \<open>The slots collected per target.\<close>

lemma add_slot_fst:
  "map fst (add_slot a k m) = (if a \<in> set (map fst m) then map fst m else map fst m @ [a])"
proof (induction m)
  case (Cons x m)
  then show ?case by (cases x) auto
qed simp

lemma add_slot_distinct: "distinct (map fst m) \<Longrightarrow> distinct (map fst (add_slot a k m))"
  unfolding add_slot_fst by simp

lemma map_of_add_slot:
  "map_of (add_slot a k m) b =
     (if b = a then Some (case map_of m a of None \<Rightarrow> [k] | Some ks \<Rightarrow> if k \<in> set ks then ks else ks @ [k])
      else map_of m b)"
  by (induction m) auto

definition slots_inv :: "queue_entry_proof list \<Rightarrow> (address \<times> b256 list) list \<Rightarrow> bool" where
  "slots_inv es m \<longleftrightarrow> distinct (map fst m) \<and> (\<forall>a ks. map_of m a = Some ks \<longrightarrow> distinct ks) \<and>
     (\<forall>e \<in> set es. \<exists>ks. map_of m (qe_target e) = Some ks \<and> qe_slot_key e \<in> set ks)"

lemma slots_by_target_inv: "slots_inv es (slots_by_target es)"
proof (induction es rule: rev_induct)
  case Nil
  then show ?case by (simp add: slots_by_target_def slots_inv_def)
next
  case (snoc e es)
  have snoc_eq: "slots_by_target (es @ [e]) = add_slot (qe_target e) (qe_slot_key e) (slots_by_target es)"
    by (simp add: slots_by_target_def)
  from snoc show ?case
    unfolding snoc_eq slots_inv_def
    by (auto simp: map_of_add_slot add_slot_distinct split: option.splits)
qed

lemma distinct_complete_in: "distinct xs \<Longrightarrow> distinct (complete_in order xs)"
  by (simp add: complete_in_def completion_order_perm distinct_map inj_on_nth)

lemma map_complete_in: "map f (complete_in order xs) = complete_in order (map f xs)"
  by (simp add: complete_in_def completion_order_perm(2))

section \<open>Honest providers yield honest witnesses\<close>

text \<open>The chain view verifies: accounts and words have proofs under the state root.\<close>

definition account_of_view :: "('f, 's) guest_env \<Rightarrow> chain_view \<Rightarrow> b256 \<Rightarrow> address \<Rightarrow> trie_account option" where
  "account_of_view E C root addr =
     (if is_ok (env_verify_proof E root (account_path E addr)
          (Some (env_rlp_account E (cv_account C addr))) (cv_account_proof C addr))
      then Some (cv_account C addr) else None)"

definition view_verifies :: "('f, 's) guest_env \<Rightarrow> chain_view \<Rightarrow> b256 \<Rightarrow> bool" where
  "view_verifies E C root \<longleftrightarrow>
     (\<forall>addr. is_ok (env_verify_proof E root (account_path E addr)
         (map_option (env_rlp_account E) (account_of_view E C root addr)) (cv_account_proof C addr))) \<and>
     (\<forall>addr key. is_ok (verify_storage_word E (account_storage_root E (account_of_view E C root addr)) key
         (cv_word C addr key) (cv_word_proof C addr key)))"

lemma response_account_honest [simp]: "response_account (honest_response C addr keys) = cv_account C addr"
  by (simp add: response_account_def honest_response_def)

lemma honest_response_sel [simp]:
  "ar_address (honest_response C addr keys) = addr"
  "ar_account_proof (honest_response C addr keys) = cv_account_proof C addr"
  by (simp_all add: honest_response_def)

lemma account_witness_honest:
  assumes "view_verifies E C root"
  shows "account_witness E (honest_response C addr keys) root = Inr (account_of_view E C root addr)"
proof (cases "is_ok (env_verify_proof E root (account_path E addr)
    (Some (env_rlp_account E (cv_account C addr))) (cv_account_proof C addr))")
  case True
  then show ?thesis by (simp add: account_witness_def account_of_view_def)
next
  case False
  then have "account_of_view E C root addr = None" by (simp add: account_of_view_def)
  with assms have "env_verify_proof E root (account_path E addr) None (cv_account_proof C addr) = Inr ()"
    unfolding view_verifies_def is_ok_unit by (metis option.simps(8))
  with False show ?thesis by (simp add: account_witness_def account_of_view_def)
qed

definition target_at :: "('f, 's) guest_env \<Rightarrow> chain_view \<Rightarrow> b256 \<Rightarrow> address \<times> b256 list \<Rightarrow> target_storage_proof" where
  "target_at E C root at =
     \<lparr>tp_target_address = fst at, tp_account = account_of_view E C root (fst at),
      tp_account_mpt_proof = cv_account_proof C (fst at),
      tp_slots = map (\<lambda>k. \<lparr>ts_key = k, ts_value = cv_word C (fst at) k, ts_mpt_proof = cv_word_proof C (fst at) k\<rparr>) (snd at)\<rparr>"

lemma prepare_target_honest:
  assumes "eventually_follows R block C" and "view_verifies E C root"
  shows "always (prepare_target E R root block chunk_limit at) (target_at E C root at)"
proof -
  obtain addr keys where at: "at = (addr, keys)" by (cases at)
  have "traverse_res (target_slot (words_by_key (ar_storage_proof (honest_response C addr keys)))) keys =
      Inr (map (\<lambda>k. \<lparr>ts_key = k, ts_value = cv_word C addr k, ts_mpt_proof = cv_word_proof C addr k\<rparr>) keys)"
    by (rule traverse_res_map) (simp add: target_slot_def word_at_def words_by_key_honest)
  with account_witness_honest[OF assms(2), of addr keys] show ?thesis
    unfolding prepare_target_def at target_at_def
    by (auto intro!: always_bind[OF get_proof_honest[OF assms(1)]])
qed

definition queue_head_of :: "chain_view \<Rightarrow> address \<Rightarrow> u64" where
  "queue_head_of C queue = ucast (cv_word C queue (storage_slot_of_index QUEUE_HEAD_STORAGE_INDEX))"

text \<open>The queue in the chain view: its account exists, its head is a \<open>u64\<close> and its entries are well formed.\<close>

definition queue_well_formed :: "('f, 's) guest_env \<Rightarrow> chain_view \<Rightarrow> b256 \<Rightarrow> address \<Rightarrow> bool" where
  "queue_well_formed E C root queue \<longleftrightarrow>
     account_of_view E C root queue = Some (cv_account C queue) \<and>
     unat (cv_word C queue (storage_slot_of_index QUEUE_HEAD_STORAGE_INDEX)) < 2 ^ 64 \<and>
     (\<forall>idx < queue_head_of C queue. entry_well_formed E C queue idx)"

definition queue_at ::
    "('f, 's) guest_env \<Rightarrow> chain_view \<Rightarrow> b256 \<Rightarrow> nat list \<Rightarrow> address \<Rightarrow> u64 \<Rightarrow> queue_storage" where
  "queue_at E C root order queue cursor =
     (let es = map (\<lambda>off. entry_at E C queue (cursor + of_nat off)) [0..<unat (queue_batch (queue_head_of C queue) cursor)]
      in \<lparr>qs_proof_request_queue_address = queue, qs_proof_request_queue_account = cv_account C queue,
          qs_proof_request_queue_account_mpt_proof = cv_account_proof C queue,
          qs_head = queue_head_of C queue,
          qs_head_mpt_proof = cv_word_proof C queue (storage_slot_of_index QUEUE_HEAD_STORAGE_INDEX),
          qs_input_cursor = cursor, qs_entries = es,
          qs_targets = map (target_at E C root) (complete_in order (slots_by_target es))\<rparr>)"

lemma get_queue_head_honest:
  assumes "eventually_follows R block C"
    and "unat (cv_word C queue (storage_slot_of_index QUEUE_HEAD_STORAGE_INDEX)) < 2 ^ 64"
  shows "always (get_queue_head_at R queue block) (queue_head_of C queue)"
proof -
  have "always (get_storage_word R queue key block) (cv_word C queue key)" for key
    unfolding always_def get_storage_word_def
  proof
    fix w
    from assms(1) have "fst (rpc_get_storage_at R queue key block w) = Inr (cv_word C queue key)"
      by (simp add: eventually_follows_def)
    then show "\<exists>w'. (case rpc_get_storage_at R queue key block w of (Inl e, w') \<Rightarrow>
        (Inl (Failed (''ExecutionHttp RPC error reading storage: '' @ e)), w')
      | (Inr v, w') \<Rightarrow> (Inr v, w')) = (Inr (cv_word C queue key), w')"
      by (cases "rpc_get_storage_at R queue key block w") simp
  qed
  then show ?thesis
    unfolding get_queue_head_at_def Let_def
    by (rule always_bind) (use assms(2) in \<open>simp add: queue_head_of_def\<close>)
qed

lemma batch_indices_below_head:
  assumes "cursor \<le> head" and "off < unat (queue_batch head cursor)"
  shows "cursor + of_nat off < head"
proof -
  have "off < unat head - unat cursor" using assms unat_queue_batch[OF assms(1)] by simp
  then show ?thesis
    using batch_index_no_wrap[OF assms(1), of off] by (simp add: word_less_nat_alt)
qed

lemma prepare_queue_storage_honest:
  assumes R: "eventually_follows R block C" and E: "view_verifies E C root"
    and Q: "queue_well_formed E C root queue" and c: "cursor \<le> queue_head_of C queue"
  shows "always (prepare_queue_storage E R order queue cursor block root chunk_limit)
    (queue_at E C root order queue cursor)"
proof -
  let ?n = "unat (queue_batch (queue_head_of C queue) cursor)"
  let ?keys = "map (\<lambda>off. entry_word_keys E (cursor + of_nat off)) [0..<?n]"
  let ?hk = "storage_slot_of_index QUEUE_HEAD_STORAGE_INDEX"
  let ?resp = "honest_response C queue (?hk # concat ?keys)"
  let ?es = "map (\<lambda>off. entry_at E C queue (cursor + of_nat off)) [0..<?n]"
  have "assemble_entry (words_by_key (ar_storage_proof ?resp)) (entry_word_keys E (cursor + of_nat off)) =
      Inr (entry_at E C queue (cursor + of_nat off))" if "off < ?n" for off
    using that Q batch_indices_below_head[OF c that]
    by (intro assemble_entry_honest) (auto simp: queue_well_formed_def)
  then have entries: "traverse_res (assemble_entry (words_by_key (ar_storage_proof ?resp))) ?keys = Inr ?es"
    by (simp add: traverse_res_eq_Inr list_all2_conv_all_nth)
  have head: "word_at m (words_by_key (ar_storage_proof ?resp)) ?hk =
      Inr (cv_word C queue ?hk, cv_word_proof C queue ?hk)" for m
    by (simp add: word_at_def words_by_key_honest)
  have targets: "always (traverse_io (prepare_target E R root block chunk_limit) (complete_in order (slots_by_target ?es)))
      (map (target_at E C root) (complete_in order (slots_by_target ?es)))"
    by (rule always_traverse) (rule prepare_target_honest[OF R E])
  have h: "always (get_queue_head_at R queue block) (queue_head_of C queue)"
    using R Q by (intro get_queue_head_honest) (auto simp: queue_well_formed_def)
  show ?thesis
    unfolding prepare_queue_storage_def queue_at_def Let_def
    using c
    by (intro always_bind[OF h]) (auto simp: not_less entries head
        intro!: always_bind[OF get_proof_honest[OF R]] always_bind[where x = ?es] always_bind[OF targets]
          always_bind[where x = "(cv_word C queue ?hk, cv_word_proof C queue ?hk)"])
qed

lemma view_word:
  "view_verifies E C root \<Longrightarrow>
   verify_storage_word E (account_storage_root E (account_of_view E C root addr)) key
     (cv_word C addr key) (cv_word_proof C addr key) = Inr ()"
  by (simp add: view_verifies_def is_ok_unit)

lemma view_account:
  "view_verifies E C root \<Longrightarrow>
   verify_account E root pa addr (account_of_view E C root addr) (cv_account_proof C addr) =
     Inr (account_storage_root E (account_of_view E C root addr))"
  by (simp add: view_verifies_def is_ok_unit verify_account_ok)

lemma targets_cover_entry:
  assumes E: "view_verifies E C root" and e: "e \<in> set es"
  shows "\<exists>t \<in> set (map (target_at E C root) (complete_in order (slots_by_target es))). \<exists>s \<in> set (tp_slots t).
      tp_target_address t = qe_target e \<and> ts_key s = qe_slot_key e \<and>
      is_ok (verify_storage_word E (target_root E t) (ts_key s) (ts_value s) (ts_mpt_proof s))"
proof -
  obtain ks where ks: "map_of (slots_by_target es) (qe_target e) = Some ks" "qe_slot_key e \<in> set ks"
    using slots_by_target_inv[of es] e unfolding slots_inv_def by blast
  then have "(qe_target e, ks) \<in> set (complete_in order (slots_by_target es))"
    by (auto dest: map_of_SomeD)
  then have "target_at E C root (qe_target e, ks) \<in>
      set (map (target_at E C root) (complete_in order (slots_by_target es)))"
    by auto
  then show ?thesis
    by (rule bexI[rotated])
      (use ks(2) view_word[OF E] in \<open>auto simp: target_at_def target_root_def is_ok_unit\<close>)
qed

lemma targets_distinct:
  "distinct (map tp_target_address (map (target_at E C root) (complete_in order (slots_by_target es))))"
  using distinct_complete_in[of "map fst (slots_by_target es)" order] slots_by_target_inv[of es]
  by (simp add: comp_def target_at_def map_complete_in slots_inv_def)

lemma targets_verify:
  assumes E: "view_verifies E C root"
    and t: "t \<in> set (map (target_at E C root) (complete_in order (slots_by_target es)))"
  shows "distinct (map ts_key (tp_slots t)) \<and>
    is_ok (verify_account E root Target (tp_target_address t) (tp_account t) (tp_account_mpt_proof t))"
proof -
  obtain a ks where at: "t = target_at E C root (a, ks)" "(a, ks) \<in> set (slots_by_target es)"
    using t by auto
  then have "map_of (slots_by_target es) a = Some ks"
    using slots_by_target_inv[of es] by (simp add: slots_inv_def)
  then have "distinct ks" using slots_by_target_inv[of es] unfolding slots_inv_def by blast
  with at(1) view_account[OF E, of Target a] show ?thesis by (simp add: target_at_def comp_def)
qed

lemma queue_at_honest_witness:
  assumes E: "view_verifies E C root" and Q: "queue_well_formed E C root queue"
    and c: "cursor \<le> queue_head_of C queue"
  shows "honest_witness E root (queue_at E C root order queue cursor)"
proof -
  let ?n = "unat (queue_batch (queue_head_of C queue) cursor)"
  let ?root = "ta_storage_root (cv_account C queue)"
  have acct: "account_of_view E C root queue = Some (cv_account C queue)"
    using Q by (simp add: queue_well_formed_def)
  have qword: "verify_storage_word E ?root key (cv_word C queue key) (cv_word_proof C queue key) = Inr ()" for key
    using view_word[OF E, of queue key] by (simp add: acct account_storage_root_def)
  have qacct: "is_ok (verify_account E root ProofRequestQueue queue (Some (cv_account C queue)) (cv_account_proof C queue))"
    using view_account[OF E, of ProofRequestQueue queue] by (simp add: acct)
  have head: "(ucast (queue_head_of C queue) :: u256) = cv_word C queue (storage_slot_of_index QUEUE_HEAD_STORAGE_INDEX)"
    unfolding queue_head_of_def
    by (rule ucast_ucast_small) (use Q in \<open>simp_all add: queue_well_formed_def\<close>)
  have entry: "is_ok (verify_entry E ?root cursor (off, entry_at E C queue (cursor + of_nat off)))"
    if "off < ?n" for off
    using Q batch_indices_below_head[OF c that] qword
    by (subst entry_at_verifies) (auto simp: queue_well_formed_def)
  define es where "es = map (\<lambda>off. entry_at E C queue (cursor + of_nat off)) [0..<?n]"
  have entries: "\<forall>oe \<in> set (enumerate 0 es). is_ok (verify_entry E ?root cursor oe)"
    using entry by (auto simp: es_def in_set_enumerate_eq)
  have len: "length es = min (unat (queue_head_of C queue) - unat cursor) MAX_BATCH"
    using unat_queue_batch[OF c] by (simp add: es_def)
  have headw: "is_ok (verify_storage_word E ?root (storage_slot_of_index QUEUE_HEAD_STORAGE_INDEX)
      (ucast (queue_head_of C queue)) (cv_word_proof C queue (storage_slot_of_index QUEUE_HEAD_STORAGE_INDEX)))"
    using qword head by simp
  show ?thesis
    unfolding honest_witness_def queue_at_def Let_def es_def[symmetric] queue_storage.select_convs
    by (intro conjI ballI qacct headw c len entries[rule_format] targets_distinct
        targets_cover_entry[OF E] targets_verify[OF E, THEN conjunct1] targets_verify[OF E, THEN conjunct2])
qed

section \<open>What prepared inputs guarantee\<close>

lemma verify_queue_cursor:
  assumes "verify_queue E root q = Inr (c, r)"
  shows "c = qs_input_cursor q + of_nat (length (qs_entries q))"
  using assms by (rule verify_queue_stages) simp

lemma dry_run_ok:
  "fst ((case m of Inl _ \<Rightarrow> lift_io (Inl e) | Inr _ \<Rightarrow> lift_io (Inr i)) w) = Inr y \<longleftrightarrow> is_ok m \<and> y = i"
  by (cases m) (auto simp: lift_io_apply)

lemma prepare_inputs_ok:
  assumes "fst (prepare_inputs E H R order queue cursor block ci root limit w) = Inr i"
  shows "is_ok (consensus_mpt_program E H i)" and "qs_input_cursor (pi_queue_storage i) = cursor"
    and "ci = \<lparr>ci_updates = pi_updates i, ci_finality_update = pi_finality_update i,
      ci_expected_current_slot = pi_expected_current_slot i, ci_store = pi_store i,
      ci_genesis_root = pi_genesis_root i, ci_forks = pi_forks i, ci_store_hash = pi_store_hash i\<rparr>"
proof -
  from assms obtain q w' where
    q: "prepare_queue_storage E R order queue cursor block root limit w = (Inr q, w')"
    and i: "i = with_queue_storage ci q" and ok: "is_ok (consensus_mpt_program E H i)"
    unfolding prepare_inputs_def by (auto simp: bind_io_Inr Let_def dry_run_ok)
  from ok show "is_ok (consensus_mpt_program E H i)" .
  have "fst (prepare_queue_storage E R order queue cursor block root limit w) = Inr q" using q by simp
  then have "qs_input_cursor q = cursor"
    unfolding prepare_queue_storage_def Let_def
    by (auto simp: bind_io_Inr lift_io_apply split: if_splits)
  with i show "qs_input_cursor (pi_queue_storage i) = cursor" by (simp add: with_queue_storage_def)
  show "ci = \<lparr>ci_updates = pi_updates i, ci_finality_update = pi_finality_update i,
      ci_expected_current_slot = pi_expected_current_slot i, ci_store = pi_store i,
      ci_genesis_root = pi_genesis_root i, ci_forks = pi_forks i, ci_store_hash = pi_store_hash i\<rparr>"
    using i by (simp add: with_queue_storage_def)
qed

lemma query_reply_Inr: "query_reply t r = Reply (Inr (Inr x)) \<Longrightarrow> r = Inr x"
  by (cases r) (auto simp: query_reply_def split: if_splits fault.splits)

lemma settle_query_reply:
  assumes "settle_query (query_with_fallback order (\<lambda>p. query_reply (t p) (r p)) p ps) = Inr x"
  shows "\<exists>q \<in> set (p # ps). r q = Inr x"
proof -
  from assms have "fallback_all order (\<lambda>p. query_reply (t p) (r p)) (p # ps) = Inr (Inr x)"
    by (simp add: fallback_all_def settle_query_def split: sum.splits)
  from fallback.run_sound[OF this] show ?thesis by (auto dest: query_reply_Inr)
qed

lemma prepare_execution_inputs_ok:
  assumes "prepare_execution_inputs E H N proxy inslot outslot inblk outblk cursor ci oh root = Inr w"
  shows "\<exists>out. consensus_mpt_program E H (wi_proof_inputs w) = Inr out \<and>
    po_output_queue_cursor out = wi_expected_output_queue_cursor w \<and>
    po_input_queue_cursor out = cursor \<and>
    wi_input_slot w = inslot \<and> wi_expected_output_slot w = outslot \<and>
    wi_input_block_number w = inblk \<and> wi_expected_output_block_number w = outblk \<and>
    wi_expected_output_store_hash w = oh \<and>
    ci = \<lparr>ci_updates = pi_updates (wi_proof_inputs w), ci_finality_update = pi_finality_update (wi_proof_inputs w),
      ci_expected_current_slot = pi_expected_current_slot (wi_proof_inputs w), ci_store = pi_store (wi_proof_inputs w),
      ci_genesis_root = pi_genesis_root (wi_proof_inputs w), ci_forks = pi_forks (wi_proof_inputs w),
      ci_store_hash = pi_store_hash (wi_proof_inputs w)\<rparr>"
proof -
  obtain i p where prep: "fst (prepare_inputs E H (net_rpc N p) (net_hash_order N p) (ep_proof_queue_address proxy)
        cursor outblk ci root (ep_chunk_limit proxy) (net_world N p)) = Inr i"
    and w: "w = \<lparr>wi_input_slot = inslot, wi_expected_output_slot = outslot, wi_input_block_number = inblk,
      wi_expected_output_block_number = outblk, wi_proof_inputs = i, wi_expected_output_store_hash = oh,
      wi_expected_output_queue_cursor = cursor + of_nat (length (qs_entries (pi_queue_storage i)))\<rparr>"
    using assms unfolding prepare_execution_inputs_def Let_def
    by (auto simp: bind_res_eq_Inr dest!: settle_query_reply)
  note i = prepare_inputs_ok[OF prep]
  from i(1) obtain out where out: "consensus_mpt_program E H i = Inr out" by (auto simp: is_ok_iff)
  then have "po_output_queue_cursor out = cursor + of_nat (length (qs_entries (pi_queue_storage i)))"
    "po_input_queue_cursor out = cursor"
    using i(2) by (auto simp: consensus_mpt_program_ok dest: verify_queue_cursor)
  with out w i(3) show ?thesis by simp
qed

section \<open>Attempts\<close>

text \<open>The state in which attempt \<open>k\<close> of a chunk finds the provider: after \<open>k\<close> failed attempts and pauses of
  1, 2, 4 seconds.\<close>

fun attempt_world :: "'w execution_rpc \<Rightarrow> address \<Rightarrow> b256 list \<Rightarrow> u64 \<Rightarrow> nat \<Rightarrow> 'w \<Rightarrow> 'w" where
  "attempt_world R addr chunk block 0 w = w"
| "attempt_world R addr chunk block (Suc k) w =
     rpc_sleep R (2 ^ k) (snd (rpc_get_proof R addr chunk block (attempt_world R addr chunk block k w)))"

definition attempt_results ::
    "'w execution_rpc \<Rightarrow> address \<Rightarrow> b256 list \<Rightarrow> u64 \<Rightarrow> 'w \<Rightarrow> nat \<Rightarrow> (string + account_response) list" where
  "attempt_results R addr chunk block w a =
     map (\<lambda>k. fst (rpc_get_proof R addr chunk block (attempt_world R addr chunk block k w))) [a..<Suc MAX_RETRIES]"

lemma fetch_chunk_attempts:
  assumes "left \<le> MAX_RETRIES"
  shows "fst (fetch_chunk left R addr chunk block (attempt_world R addr chunk block (MAX_RETRIES - left) w)) =
    map_err (\<lambda>e. Failed (''ExecutionHttp RPC error: '' @ e))
      (select_ok (attempt_results R addr chunk block w (MAX_RETRIES - left)))"
  using assms
proof (induction left)
  case 0
  then show ?case by (auto simp: attempt_results_def split: prod.splits sum.splits)
next
  case (Suc left)
  let ?a = "MAX_RETRIES - Suc left"
  let ?w = "attempt_world R addr chunk block ?a w"
  have a: "MAX_RETRIES - left = Suc ?a" "Suc ?a < Suc MAX_RETRIES" using Suc.prems by simp_all
  obtain res w' where call: "rpc_get_proof R addr chunk block ?w = (res, w')" by fastforce
  have results: "attempt_results R addr chunk block w ?a = res # attempt_results R addr chunk block w (Suc ?a)"
    using a(2) call upt_conv_Cons[of ?a "Suc MAX_RETRIES"] by (simp add: attempt_results_def del: upt_Suc)
  have more: "attempt_results R addr chunk block w (Suc ?a) \<noteq> []"
    using a(2) by (simp add: attempt_results_def)
  show ?case
  proof (cases res)
    case (Inl e)
    then have "fetch_chunk (Suc left) R addr chunk block ?w =
        fetch_chunk left R addr chunk block (attempt_world R addr chunk block (MAX_RETRIES - left) w)"
      using call by (simp add: a RETRY_BASE_DELAY_def)
    with Suc Inl more show ?thesis by (simp add: results a)
  next
    case (Inr r')
    with call show ?thesis by (simp add: results)
  qed
qed

section \<open>An honest provider\<close>

text \<open>A provider that serves, at a block with the given state root, a chain on which the queue is well formed.\<close>

definition honest_provider ::
    "('f, 's) guest_env \<Rightarrow> 'w execution_rpc \<Rightarrow> u64 \<Rightarrow> b256 \<Rightarrow> address \<Rightarrow> u64 \<Rightarrow> chain_view \<Rightarrow> bool" where
  "honest_provider E R block root queue cursor C \<longleftrightarrow>
     eventually_follows R block C \<and> view_verifies E C root \<and> queue_well_formed E C root queue \<and>
     cursor \<le> queue_head_of C queue"

lemma honest_queue_prepared:
  assumes "honest_provider E R block root queue cursor C" and "field_laws E"
  shows "\<exists>q w' r. prepare_queue_storage E R order queue cursor block root chunk_limit w = (Inr q, w') \<and>
    verify_queue E root q = Inr (cursor + queue_batch (queue_head_of C queue) cursor, r)"
proof -
  note H = assms(1)[unfolded honest_provider_def]
  let ?q = "queue_at E C root order queue cursor"
  have "\<exists>w'. prepare_queue_storage E R order queue cursor block root chunk_limit w = (Inr ?q, w')"
    using prepare_queue_storage_honest[of R block C E root queue cursor] H by (simp add: always_def)
  moreover have "\<exists>r. verify_queue E root ?q = Inr (cursor + queue_batch (queue_head_of C queue) cursor, r)"
    using honest_witness_accepted[OF assms(2) queue_at_honest_witness[of E C root queue cursor order]] H
    by (simp add: queue_at_def Let_def)
  ultimately show ?thesis by blast
qed

lemma prepare_execution_inputs_live:
  assumes R: "honest_provider E (net_rpc N (ep_principal_provider proxy)) outblk root (ep_proof_queue_address proxy) cursor C"
    and "field_laws E" and t: "\<not> net_times_out N (ep_principal_provider proxy)"
    and co: "consensus_program H ci = Inr co" "co_output_slot co mod 32 = 0" "co_execution_state_root co = root"
  shows "\<exists>w. prepare_execution_inputs E H N proxy inslot outslot inblk outblk cursor ci oh root = Inr w \<and>
    wi_expected_output_queue_cursor w =
      cursor + queue_batch (queue_head_of C (ep_proof_queue_address proxy)) cursor"
proof -
  let ?p = "ep_principal_provider proxy"
  let ?c = "cursor + queue_batch (queue_head_of C (ep_proof_queue_address proxy)) cursor"
  from honest_queue_prepared[OF assms(1,2)] obtain q w' r where
    q: "prepare_queue_storage E (net_rpc N ?p) (net_hash_order N ?p) (ep_proof_queue_address proxy) cursor outblk root
          (ep_chunk_limit proxy) (net_world N ?p) = (Inr q, w')"
    and v: "verify_queue E root q = Inr (?c, r)" by blast
  let ?i = "with_queue_storage ci q"
  let ?out = "\<lparr>po_input_slot = co_input_slot co, po_input_store_hash = co_input_store_hash co,
    po_output_slot = co_output_slot co, po_output_store_hash = co_output_store_hash co,
    po_execution_state_root = root, po_verified_requests_root = r,
    po_next_sync_committee_hash = co_next_sync_committee_hash co,
    po_proof_request_queue_address = qs_proof_request_queue_address q,
    po_input_queue_cursor = qs_input_cursor q, po_output_queue_cursor = ?c,
    po_output_block_number = co_output_block_number co\<rparr>"
  have "consensus_part ?i = ci" by (simp add: consensus_part_def with_queue_storage_def)
  moreover have "consensus_outputs_of ?out = co" using co(3) by (simp add: consensus_outputs_of_def)
  ultimately have out: "consensus_mpt_program E H ?i = Inr ?out"
    using co v by (simp add: consensus_part_iff with_queue_storage_def)
  then have i: "fst (prepare_inputs E H (net_rpc N ?p) (net_hash_order N ?p) (ep_proof_queue_address proxy)
      cursor outblk ci root (ep_chunk_limit proxy) (net_world N ?p)) = Inr ?i"
    unfolding prepare_inputs_def by (simp add: bind_io_def q Let_def lift_io_apply)
  then obtain w where w: "prepare_execution_inputs E H N proxy inslot outslot inblk outblk cursor ci oh root = Inr w"
    and wi: "wi_proof_inputs w = ?i"
    unfolding prepare_execution_inputs_def Let_def
    using t by (simp add: query_reply_def query_with_fallback_def settle_query_def)
  from prepare_execution_inputs_ok[OF w] out have "wi_expected_output_queue_cursor w = ?c"
    unfolding wi by auto
  with w show ?thesis by blast
qed

section \<open>A concrete instance\<close>

definition sample_view :: chain_view where
  "sample_view = \<lparr>
     cv_account = (\<lambda>a. if a = 7 then sample_account 2 else sample_account 3),
     cv_account_proof = (\<lambda>_. []),
     cv_word = (\<lambda>a k. case map_of sample_storage (if a = 7 then 2 else if a = 9 then 3 else 99, k) of
        None \<Rightarrow> 0 | Some v \<Rightarrow> v),
     cv_word_proof = (\<lambda>_ _. [])\<rparr>"

definition sample_rpc :: "unit execution_rpc" where
  "sample_rpc = \<lparr>
     rpc_get_proof = (\<lambda>addr keys block w. (Inr (honest_response sample_view addr keys), w)),
     rpc_get_storage_at = (\<lambda>addr key block w. (Inr (cv_word sample_view addr key), w)),
     rpc_sleep = (\<lambda>_ w. w)\<rparr>"

lemma sample_rpc_follows: "eventually_follows sample_rpc block sample_view"
  by (rule follows_eventually) (simp add: follows_chain_def sample_rpc_def)

lemma sample_trie_account:
  "sample_trie 1 (account_path sample_env a) =
    (if a = 7 then Some (sample_rlp_account (sample_account 2))
     else if a = 9 then Some (sample_rlp_account (sample_account 3)) else None)"
  using word_of_address_inject[of a 7] word_of_address_inject[of a 9]
  by (simp add: sample_trie_def sample_account_path word_of_address_ucast)

lemma sample_account_of_view:
  "account_of_view sample_env sample_view 1 a = (if a = 7 \<or> a = 9 then Some (cv_account sample_view a) else None)"
  using sample_trie_account[of a]
  by (auto simp: account_of_view_def is_ok_unit) (auto simp: sample_env_def sample_view_def split: if_splits)

lemma sample_word_view:
  assumes "r \<noteq> 1"
  shows "is_ok (verify_storage_word sample_env r k
    (case map_of sample_storage (r, k) of None \<Rightarrow> 0 | Some v \<Rightarrow> v) prf)"
proof -
  have "v \<noteq> 0" if "((r, k), v) \<in> set sample_storage" for r k v
    using that by (auto simp: sample_storage_def)
  then have "map_of sample_storage (r, k) \<noteq> Some 0" by (auto dest: map_of_SomeD)
  then show ?thesis
    using assms by (cases "map_of sample_storage (r, k)") auto
qed

lemma sample_view_verifies: "view_verifies sample_env sample_view 1"
proof -
  have "sample_trie 1 (account_path sample_env a) = map_option sample_rlp_account (account_of_view sample_env sample_view 1 a)" for a
    by (simp add: sample_trie_account sample_account_of_view) (simp add: sample_view_def)
  then have acct: "is_ok (env_verify_proof sample_env 1 (account_path sample_env a)
      (map_option (env_rlp_account sample_env) (account_of_view sample_env sample_view 1 a)) (cv_account_proof sample_view a))" for a
    by (simp add: is_ok_unit) (simp add: sample_env_def)
  have root: "account_storage_root sample_env (account_of_view sample_env sample_view 1 a) =
      (if a = 7 then 2 else if a = 9 then 3 else 99)" for a
    by (auto simp: sample_account_of_view account_storage_root_def)
      (simp_all add: sample_view_def sample_account_def sample_env_def)
  have "is_ok (verify_storage_word sample_env
      (account_storage_root sample_env (account_of_view sample_env sample_view 1 a)) k
      (cv_word sample_view a k) (cv_word_proof sample_view a k))" for a k
  proof -
    let ?r = "if a = 7 then 2 else if a = 9 then 3 else 99 :: b256"
    have w: "cv_word sample_view a k = (case map_of sample_storage (?r, k) of None \<Rightarrow> 0 | Some v \<Rightarrow> v)"
      by (simp add: sample_view_def)
    show ?thesis
      unfolding root w by (rule sample_word_view) simp
  qed
  with acct show ?thesis by (simp add: view_verifies_def)
qed

lemma sample_queue_well_formed: "queue_well_formed sample_env sample_view 1 7"
proof -
  have head: "queue_head_of sample_view 7 = 1"
    by (simp add: queue_head_of_def storage_slot_of_index_def QUEUE_HEAD_STORAGE_INDEX_def sample_view_def sample_storage_def)
  have base: "mapping_entry_location sample_keccak 0 1 = 1001"
    by (simp add: mapping_entry_location_def mapping_entry_preimage_layout sample_keccak_def)
  have "entry_well_formed sample_env sample_view 7 0"
    using base
    by (simp add: entry_well_formed_def entry_word_keys_list Let_def struct_word_slot_add QUEUE_REQUESTS_STORAGE_INDEX_def)
      (simp add: sample_env_def sample_view_def sample_storage_def)
  then have "entry_well_formed sample_env sample_view 7 idx" if "idx < 1" for idx :: u64
  proof -
    have "idx = 0" using that by (simp add: word_less_nat_alt unat_eq_0)
    with \<open>entry_well_formed sample_env sample_view 7 0\<close> show ?thesis by simp
  qed
  then show ?thesis
    unfolding queue_well_formed_def head
    by (simp add: sample_account_of_view storage_slot_of_index_def QUEUE_HEAD_STORAGE_INDEX_def)
      (simp add: sample_view_def sample_storage_def)
qed

section \<open>Properties\<close>



text \<open>C35: The retry loop makes at most four attempts per chunk, pausing 1, 2 and 4 seconds in between, and
  returns the first success or the error of the last attempt.\<close>

theorem fetch_chunk_retries:
  "fst (fetch_chunk MAX_RETRIES R addr chunk block w) =
     map_err (\<lambda>e. Failed (''ExecutionHttp RPC error: '' @ e))
       (select_ok (attempt_results R addr chunk block w 0)) \<and>
   length (attempt_results R addr chunk block w 0) = 4"
  using fetch_chunk_attempts[of MAX_RETRIES R addr chunk block w]
  by (simp add: attempt_results_def MAX_RETRIES_def)

text \<open>C14: The host can always prove an honest queue. If the provider answers the data of a chain whose accounts
  and words have valid proofs under the state root, the queue account exists and its entries are
  well formed, then for every cursor up to the head, every chunk limit and every iteration
  order of hash maps the host builds a witness, and the guest accepts it and moves the cursor by the
  batch.\<close>

theorem host_witness_accepted:
  assumes "eventually_follows R block C" and "view_verifies E C root" and "queue_well_formed E C root queue"
    and "cursor \<le> queue_head_of C queue" and "field_laws E"
  shows "\<exists>q w' r. prepare_queue_storage E R order queue cursor block root chunk_limit w = (Inr q, w') \<and>
    verify_queue E root q = Inr (cursor + queue_batch (queue_head_of C queue) cursor, r)"
  using assms by (intro honest_queue_prepared) (simp_all add: honest_provider_def)

theorem host_witness_accepted_witness:
  "\<exists>q w' r. prepare_queue_storage sample_env sample_rpc [] 7 0 5 1 100 () = (Inr q, w') \<and>
    verify_queue sample_env 1 q = Inr (0 + queue_batch (queue_head_of sample_view 7) 0, r)"
  by (rule host_witness_accepted[OF sample_rpc_follows sample_view_verifies sample_queue_well_formed _
      sample_env_field_laws]) simp

end
