(* ===== verification/Nori_Consensus_Rpc.thy ===== *)
theory Nori_Consensus_Rpc
  imports Nori_Execution_Rpc
begin

text \<open>
  \<open>nori/src/rpcs/consensus/mod.rs\<close>: the beacon client that bootstraps a light client store and
  prepares consensus inputs, and the proxy that validates them over several providers and hands
  them to the execution proxy. The helios client and the beacon node (packages helios-ethereum,
  helios-consensus-core) are the record \<open>beacon\<close>; the answers of a node during one query are
  functions of the request.
\<close>

section \<open>The beacon node and the client\<close>

record ('p, 'b, 'x, 'h, 'c, 'u, 'v, 'g) beacon =
  bn_get_block :: "'p \<Rightarrow> u64 \<Rightarrow> string + 'b"
  bn_block_root :: "'b \<Rightarrow> b256"
  bn_bootstrap :: "'p \<Rightarrow> b256 \<Rightarrow> string + ('x, 'h, 'c, 'u) lc_store"
  bn_get_finality_update :: "'p \<Rightarrow> string + 'v"
  bn_get_updates :: "'p \<Rightarrow> u64 \<Rightarrow> u8 \<Rightarrow> string + 'u list"
  bn_expected_current_slot :: "'p \<Rightarrow> u64"
  bn_calc_sync_period :: "u64 \<Rightarrow> u64"
  bn_build_checkpoints :: "string + unit"
  bn_latest_checkpoint :: "u64 \<Rightarrow> string + b256"
  bn_update_slot :: "'u \<Rightarrow> u64"
  bn_finality_slot :: "'v \<Rightarrow> u64"
  bn_network :: "u64 \<Rightarrow> string + b256 \<times> 'g"
  bn_new_store :: "('x, 'h, 'c, 'u) lc_store"

definition MAX_REQUEST_LIGHT_CLIENT_UPDATES :: u8 where
  "MAX_REQUEST_LIGHT_CLIENT_UPDATES = 128"

record ('p, 'x, 'h, 'c, 'u, 'g) client =
  cl_rpc :: 'p
  cl_genesis_root :: b256
  cl_forks :: 'g
  cl_store :: "('x, 'h, 'c, 'u) lc_store"

definition source_network ::
    "string \<Rightarrow> ('p, 'b, 'x, 'h, 'c, 'u, 'v, 'g) beacon \<Rightarrow> env \<Rightarrow> string + u64 \<times> b256 \<times> 'g" where
  "source_network unset B env =
     bind_res (ok_or (unset @ '': environment variable not found'') (env ''NORI_SOURCE_CHAIN_ID'')) (\<lambda>chain_id.
     bind_res (map_err (\<lambda>e. ''Invalid chain ID format: '' @ e) (parse_u64 chain_id)) (\<lambda>n.
     bind_res (map_err (\<lambda>e. ''Failed to convert chain ID to network: '' @ e) (bn_network B n)) (\<lambda>network.
     Inr (n, network))))"

definition client_new ::
    "('p, 'b, 'x, 'h, 'c, 'u, 'v, 'g) beacon \<Rightarrow> env \<Rightarrow> 'p \<Rightarrow> string + ('p, 'x, 'h, 'c, 'u, 'g) client" where
  "client_new B env consensus_rpc =
     bind_res (source_network ''NORI_SOURCE_CHAIN_ID not set or invalid'' B env) (\<lambda>(_, genesis_root, forks).
     Inr \<lparr>cl_rpc = consensus_rpc, cl_genesis_root = genesis_root, cl_forks = forks, cl_store = bn_new_store B\<rparr>)"

definition bootstrap_from_checkpoint ::
    "('p, 'b, 'x, 'h, 'c, 'u, 'v, 'g) beacon \<Rightarrow> env \<Rightarrow> 'p \<Rightarrow> b256 \<Rightarrow> string + ('p, 'x, 'h, 'c, 'u, 'g) client" where
  "bootstrap_from_checkpoint B env consensus_rpc checkpoint =
     bind_res (client_new B env consensus_rpc) (\<lambda>client.
     bind_res (map_err (\<lambda>e. ''Failed to bootstrap client with checkpoint: '' @ e)
       (bn_bootstrap B consensus_rpc checkpoint)) (\<lambda>store.
     Inr (client\<lparr>cl_store := store\<rparr>)))"

definition bootstrap_from_slot ::
    "('p, 'b, 'x, 'h, 'c, 'u, 'v, 'g) beacon \<Rightarrow> env \<Rightarrow> 'p \<Rightarrow> u64 \<Rightarrow> string + ('p, 'x, 'h, 'c, 'u, 'g) client" where
  "bootstrap_from_slot B env consensus_rpc slot =
     bind_res (client_new B env consensus_rpc) (\<lambda>client.
     bind_res (map_err (\<lambda>e. ''Failed to fetch block for slot '' @ show_word slot @ '': '' @ e)
       (bn_get_block B (cl_rpc client) slot)) (\<lambda>block.
     let checkpoint = bn_block_root B block
     in bootstrap_from_checkpoint B env consensus_rpc checkpoint))"

definition get_current_finalizer_header_beacon_slot :: "('p, 'x, 'h, 'c, 'u, 'g) client \<Rightarrow> u64" where
  "get_current_finalizer_header_beacon_slot client = hd_slot (finalized_header (cl_store client))"

definition get_current_checkpoint ::
    "('p, 'b, 'x, 'h, 'c, 'u, 'v, 'g) beacon \<Rightarrow> ('p, 'x, 'h, 'c, 'u, 'g) client \<Rightarrow> string + b256" where
  "get_current_checkpoint B client =
     (let slot = get_current_finalizer_header_beacon_slot client in
      bind_res (map_err (\<lambda>e. ''Failed to fetch block for slot '' @ show_word slot @ '': '' @ e) (bn_get_block B (cl_rpc client) slot)) (\<lambda>block.
      Inr (bn_block_root B block)))"

definition get_latest_checkpoint ::
    "('p, 'b, 'x, 'h, 'c, 'u, 'v, 'g) beacon \<Rightarrow> env \<Rightarrow> string + b256" where
  "get_latest_checkpoint B env =
     bind_res (map_err (\<lambda>e. ''Failed to build checkpoint fallback: '' @ e) (bn_build_checkpoints B)) (\<lambda>_.
     bind_res (source_network ''NORI_SOURCE_CHAIN_ID environment variable not set'' B env) (\<lambda>(network, _).
     map_err (\<lambda>e. ''Failed to fetch latest checkpoint: '' @ e) (bn_latest_checkpoint B network)))"

definition get_latest_finality_update ::
    "('p, 'b, 'x, 'h, 'c, 'u, 'v, 'g) beacon \<Rightarrow> ('p, 'x, 'h, 'c, 'u, 'g) client \<Rightarrow> string + 'v" where
  "get_latest_finality_update B client =
     map_err (\<lambda>e. ''Failed to fetch finality update via RPC: '' @ e) (bn_get_finality_update B (cl_rpc client))"

definition client_latest_finality_slot ::
    "('p, 'b, 'x, 'h, 'c, 'u, 'v, 'g) beacon \<Rightarrow> ('p, 'x, 'h, 'c, 'u, 'g) client \<Rightarrow> string + u64" where
  "client_latest_finality_slot B client =
     bind_res (get_latest_finality_update B client) (\<lambda>fu. Inr (bn_finality_slot B fu))"

definition get_updates ::
    "('p, 'b, 'x, 'h, 'c, 'u, 'v, 'g) beacon \<Rightarrow> ('p, 'x, 'h, 'c, 'u, 'g) client \<Rightarrow> string + 'u list" where
  "get_updates B client =
     (let period = bn_calc_sync_period B (hd_slot (finalized_header (cl_store client)))
      in bn_get_updates B (cl_rpc client) period MAX_REQUEST_LIGHT_CLIENT_UPDATES)"

definition get_first_update ::
    "('p, 'b, 'x, 'h, 'c, 'u, 'v, 'g) beacon \<Rightarrow> ('p, 'x, 'h, 'c, 'u, 'g) client \<Rightarrow> string + 'u" where
  "get_first_update B client =
     (let period = bn_calc_sync_period B (get_current_finalizer_header_beacon_slot client) in
      bind_res (map_err (\<lambda>e. ''Failed to fetch light client updates for period '' @ show_word period @ '': '' @ e)
        (bn_get_updates B (cl_rpc client) period 1)) (\<lambda>updates.
      case updates of [] \<Rightarrow> Inl ''Error updates were missing 0th update.'' | u # _ \<Rightarrow> Inr u))"

section \<open>Restoring the committed store\<close>

definition get_store_with_next_sync_committee ::
    "('x, 'h, 'c, 'u, 'v, 'g) helios \<Rightarrow> u64 \<Rightarrow> ('x, 'h, 'c, 'u) lc_store \<Rightarrow> b256 \<Rightarrow> 'g \<Rightarrow> 'u
      \<Rightarrow> string + ('x, 'h, 'c, 'u) lc_store" where
  "get_store_with_next_sync_committee H expected_current_slot store genesis_root forks first_update =
     (let store_clone = store in
      bind_res (map_err (\<lambda>e. ''Verify update failed: '' @ e)
        (hl_verify_update H first_update expected_current_slot store genesis_root forks)) (\<lambda>_.
      let store = hl_apply_update H store first_update
      in Inr (store_clone\<lparr>
           next_sync_committee := next_sync_committee store,
           previous_max_active_participants := previous_max_active_participants store,
           current_max_active_participants := current_max_active_participants store\<rparr>)))"

definition client_finality_slot_and_store_hash ::
    "('p, 'b, 'x, 'h, 'c, 'u, 'v, 'g) beacon \<Rightarrow> ('x, 'h, 'c, 'u, 'v, 'g) helios \<Rightarrow> env \<Rightarrow> 'p \<Rightarrow> string + u64 \<times> b256" where
  "client_finality_slot_and_store_hash B H env consensus_rpc =
     bind_res (get_latest_checkpoint B env) (\<lambda>latest_checkpoint.
     bind_res (bootstrap_from_checkpoint B env consensus_rpc latest_checkpoint) (\<lambda>client.
     let slot = get_current_finalizer_header_beacon_slot client in
     bind_res (get_first_update B client) (\<lambda>first_update.
     bind_res (get_store_with_next_sync_committee H (bn_expected_current_slot B (cl_rpc client))
       (cl_store client) (cl_genesis_root client) (cl_forks client) first_update) (\<lambda>synced_store.
     bind_res (sha256_hash_helios_store H synced_store) (\<lambda>store_hash.
     Inr (slot, store_hash))))))"

definition prepare_consensus_proof_inputs ::
    "('p, 'b, 'x, 'h, 'c, 'u, 'v, 'g) beacon \<Rightarrow> ('x, 'h, 'c, 'u, 'v, 'g) helios \<Rightarrow> env \<Rightarrow> 'p \<Rightarrow> u64 \<Rightarrow> b256
      \<Rightarrow> string + ('x, 'h, 'c, 'u, 'v, 'g) consensus_proof_inputs" where
  "prepare_consensus_proof_inputs B H env consensus_rpc input_slot store_hash =
     bind_res (bootstrap_from_slot B env consensus_rpc input_slot) (\<lambda>client.
     bind_res (get_latest_finality_update B client) (\<lambda>finality_update.
     bind_res (get_updates B client) (\<lambda>updates.
     case updates of
       [] \<Rightarrow> Inl ''Error updates were missing 0th update.''
     | first_update # rest \<Rightarrow>
         let expected_current_slot = bn_expected_current_slot B (cl_rpc client) in
         bind_res
           (if bn_update_slot B first_update < input_slot
            then bind_res (map_err (\<lambda>e. ''Verify update failed: '' @ e)
                   (hl_verify_update H first_update expected_current_slot (cl_store client)
                     (cl_genesis_root client) (cl_forks client))) (\<lambda>_.
                 Inr (hl_apply_update H (cl_store client) first_update, rest))
            else bind_res (get_store_with_next_sync_committee H expected_current_slot (cl_store client)
                   (cl_genesis_root client) (cl_forks client) first_update) (\<lambda>store.
                 Inr (store, updates))) (\<lambda>(store, updates).
         Inr \<lparr>ci_updates = updates, ci_finality_update = finality_update,
              ci_expected_current_slot = expected_current_slot, ci_store = store,
              ci_genesis_root = cl_genesis_root client, ci_forks = cl_forks client,
              ci_store_hash = store_hash\<rparr>))))"

section \<open>The proxy\<close>

record ('p, 'q) consensus_proxy =
  cp_principal_provider_url :: 'p
  cp_backup_providers_urls :: "'p list"
  cp_all_providers_urls :: "'p list"
  cp_validation_timeout :: u64
  cp_execution_proxy :: "'q execution_proxy"

definition consensus_proxy_from_env ::
    "(string \<Rightarrow> string + 'p) \<Rightarrow> (string \<Rightarrow> string + 'q) \<Rightarrow> (string \<Rightarrow> string + address) \<Rightarrow> env
      \<Rightarrow> string + ('p, 'q) consensus_proxy" where
  "consensus_proxy_from_env parse_url parse_provider parse_address env =
     bind_res (map_res (\<lambda>t. case t of None \<Rightarrow> 300 | Some t \<Rightarrow> t)
       (var_opt env ''NORI_CONSENSUS_PROOF_INPUT_VALIDATION_TIMEOUT'' parse_u64)) (\<lambda>validation_timeout.
     bind_res (ok_or ''environment variable not found'' (env ''NORI_SOURCE_CONSENSUS_HTTP_RPCS'')) (\<lambda>s.
     case url_list parse_url s of
       [] \<Rightarrow> Inl ''No valid consensus RPC URLs found in NORI_SOURCE_CONSENSUS_HTTP_RPCS''
     | principal_url # backups \<Rightarrow>
         bind_res (execution_proxy_from_env parse_provider parse_address env) (\<lambda>execution_proxy.
         Inr \<lparr>cp_principal_provider_url = principal_url, cp_backup_providers_urls = backups,
              cp_all_providers_urls = principal_url # backups, cp_validation_timeout = validation_timeout,
              cp_execution_proxy = execution_proxy\<rparr>)))"

text \<open>What the network does to the consensus queries: timeouts and the order of completion.\<close>

record 'p consensus_net =
  cn_times_out :: "'p \<Rightarrow> bool"
  cn_order :: "nat list"

definition consensus_reply :: "bool \<Rightarrow> string + 'a \<Rightarrow> 'a reply" where
  "consensus_reply timed_out r = (if timed_out then TimedOut else Reply r)"

record ('x, 'h, 'c, 'u, 'v, 'g) validated_inputs =
  vi_output_slot :: u64
  vi_proof_inputs :: "('x, 'h, 'c, 'u, 'v, 'g) consensus_proof_inputs"
  vi_output_store_hash :: b256
  vi_execution_state_root :: b256
  vi_output_block_number :: u64

text \<open>The blocking task: run the program and apply the rules.\<close>

definition validate_consensus_inputs ::
    "('x, 'h, 'c, 'u, 'v, 'g) helios \<Rightarrow> u64 \<Rightarrow> bool \<Rightarrow> ('x, 'h, 'c, 'u, 'v, 'g) consensus_proof_inputs
      \<Rightarrow> string + ('x, 'h, 'c, 'u, 'v, 'g) validated_inputs" where
  "validate_consensus_inputs H input_slot validate ci =
     bind_res (map_err (\<lambda>_. ''consensus program failed'') (consensus_program H ci)) (\<lambda>proof_outputs.
     let output_slot = co_output_slot proof_outputs in
     if validate \<and> output_slot \<le> input_slot
     then Inl (''Output slot '' @ show_word output_slot @ '' was not greater than input slot '' @ show_word input_slot)
     else if validate \<and> output_slot mod 32 > 0
     then Inl (''Output slot '' @ show_word output_slot @ '' was a non-checkpoint slot. Preventing this as it prevents '' @
       ''bootstrapping if we go offline.'')
     else if validate \<and> co_next_sync_committee_hash proof_outputs = 0
     then Inl (''Next sync committee was zero. Preventing this as it could stop the recovery of the '' @
       ''input_store_hash when restarting.'')
     else Inr \<lparr>vi_output_slot = output_slot, vi_proof_inputs = ci,
               vi_output_store_hash = co_output_store_hash proof_outputs,
               vi_execution_state_root = co_execution_state_root proof_outputs,
               vi_output_block_number = co_output_block_number proof_outputs\<rparr>)"

definition query_validated_inputs ::
    "('p, 'b, 'x, 'h, 'c, 'u, 'v, 'g) beacon \<Rightarrow> ('x, 'h, 'c, 'u, 'v, 'g) helios \<Rightarrow> env \<Rightarrow> u64 \<Rightarrow> b256 \<Rightarrow> bool \<Rightarrow> 'p
      \<Rightarrow> string + ('x, 'h, 'c, 'u, 'v, 'g) validated_inputs" where
  "query_validated_inputs B H env input_slot store_hash validate url =
     bind_res (prepare_consensus_proof_inputs B H env url input_slot store_hash) (\<lambda>ci.
     bind_res (validate_consensus_inputs H input_slot validate ci) (\<lambda>v.
     if validate
     then bind_res (map_err (\<lambda>e. ''Failed to bootstrap from slot: '' @ e)
            (bootstrap_from_slot B env url (vi_output_slot v))) (\<lambda>_. Inr v)
     else Inr v))"

definition prepare_consensus_mpt_proof_inputs ::
    "('p, 'b, 'x, 'h, 'c, 'u, 'v, 'g) beacon \<Rightarrow> ('f, 's) guest_env \<Rightarrow> ('x, 'h, 'c, 'u, 'v, 'g) helios \<Rightarrow> env
      \<Rightarrow> 'p consensus_net \<Rightarrow> ('q, 'w) execution_net \<Rightarrow> ('p, 'q) consensus_proxy \<Rightarrow> u64 \<Rightarrow> b256 \<Rightarrow> u64 \<Rightarrow> bool
      \<Rightarrow> string fault + ('x, 'h, 'c, 'u, 'v, 'g) proof_inputs_with_window" where
  "prepare_consensus_mpt_proof_inputs B E H env CN N proxy input_slot store_hash input_queue_cursor validate =
     bind_res (map_err Failed (multiplex (cn_order CN)
       (\<lambda>url. consensus_reply (cn_times_out CN url) (query_validated_inputs B H env input_slot store_hash validate url))
       (cp_all_providers_urls proxy))) (\<lambda>v.
     case hd_execution (finalized_header (ci_store (vi_proof_inputs v))) of
       None \<Rightarrow> Inl (Failed ''Failed to get input finalized execution header'')
     | Some ex \<Rightarrow>
         prepare_execution_inputs E H N (cp_execution_proxy proxy) input_slot (vi_output_slot v)
           (ex_block_number ex) (vi_output_block_number v) input_queue_cursor (vi_proof_inputs v)
           (vi_output_store_hash v) (vi_execution_state_root v))"

definition get_latest_finality_slot_and_store_hash ::
    "('p, 'b, 'x, 'h, 'c, 'u, 'v, 'g) beacon \<Rightarrow> ('x, 'h, 'c, 'u, 'v, 'g) helios \<Rightarrow> env \<Rightarrow> 'p consensus_net
      \<Rightarrow> ('p, 'q) consensus_proxy \<Rightarrow> string + u64 \<times> b256" where
  "get_latest_finality_slot_and_store_hash B H env CN proxy =
     query_with_fallback (cn_order CN)
       (\<lambda>url. consensus_reply (cn_times_out CN url) (client_finality_slot_and_store_hash B H env url))
       (cp_principal_provider_url proxy) (cp_backup_providers_urls proxy)"

definition get_latest_finality_slot ::
    "('p, 'b, 'x, 'h, 'c, 'u, 'v, 'g) beacon \<Rightarrow> env \<Rightarrow> 'p consensus_net \<Rightarrow> ('p, 'q) consensus_proxy \<Rightarrow> string + u64" where
  "get_latest_finality_slot B env CN proxy =
     multiplex (cn_order CN)
       (\<lambda>url. consensus_reply (cn_times_out CN url)
          (bind_res (get_latest_checkpoint B env) (\<lambda>checkpoint.
           bind_res (bootstrap_from_checkpoint B env url checkpoint) (\<lambda>client.
           client_latest_finality_slot B client))))
       (cp_all_providers_urls proxy)"

section \<open>Lemmas\<close>

lemma get_store_ok:
  "get_store_with_next_sync_committee H now s g f u = Inr t \<longleftrightarrow>
     hl_verify_update H u now s g f = Inr () \<and>
     t = s\<lparr>next_sync_committee := next_sync_committee (hl_apply_update H s u),
           previous_max_active_participants := previous_max_active_participants (hl_apply_update H s u),
           current_max_active_participants := current_max_active_participants (hl_apply_update H s u)\<rparr>"
  by (auto simp: get_store_with_next_sync_committee_def Let_def bind_res_eq_Inr)

lemma validate_consensus_inputs_ok:
  assumes "validate_consensus_inputs H input_slot validate ci = Inr v"
  shows "\<exists>co. consensus_program H ci = Inr co \<and> vi_proof_inputs v = ci \<and>
    vi_output_slot v = co_output_slot co \<and> vi_output_store_hash v = co_output_store_hash co \<and>
    vi_execution_state_root v = co_execution_state_root co \<and>
    vi_output_block_number v = co_output_block_number co \<and>
    (validate \<longrightarrow> input_slot < co_output_slot co \<and> co_output_slot co mod 32 = 0 \<and>
      co_next_sync_committee_hash co \<noteq> 0)"
  using assms
  by (auto simp: validate_consensus_inputs_def Let_def bind_res_eq_Inr not_le word_gt_0
      split: if_splits del: mod_0_imp_dvd)

lemma prepare_consensus_store_hash:
  "prepare_consensus_proof_inputs B H env url slot h = Inr ci \<Longrightarrow> ci_store_hash ci = h"
  by (auto simp: prepare_consensus_proof_inputs_def Let_def bind_res_eq_Inr case_list_eq_Inr)

lemma query_validated_inputs_ok:
  assumes "query_validated_inputs B H env input_slot store_hash validate url = Inr v"
  shows "validate_consensus_inputs H input_slot validate (vi_proof_inputs v) = Inr v"
    and "prepare_consensus_proof_inputs B H env url input_slot store_hash = Inr (vi_proof_inputs v)"
    and "validate \<Longrightarrow> is_ok (bootstrap_from_slot B env url (vi_output_slot v))"
proof -
  from assms obtain ci where ci: "prepare_consensus_proof_inputs B H env url input_slot store_hash = Inr ci"
    and v: "validate_consensus_inputs H input_slot validate ci = Inr v"
    and boot: "validate \<Longrightarrow> is_ok (bootstrap_from_slot B env url (vi_output_slot v))"
    by (auto simp: query_validated_inputs_def bind_res_eq_Inr is_ok_iff split: if_splits)
  have "vi_proof_inputs v = ci" using validate_consensus_inputs_ok[OF v] by blast
  with ci v boot show "validate_consensus_inputs H input_slot validate (vi_proof_inputs v) = Inr v"
    "prepare_consensus_proof_inputs B H env url input_slot store_hash = Inr (vi_proof_inputs v)"
    "validate \<Longrightarrow> is_ok (bootstrap_from_slot B env url (vi_output_slot v))" by auto
qed

lemma prepare_consensus_mpt_ok:
  assumes "prepare_consensus_mpt_proof_inputs B E H env CN N proxy input_slot store_hash cursor validate = Inr w"
  shows "\<exists>v blk. multiplex (cn_order CN)
       (\<lambda>url. consensus_reply (cn_times_out CN url) (query_validated_inputs B H env input_slot store_hash validate url))
       (cp_all_providers_urls proxy) = Inr v \<and>
     prepare_execution_inputs E H N (cp_execution_proxy proxy) input_slot (vi_output_slot v)
           blk (vi_output_block_number v) cursor (vi_proof_inputs v)
           (vi_output_store_hash v) (vi_execution_state_root v) = Inr w"
  using assms unfolding prepare_consensus_mpt_proof_inputs_def bind_res_eq_Inr case_option_eq_Inr map_err_eq_Inr
  by (elim exE conjE) (intro exI conjI)

lemma consensus_reply_ok: "consensus_reply t r = Reply (Inr x) \<Longrightarrow> r = Inr x"
  by (auto simp: consensus_reply_def split: if_splits)

lemma prepared_window_accepted:
  assumes "prepare_consensus_mpt_proof_inputs B E H env CN N proxy input_slot store_hash cursor validate = Inr w"
  shows "\<exists>out. consensus_mpt_program E H (wi_proof_inputs w) = Inr out \<and>
    po_output_slot out = wi_expected_output_slot w \<and>
    po_output_store_hash out = wi_expected_output_store_hash w \<and>
    po_output_block_number out = wi_expected_output_block_number w \<and>
    po_output_queue_cursor out = wi_expected_output_queue_cursor w \<and>
    po_input_store_hash out = store_hash \<and> po_input_queue_cursor out = cursor \<and>
    wi_input_slot w = input_slot \<and>
    (validate \<longrightarrow> input_slot < po_output_slot out \<and> po_output_slot out mod 32 = 0 \<and>
      po_next_sync_committee_hash out \<noteq> 0 \<and>
      (\<exists>url \<in> set (cp_all_providers_urls proxy). is_ok (bootstrap_from_slot B env url (po_output_slot out))))"
proof -
  from prepare_consensus_mpt_ok[OF assms] obtain v blk where v: "multiplex (cn_order CN)
       (\<lambda>url. consensus_reply (cn_times_out CN url) (query_validated_inputs B H env input_slot store_hash validate url))
       (cp_all_providers_urls proxy) = Inr v"
    and w: "prepare_execution_inputs E H N (cp_execution_proxy proxy) input_slot (vi_output_slot v)
           blk (vi_output_block_number v) cursor (vi_proof_inputs v)
           (vi_output_store_hash v) (vi_execution_state_root v) = Inr w"
    by blast
  from mplex.run_sound[OF v] obtain url where url: "url \<in> set (cp_all_providers_urls proxy)"
    "query_validated_inputs B H env input_slot store_hash validate url = Inr v"
    by (auto dest: consensus_reply_ok)
  note q = query_validated_inputs_ok[OF url(2)]
  from validate_consensus_inputs_ok[OF q(1)] obtain co where
    co: "consensus_program H (vi_proof_inputs v) = Inr co" "vi_output_slot v = co_output_slot co"
    "vi_output_store_hash v = co_output_store_hash co" "vi_output_block_number v = co_output_block_number co"
    "validate \<longrightarrow> input_slot < co_output_slot co \<and> co_output_slot co mod 32 = 0 \<and> co_next_sync_committee_hash co \<noteq> 0"
    by (elim exE conjE) (rule that)
  from prepare_execution_inputs_ok[OF w] obtain out where
    out: "consensus_mpt_program E H (wi_proof_inputs w) = Inr out"
    "po_output_queue_cursor out = wi_expected_output_queue_cursor w" "po_input_queue_cursor out = cursor"
    "wi_input_slot w = input_slot" "wi_expected_output_slot w = vi_output_slot v"
    "wi_expected_output_block_number w = vi_output_block_number v"
    "wi_expected_output_store_hash w = vi_output_store_hash v"
    and ci: "vi_proof_inputs v = consensus_part (wi_proof_inputs w)"
    by (auto simp: consensus_part_def)
  have agree: "co = consensus_outputs_of out"
    using consensus_part_outputs[OF out(1)] co(1) unfolding ci by simp
  have "po_input_store_hash out = store_hash"
    using prepare_consensus_store_hash[OF q(2)] out(1) ci
    by (auto simp: consensus_mpt_program_ok consensus_part_def)
  with out co url(1) q(3) show ?thesis
    by (auto simp: agree consensus_outputs_of_def)
qed

text \<open>
  One consensus provider that answers with valid inputs is enough, if the principal execution provider
  serves the block any of them may end on.
\<close>

definition honest_execution ::
    "('f, 's) guest_env \<Rightarrow> ('q, 'w) execution_net \<Rightarrow> ('p, 'q) consensus_proxy \<Rightarrow> u64
      \<Rightarrow> ('x, 'h, 'c, 'u, 'v, 'g) validated_inputs \<Rightarrow> chain_view \<Rightarrow> bool" where
  "honest_execution E N proxy cursor v C \<longleftrightarrow>
     hd_execution (finalized_header (ci_store (vi_proof_inputs v))) \<noteq> None \<and>
     honest_provider E (net_rpc N (ep_principal_provider (cp_execution_proxy proxy))) (vi_output_block_number v)
       (vi_execution_state_root v) (ep_proof_queue_address (cp_execution_proxy proxy)) cursor C"

lemma honest_execution_window:
  assumes v: "multiplex (cn_order CN)
       (\<lambda>url. consensus_reply (cn_times_out CN url) (query_validated_inputs B H env input_slot store_hash True url))
       (cp_all_providers_urls proxy) = Inr v"
    and honest: "honest_execution E N proxy cursor v C" and "field_laws E"
    and t: "\<not> net_times_out N (ep_principal_provider (cp_execution_proxy proxy))"
  shows "is_ok (prepare_consensus_mpt_proof_inputs B E H env CN N proxy input_slot store_hash cursor True)"
proof -
  from mplex.run_sound[OF v] obtain url where
    url: "query_validated_inputs B H env input_slot store_hash True url = Inr v"
    by (auto dest: consensus_reply_ok)
  obtain co where co: "consensus_program H (vi_proof_inputs v) = Inr co" "co_output_slot co mod 32 = 0"
    "co_execution_state_root co = vi_execution_state_root v"
    using validate_consensus_inputs_ok[OF query_validated_inputs_ok(1)[OF url]]
    by (elim exE conjE) (rule that, simp_all)
  from honest[unfolded honest_execution_def] have
    ex: "hd_execution (finalized_header (ci_store (vi_proof_inputs v))) \<noteq> None"
    and p: "honest_provider E (net_rpc N (ep_principal_provider (cp_execution_proxy proxy))) (vi_output_block_number v)
       (vi_execution_state_root v) (ep_proof_queue_address (cp_execution_proxy proxy)) cursor C" by simp_all
  have "is_ok (prepare_execution_inputs E H N (cp_execution_proxy proxy) input_slot (vi_output_slot v) blk
      (vi_output_block_number v) cursor (vi_proof_inputs v) (vi_output_store_hash v) (vi_execution_state_root v))" for blk
    using prepare_execution_inputs_live[OF p \<open>field_laws E\<close> t co] unfolding is_ok_iff by metis
  with ex show ?thesis
    unfolding prepare_consensus_mpt_proof_inputs_def v by (auto split: option.splits)
qed

section \<open>A concrete instance\<close>

text \<open>A node at slot 96 of the sample light client, serving the sample chain.\<close>

definition sample_beacon :: "(nat, u64, unit, unit, u8, u64, u64, unit) beacon" where
  "sample_beacon = \<lparr>
     bn_get_block = (\<lambda>_ slot. if slot mod 32 = 0 then Inr slot else Inl ''no block''),
     bn_block_root = ucast,
     bn_bootstrap = (\<lambda>_ root. Inr (sample_store (ucast root))),
     bn_get_finality_update = (\<lambda>_. Inr 96),
     bn_get_updates = (\<lambda>_ _ _. Inr [70]),
     bn_expected_current_slot = (\<lambda>_. 1000),
     bn_calc_sync_period = (\<lambda>slot. slot div 8192),
     bn_build_checkpoints = Inr (),
     bn_latest_checkpoint = (\<lambda>_. Inr 64),
     bn_update_slot = (\<lambda>u. u),
     bn_finality_slot = (\<lambda>u. u),
     bn_network = (\<lambda>_. Inr (0, ())),
     bn_new_store = sample_store 0\<rparr>"

definition sample_var :: env where
  "sample_var = [''NORI_SOURCE_CHAIN_ID'' \<mapsto> ''1'']"

definition sample_proxy :: "(nat, nat) consensus_proxy" where
  "sample_proxy = \<lparr>cp_principal_provider_url = 0, cp_backup_providers_urls = [1],
     cp_all_providers_urls = [0, 1], cp_validation_timeout = 300,
     cp_execution_proxy = \<lparr>ep_principal_provider = 0, ep_backup_providers = [],
       ep_proof_queue_address = 7, ep_validation_timeout = 300, ep_chunk_limit = 100\<rparr>\<rparr>"

definition sample_net :: "(nat, unit) execution_net" where
  "sample_net = \<lparr>net_rpc = (\<lambda>_. sample_rpc), net_world = (\<lambda>_. ()), net_times_out = (\<lambda>_. False),
     net_order = [], net_hash_order = (\<lambda>_. [])\<rparr>"

definition sample_cnet :: "nat consensus_net" where
  "sample_cnet = \<lparr>cn_times_out = (\<lambda>_. False), cn_order = []\<rparr>"

lemma sample_network: "source_network unset sample_beacon sample_var = Inr (1, 0, ())"
  by (simp add: source_network_def sample_var_def sample_beacon_def parse_u64_def parse_uint_def Let_def)

lemma sample_bootstrap:
  "bootstrap_from_slot sample_beacon sample_var url slot =
     (if slot mod 32 = 0
      then Inr \<lparr>cl_rpc = url, cl_genesis_root = 0, cl_forks = (), cl_store = sample_store slot\<rparr>
      else Inl (''Failed to fetch block for slot '' @ show_word slot @ '': '' @ ''no block''))"
proof -
  have u: "ucast (ucast slot :: b256) = slot" by (rule ucast_up_ucast_id) (simp add: is_up)
  show ?thesis
    using sample_network
    by (simp add: bootstrap_from_slot_def bootstrap_from_checkpoint_def client_new_def)
      (simp add: sample_beacon_def u)
qed

lemma sample_prepare_consensus:
  "prepare_consensus_proof_inputs sample_beacon sample_helios sample_var url 64 h =
     Inr \<lparr>ci_updates = [70], ci_finality_update = 96, ci_expected_current_slot = 1000,
          ci_store = sample_store 64, ci_genesis_root = 0, ci_forks = (), ci_store_hash = h\<rparr>"
  unfolding prepare_consensus_proof_inputs_def sample_bootstrap
  by (simp add: get_latest_finality_update_def get_updates_def sample_beacon_def Let_def get_store_ok bind_res_def)
    (simp add: get_store_with_next_sync_committee_def Let_def sample_helios_def sample_store_def sample_header_def)

lemma sample_window_hash:
  "sha256_hash_helios_store sample_helios ((sample_store 64)\<lparr>finalized_header := sample_header 96\<rparr>) = Inr (sample_hash 96)"
  unfolding sample_hash_ok[symmetric] by (rule hash_frame) (simp add: committed_part_def sample_store_def)

lemma sample_validated:
  "\<exists>v. query_validated_inputs sample_beacon sample_helios sample_var 64 (sample_hash 64) True url = Inr v \<and>
     vi_execution_state_root v = 1 \<and> hd_execution (finalized_header (ci_store (vi_proof_inputs v))) \<noteq> None"
proof -
  let ?ci = "consensus_part (sample_inputs 64 [70] 96)"
  have p: "prepare_consensus_proof_inputs sample_beacon sample_helios sample_var url 64 (sample_hash 64) = Inr ?ci"
    unfolding sample_prepare_consensus by (simp add: consensus_part_def sample_inputs_def)
  let ?t = "(sample_store 64)\<lparr>finalized_header := sample_header 96\<rparr>"
  have c: "consensus_program sample_helios ?ci = Inr \<lparr>co_input_slot = 64, co_input_store_hash = sample_hash 64,
      co_output_slot = 96, co_output_store_hash = sample_hash 96, co_execution_state_root = 1,
      co_next_sync_committee_hash = 6, co_output_block_number = 196\<rparr>"
    unfolding consensus_program_ok
    using sample_transition[of 64 70 96] sample_hash_ok[of 64] sample_window_hash
    by (intro exI[of _ ?t] exI[of _ "\<lparr>ex_state_root = 1, ex_block_number = 196, ex_rest = ()\<rparr>"] conjI)
      (simp_all add: consensus_part_def sample_inputs_def,
       simp_all add: sample_header_def sample_store_def committee_hash_def sample_helios_def)
  show ?thesis
    by (simp add: query_validated_inputs_def p validate_consensus_inputs_def c sample_bootstrap)
      (simp add: consensus_part_def sample_inputs_def sample_store_def sample_header_def)
qed

lemma sample_honest_execution:
  assumes "query_validated_inputs sample_beacon sample_helios sample_var 64 (sample_hash 64) True url = Inr v"
  shows "honest_execution sample_env sample_net sample_proxy 0 v sample_view"
proof -
  from assms sample_validated[of url] have "vi_execution_state_root v = 1"
    "hd_execution (finalized_header (ci_store (vi_proof_inputs v))) \<noteq> None" by auto
  then show ?thesis
    using sample_rpc_follows sample_view_verifies sample_queue_well_formed
    by (simp add: honest_execution_def honest_provider_def sample_net_def sample_proxy_def)
qed

lemma sample_slot: "hd_slot (finalized_header (sample_store slot)) = slot"
  by (simp add: sample_store_def sample_header_def)

lemma sample_checkpoint: "get_latest_checkpoint sample_beacon sample_var = Inr 64"
  unfolding get_latest_checkpoint_def sample_network by (simp add: sample_beacon_def)

lemma sample_cold_start:
  "client_finality_slot_and_store_hash sample_beacon sample_helios sample_var url = Inr (64, sample_hash 64)"
proof -
  have "bootstrap_from_checkpoint sample_beacon sample_var url 64 =
      Inr \<lparr>cl_rpc = url, cl_genesis_root = 0, cl_forks = (), cl_store = sample_store 64\<rparr>"
    unfolding bootstrap_from_checkpoint_def client_new_def sample_network by (simp add: sample_beacon_def)
  moreover have "get_store_with_next_sync_committee sample_helios 1000 (sample_store 64) 0 () 70 = Inr (sample_store 64)"
    by (simp add: get_store_ok) (simp add: sample_helios_def sample_store_def sample_header_def)
  ultimately show ?thesis
    unfolding client_finality_slot_and_store_hash_def sample_checkpoint
    by (simp add: sample_hash_ok Let_def get_first_update_def get_current_finalizer_header_beacon_slot_def)
      (simp add: sample_beacon_def sample_hash_ok sample_slot)
qed

lemma sample_window:
  "is_ok (prepare_consensus_mpt_proof_inputs sample_beacon sample_env sample_helios sample_var sample_cnet
     sample_net sample_proxy 64 (sample_hash 64) 0 True)"
proof -
  let ?q = "\<lambda>url :: nat. query_validated_inputs sample_beacon sample_helios sample_var 64 (sample_hash 64) True url"
  let ?m = "multiplex (cn_order sample_cnet)
     (\<lambda>url. consensus_reply (cn_times_out sample_cnet url) (?q url)) (cp_all_providers_urls sample_proxy)"
  obtain v0 where "?q 0 = Inr v0" using sample_validated by blast
  then have "\<exists>v. ?m = Inr v"
    by (intro mplex.run_live[of 0 _ _ v0]) (simp_all add: sample_proxy_def consensus_reply_def sample_cnet_def)
  then obtain v where v: "?m = Inr v" ..
  from mplex.run_sound[OF this] obtain url where "?q url = Inr v" by (auto dest: consensus_reply_ok)
  from sample_honest_execution[OF this] have "honest_execution sample_env sample_net sample_proxy 0 v sample_view" .
  from honest_execution_window[OF v this sample_env_field_laws] show ?thesis by (simp add: sample_net_def)
qed

section \<open>Properties\<close>

text \<open>C17: What the host expects is what the guest commits to. Whenever proof inputs are prepared for a window
  (for every timing of the providers, and validated or not), the guest program accepts them, and the
  expected output slot, store hash, block number and queue cursor recorded beside them are the
  public outputs of that run, which starts from the given store hash and cursor. With validation
  the output slot is a checkpoint slot ahead of the input slot, the committed next sync committee is
  not zero, and some provider can bootstrap from the output slot.\<close>

theorem window_expectations_match_guest:
  assumes "prepare_consensus_mpt_proof_inputs B E H env CN N proxy input_slot store_hash cursor validate = Inr w"
  shows "\<exists>out. consensus_mpt_program E H (wi_proof_inputs w) = Inr out \<and>
    po_output_slot out = wi_expected_output_slot w \<and>
    po_output_store_hash out = wi_expected_output_store_hash w \<and>
    po_output_block_number out = wi_expected_output_block_number w \<and>
    po_output_queue_cursor out = wi_expected_output_queue_cursor w \<and>
    po_input_store_hash out = store_hash \<and> po_input_queue_cursor out = cursor \<and>
    wi_input_slot w = input_slot \<and>
    (validate \<longrightarrow> input_slot < po_output_slot out \<and> po_output_slot out mod 32 = 0 \<and>
      po_next_sync_committee_hash out \<noteq> 0 \<and>
      (\<exists>url \<in> set (cp_all_providers_urls proxy). is_ok (bootstrap_from_slot B env url (po_output_slot out))))"
  using assms by (rule prepared_window_accepted)

theorem window_expectations_match_guest_witness:
  "\<exists>w out. prepare_consensus_mpt_proof_inputs sample_beacon sample_env sample_helios sample_var sample_cnet
     sample_net sample_proxy 64 (sample_hash 64) 0 True = Inr w \<and>
   consensus_mpt_program sample_env sample_helios (wi_proof_inputs w) = Inr out \<and>
   po_output_slot out = wi_expected_output_slot w \<and> 64 < po_output_slot out"
proof -
  obtain w where w: "prepare_consensus_mpt_proof_inputs sample_beacon sample_env sample_helios sample_var sample_cnet
     sample_net sample_proxy 64 (sample_hash 64) 0 True = Inr w"
    using sample_window by (auto simp: is_ok_iff)
  from window_expectations_match_guest[OF w] show ?thesis using w by auto
qed

text \<open>C33: Preparation is live. If some consensus provider answers with valid inputs before its timeout and the
  principal execution provider answers in time and serves, for whichever valid inputs are taken, the
  chain at their output block with a well formed queue not behind the cursor, then a proof window
  is prepared.\<close>

theorem window_prepared_if_honest:
  assumes "url \<in> set (cp_all_providers_urls proxy)" and "\<not> cn_times_out CN url"
    and "is_ok (query_validated_inputs B H env input_slot store_hash True url)"
    and "\<And>p v. p \<in> set (cp_all_providers_urls proxy) \<Longrightarrow>
      query_validated_inputs B H env input_slot store_hash True p = Inr v \<Longrightarrow>
      \<exists>C. honest_execution E N proxy cursor v C"
    and "field_laws E" and "\<not> net_times_out N (ep_principal_provider (cp_execution_proxy proxy))"
  shows "is_ok (prepare_consensus_mpt_proof_inputs B E H env CN N proxy input_slot store_hash cursor True)"
proof -
  let ?f = "\<lambda>url. consensus_reply (cn_times_out CN url) (query_validated_inputs B H env input_slot store_hash True url)"
  from assms(2,3) obtain x where "?f url = Reply (Inr x)" by (auto simp: is_ok_iff consensus_reply_def)
  from mplex.run_live[OF assms(1), of ?f, OF this] obtain v where
    v: "multiplex (cn_order CN) ?f (cp_all_providers_urls proxy) = Inr v" by blast
  from mplex.run_sound[OF v] obtain p where "p \<in> set (cp_all_providers_urls proxy)"
    "query_validated_inputs B H env input_slot store_hash True p = Inr v"
    by (auto dest: consensus_reply_ok)
  from assms(4)[OF this] obtain C where "honest_execution E N proxy cursor v C" ..
  from honest_execution_window[OF v this assms(5,6)] show ?thesis .
qed

theorem window_prepared_if_honest_witness:
  "is_ok (prepare_consensus_mpt_proof_inputs sample_beacon sample_env sample_helios sample_var sample_cnet
     sample_net sample_proxy 64 (sample_hash 64) 0 True)"
proof (rule window_prepared_if_honest[of 0])
  show "is_ok (query_validated_inputs sample_beacon sample_helios sample_var 64 (sample_hash 64) True (0 :: nat))"
    using sample_validated[of 0] by (auto simp: is_ok_iff)
  show "\<exists>C. honest_execution sample_env sample_net sample_proxy 0 v C"
    if "query_validated_inputs sample_beacon sample_helios sample_var 64 (sample_hash 64) True p = Inr v" for p v
    using sample_honest_execution[OF that] by blast
qed (simp_all add: sample_proxy_def sample_cnet_def sample_net_def sample_env_field_laws)



end
