(* ===== verification/Nori_Event_Loop.thy ===== *)
theory Nori_Event_Loop
  imports Nori_Prelude
begin

text \<open>
  The shape shared by the actors of the bridge (\<open>finality_change_detector.rs\<close>, \<open>bridge_head/api.rs\<close>,
  \<open>bridge_head/observer.rs\<close>): \<open>loop { tokio::select! { ... } }\<close>, where every turn handles one event,
  changes the actor's state, sends messages and may break out of the loop. A turn is the new state, the
  messages that were sent, in order, and the reason for leaving the loop if there is one. Which event
  comes next is left open: a run is a list of events.
\<close>

section \<open>Turns\<close>

type_synonym ('s, 'o, 'e) turn = "'s \<times> 'o list \<times> 'e option"

definition stay :: "'s \<Rightarrow> ('s, 'o, 'e) turn" where
  "stay s = (s, [], None)"

definition leave :: "'e \<Rightarrow> 's \<Rightarrow> ('s, 'o, 'e) turn" where
  "leave e s = (s, [], Some e)"

text \<open>\<open>tx.send(m).await\<close>: fails when the receiver is gone.\<close>

definition send_on :: "bool \<Rightarrow> 'o \<Rightarrow> 'e \<Rightarrow> 's \<Rightarrow> ('s, 'o, 'e) turn" where
  "send_on receiver_alive m e s = (if receiver_alive then (s, [m], None) else (s, [], Some e))"

text \<open>An effect that cannot fail.\<close>

definition perform :: "'o \<Rightarrow> 's \<Rightarrow> ('s, 'o, 'e) turn" where
  "perform m s = (s, [m], None)"

definition and_then :: "('s, 'o, 'e) turn \<Rightarrow> ('s \<Rightarrow> ('s, 'o, 'e) turn) \<Rightarrow> ('s, 'o, 'e) turn" where
  "and_then t f = (case t of
     (s, outs, Some e) \<Rightarrow> (s, outs, Some e)
   | (s, outs, None) \<Rightarrow> (case f s of (s', outs', r) \<Rightarrow> (s', outs @ outs', r)))"

fun run_loop :: "('s \<Rightarrow> 'ev \<Rightarrow> ('s, 'o, 'e) turn) \<Rightarrow> 's \<Rightarrow> 'ev list \<Rightarrow> ('s, 'o, 'e) turn" where
  "run_loop step s [] = stay s"
| "run_loop step s (ev # evs) = and_then (step s ev) (\<lambda>s'. run_loop step s' evs)"

lemma turn_simps [simp]:
  "and_then (stay s) f = f s"
  "and_then (leave e s) f = leave e s"
  "and_then (s, outs, Some e) f = (s, outs, Some e)"
  "and_then (s, outs, None) f = (case f s of (s', outs', r) \<Rightarrow> (s', outs @ outs', r))"
  by (simp_all add: and_then_def stay_def leave_def split: prod.splits)

lemma send_on_open [simp]: "send_on True m e s = (s, [m], None)"
  by (simp add: send_on_def)

lemma and_then_eq:
  "and_then t f = (s', outs, r) \<longleftrightarrow>
     (\<exists>s o1. t = (s, o1, None) \<and> (\<exists>o2. f s = (s', o2, r) \<and> outs = o1 @ o2)) \<or>
     (\<exists>e. t = (s', outs, Some e) \<and> r = Some e)"
  by (cases t rule: prod_cases3; cases "snd (snd t)") (auto split: prod.splits)

lemma and_then_assoc: "and_then (and_then t f) g = and_then t (\<lambda>s. and_then (f s) g)"
  by (auto simp: and_then_def split: prod.splits option.splits)

lemma run_loop_append:
  "run_loop step s (evs @ evs') = and_then (run_loop step s evs) (\<lambda>s'. run_loop step s' evs')"
  by (induction evs arbitrary: s) (simp_all add: and_then_assoc)

section \<open>Invariants of a loop\<close>

text \<open>
  The contract of a loop: what each turn keeps (\<open>inv\<close>) and what holds of every message it sends when
  it started from a state in which \<open>inv\<close> holds. \<open>ok\<close> restricts the events the environment may send.
\<close>

locale event_loop =
  fixes step :: "'s \<Rightarrow> 'ev \<Rightarrow> ('s, 'o, 'e) turn"
    and inv :: "'s \<Rightarrow> bool"
    and ok :: "'ev \<Rightarrow> bool"
    and sound :: "'o \<Rightarrow> bool"
  assumes step_inv: "inv s \<Longrightarrow> ok ev \<Longrightarrow> step s ev = (s', outs, r) \<Longrightarrow> inv s'"
    and step_sound: "inv s \<Longrightarrow> ok ev \<Longrightarrow> step s ev = (s', outs, r) \<Longrightarrow> m \<in> set outs \<Longrightarrow> sound m"
begin

lemma run_keeps:
  assumes "inv s" and "list_all ok evs" and "run_loop step s evs = (s', outs, r)"
  shows "inv s' \<and> list_all sound outs"
  using assms
proof (induction evs arbitrary: s outs)
  case (Cons ev evs)
  from Cons.prems(3) consider s1 o1 o2 where "step s ev = (s1, o1, None)" "run_loop step s1 evs = (s', o2, r)"
      "outs = o1 @ o2" | e where "step s ev = (s', outs, Some e)" "r = Some e"
    by (auto simp: and_then_eq)
  then show ?case
  proof cases
    case 1
    from Cons.prems(1,2) have ok: "inv s" "ok ev" "list_all ok evs" by auto
    from Cons.IH[OF step_inv[OF ok(1,2) 1(1)] ok(3) 1(2)] step_sound[OF ok(1,2) 1(1)] 1(3)
    show ?thesis by (auto simp: list_all_iff)
  next
    case 2
    from Cons.prems(1,2) have ok: "inv s" "ok ev" by auto
    from step_inv[OF ok 2(1)] step_sound[OF ok 2(1)] show ?thesis by (auto simp: list_all_iff)
  qed
qed (auto simp: stay_def)

end

end
