(* ===== verification/Nori_Detector.thy ===== *)
theory Nori_Detector
  imports Nori_Consensus_Rpc Nori_Event_Loop
begin

text \<open>
  The finality change detector (\<open>nori/src/bridge_head/finality_change_detector.rs\<close>): the validation actor
  that turns a job into validated proof inputs for one or two windows, the job submission with the filter of
  duplicate windows, the four handlers of the detector's event loop, and the system made of the detector, the
  validation actor and the two channels of capacity one between them.

  A handler is a turn of \<open>Nori_Event_Loop\<close>; log output is not modelled. Whether the receiver at the other
  end of a channel is alive is an argument of the turn.
\<close>

section \<open>Updates, jobs and windows\<close>

record detector_update =
  fu_slot :: u64
  fu_store_hash :: b256
  fu_queue_cursor :: u64

record detector_job =
  fj_slot :: u64
  fj_store_hash :: b256
  fj_queue_cursor :: u64
  fj_next_expected_output :: "detector_update option"

record ('x, 'h, 'c, 'u, 'v, 'g) dual_inputs =
  current_window :: "('x, 'h, 'c, 'u, 'v, 'g) proof_inputs_with_window"
  next_window :: "('x, 'h, 'c, 'u, 'v, 'g) proof_inputs_with_window option"

text \<open>What preparing proof inputs answers, by input slot, store hash, queue cursor and whether to validate.\<close>

type_synonym ('x, 'h, 'c, 'u, 'v, 'g) preparation =
  "u64 \<Rightarrow> b256 \<Rightarrow> u64 \<Rightarrow> bool \<Rightarrow> string fault + ('x, 'h, 'c, 'u, 'v, 'g) proof_inputs_with_window"

section \<open>The validation actor\<close>

text \<open>
  One job. The two preparations of a dual job run concurrently, so they may find the network in different
  conditions and are two arguments. A panic in either aborts the actor.
\<close>

definition run_validation_job ::
    "('x, 'h, 'c, 'u, 'v, 'g) preparation \<Rightarrow> ('x, 'h, 'c, 'u, 'v, 'g) preparation \<Rightarrow> detector_job
      \<Rightarrow> string fault + ('x, 'h, 'c, 'u, 'v, 'g) dual_inputs" where
  "run_validation_job prepare_current prepare_next job =
     (let current = prepare_current (fj_slot job) (fj_store_hash job) (fj_queue_cursor job) True in
      case fj_next_expected_output job of
        Some next_expected_output \<Rightarrow>
          (let next = prepare_next (fu_slot next_expected_output) (fu_store_hash next_expected_output)
                 (fu_queue_cursor next_expected_output) True in
           case (current, next) of
             (Inl (Panicked p), _) \<Rightarrow> Inl (Panicked p)
           | (_, Inl (Panicked p)) \<Rightarrow> Inl (Panicked p)
           | (Inl (Failed e), _) \<Rightarrow> Inl (Failed e)
           | (Inr current_res, Inl (Failed e)) \<Rightarrow> Inl (Failed e)
           | (Inr current_res, Inr next_res) \<Rightarrow>
               Inr \<lparr>current_window = current_res, next_window = Some next_res\<rparr>)
      | None \<Rightarrow>
          (case current of
             Inl e \<Rightarrow> Inl e
           | Inr current_res \<Rightarrow> Inr \<lparr>current_window = current_res, next_window = None\<rparr>))"

section \<open>The detector\<close>

record detector =
  d_slot :: u64
  d_store_hash :: b256
  d_queue_cursor :: u64
  d_latest_slot :: u64
  d_in_flight :: bool
  d_stale :: bool
  d_next_expected_output :: "detector_update option"

datatype ('x, 'h, 'c, 'u, 'v, 'g) detector_event =
    StageInput "detector_update option"
  | AdvanceInput "detector_update option"
  | ValidationResult "(string + ('x, 'h, 'c, 'u, 'v, 'g) dual_inputs) option"
  | PollTick

datatype ('x, 'h, 'c, 'u, 'v, 'g) detector_message =
    StartJob detector_job
  | FinalityOutput "('x, 'h, 'c, 'u, 'v, 'g) dual_inputs"

type_synonym ('x, 'h, 'c, 'u, 'v, 'g) detector_turn =
  "(detector, ('x, 'h, 'c, 'u, 'v, 'g) detector_message, string) turn"

definition filtered_next :: "u64 \<Rightarrow> detector_update option \<Rightarrow> detector_update option" where
  "filtered_next slot next_expected_output =
     (case next_expected_output of
        Some n \<Rightarrow> if fu_slot n \<noteq> slot then Some n else None
      | None \<Rightarrow> None)"

definition job_of :: "detector \<Rightarrow> detector_job" where
  "job_of st = \<lparr>fj_slot = d_slot st, fj_store_hash = d_store_hash st, fj_queue_cursor = d_queue_cursor st,
     fj_next_expected_output = filtered_next (d_slot st) (d_next_expected_output st)\<rparr>"

definition try_start_validation_job ::
    "bool \<Rightarrow> string \<Rightarrow> detector \<Rightarrow> ('x, 'h, 'c, 'u, 'v, 'g) detector_turn" where
  "try_start_validation_job worker_alive err st =
     and_then (send_on worker_alive (StartJob (job_of st)) err st) (\<lambda>st. stay (st\<lparr>d_in_flight := True\<rparr>))"

definition on_stage_input :: "detector_update option \<Rightarrow> detector \<Rightarrow> ('x, 'h, 'c, 'u, 'v, 'g) detector_turn" where
  "on_stage_input msg st = (case msg of
     Some update \<Rightarrow>
       (let st = st\<lparr>d_next_expected_output := Some update\<rparr> in
        stay (if d_in_flight st then st\<lparr>d_stale := True\<rparr> else st))
   | None \<Rightarrow> leave ''staged proof provider dropped'' st)"

definition on_advance_input :: "detector_update option \<Rightarrow> detector \<Rightarrow> ('x, 'h, 'c, 'u, 'v, 'g) detector_turn" where
  "on_advance_input msg st = (case msg of
     Some update \<Rightarrow>
       (let st = st\<lparr>d_slot := fu_slot update, d_store_hash := fu_store_hash update,
                    d_queue_cursor := fu_queue_cursor update\<rparr>;
            st = st\<lparr>d_latest_slot := d_slot st\<rparr>;
            st = (if d_in_flight st then st\<lparr>d_stale := True\<rparr> else st) in
        stay (case d_next_expected_output st of
            Some n \<Rightarrow> if fu_slot n = d_slot st then st\<lparr>d_next_expected_output := None\<rparr> else st
          | None \<Rightarrow> st))
   | None \<Rightarrow> leave ''advance provider dropped'' st)"

definition on_validation_result ::
    "bool \<Rightarrow> bool \<Rightarrow> (string + ('x, 'h, 'c, 'u, 'v, 'g) dual_inputs) option \<Rightarrow> detector
      \<Rightarrow> ('x, 'h, 'c, 'u, 'v, 'g) detector_turn" where
  "on_validation_result worker_alive consumer_alive msg st = (case msg of
     Some result \<Rightarrow>
       (let st = st\<lparr>d_in_flight := False\<rparr> in
        case result of
          Inl _ \<Rightarrow> stay st
        | Inr dual \<Rightarrow>
            if d_stale st then
              (let st = st\<lparr>d_stale := False\<rparr> in
               try_start_validation_job worker_alive ''Failed to start validation job for stale result retry.'' st)
            else
              (let output_slot = wi_expected_output_slot (current_window dual) in
               if wi_input_slot (current_window dual) \<noteq> d_slot st then stay st
               else if wi_expected_output_slot (current_window dual) \<le> d_latest_slot st then stay st
               else
                 and_then
                   (case next_window dual of
                      Some nw \<Rightarrow>
                        if wi_expected_output_slot nw > d_latest_slot st
                        then send_on consumer_alive (FinalityOutput dual) ''consumer dropped during dual emission'' st
                        else stay st
                    | None \<Rightarrow> send_on consumer_alive (FinalityOutput dual) ''consumer dropped during solo emission'' st)
                   (\<lambda>st. stay (st\<lparr>d_latest_slot := output_slot\<rparr>))))
   | None \<Rightarrow> leave ''validation worker dropped the result channel'' st)"

definition on_tick :: "bool \<Rightarrow> detector \<Rightarrow> ('x, 'h, 'c, 'u, 'v, 'g) detector_turn" where
  "on_tick worker_alive st =
     (if \<not> d_in_flight st
      then try_start_validation_job worker_alive ''Failed to start validation job during polling tick.'' st
      else stay st)"

definition detector_step ::
    "bool \<Rightarrow> bool \<Rightarrow> detector \<Rightarrow> ('x, 'h, 'c, 'u, 'v, 'g) detector_event \<Rightarrow> ('x, 'h, 'c, 'u, 'v, 'g) detector_turn" where
  "detector_step worker_alive consumer_alive st ev = (case ev of
     StageInput msg \<Rightarrow> on_stage_input msg st
   | AdvanceInput msg \<Rightarrow> on_advance_input msg st
   | ValidationResult msg \<Rightarrow> on_validation_result worker_alive consumer_alive msg st
   | PollTick \<Rightarrow> on_tick worker_alive st)"

definition detector_init :: "u64 \<Rightarrow> b256 \<Rightarrow> u64 \<Rightarrow> detector_update option \<Rightarrow> detector" where
  "detector_init slot store_hash queue_cursor pipeline_inflight_next_expected_output =
     \<lparr>d_slot = slot, d_store_hash = store_hash, d_queue_cursor = queue_cursor, d_latest_slot = slot,
      d_in_flight = False, d_stale = False,
      d_next_expected_output = pipeline_inflight_next_expected_output\<rparr>"

text \<open>
  Starting the detector: the polling interval (parsed by \<open>f64::from_str\<close>), the latest finality slot and the
  initial state; a bad interval or a failed query panics.
\<close>

definition start_detector ::
    "(string \<Rightarrow> string + 'r) \<Rightarrow> ('p, 'b, 'x, 'h, 'c, 'u, 'v, 'g) beacon \<Rightarrow> env \<Rightarrow> 'p consensus_net \<Rightarrow> ('p, 'q) consensus_proxy
      \<Rightarrow> u64 \<Rightarrow> b256 \<Rightarrow> u64 \<Rightarrow> detector_update option \<Rightarrow> panic + 'r \<times> u64 \<times> detector" where
  "start_detector parse_f64 B env CN proxy slot store_hash queue_cursor inflight =
     bind_res (map_err (\<lambda>_. UnwrapFailed ''Failed to parse NORI_HELIOS_POLLING_INTERVAL as f64.'')
       (parse_f64 (case env ''NORI_HELIOS_POLLING_INTERVAL'' of None \<Rightarrow> ''10.0'' | Some s \<Rightarrow> s))) (\<lambda>interval.
     bind_res (map_err UnwrapFailed (get_latest_finality_slot B env CN proxy)) (\<lambda>init_latest_beacon_slot.
     Inr (interval, init_latest_beacon_slot, detector_init slot store_hash queue_cursor inflight)))"

section \<open>The system of detector and validation actor\<close>

text \<open>
  The job channel and the result channel have capacity one; the actor holds the job it works on. The log
  records every emitted pair of windows with the state of the detector that emitted it.
\<close>

record ('x, 'h, 'c, 'u, 'v, 'g) detector_system =
  ds_detector :: detector
  ds_job_chan :: "detector_job option"
  ds_working :: "detector_job option"
  ds_result_chan :: "(string + ('x, 'h, 'c, 'u, 'v, 'g) dual_inputs) option"
  ds_emitted :: "(detector \<times> ('x, 'h, 'c, 'u, 'v, 'g) dual_inputs) list"

definition detector_boot :: "detector \<Rightarrow> ('x, 'h, 'c, 'u, 'v, 'g) detector_system" where
  "detector_boot d = \<lparr>ds_detector = d, ds_job_chan = None, ds_working = None, ds_result_chan = None, ds_emitted = []\<rparr>"

definition deliver ::
    "detector \<Rightarrow> ('x, 'h, 'c, 'u, 'v, 'g) detector_message \<Rightarrow> ('x, 'h, 'c, 'u, 'v, 'g) detector_system
      \<Rightarrow> ('x, 'h, 'c, 'u, 'v, 'g) detector_system" where
  "deliver d m s = (case m of
     StartJob j \<Rightarrow> s\<lparr>ds_job_chan := Some j\<rparr>
   | FinalityOutput dual \<Rightarrow> s\<lparr>ds_emitted := ds_emitted s @ [(d, dual)]\<rparr>)"

fun worker_result ::
    "string fault + ('x, 'h, 'c, 'u, 'v, 'g) dual_inputs \<Rightarrow> (string + ('x, 'h, 'c, 'u, 'v, 'g) dual_inputs) option" where
  "worker_result (Inr dual) = Some (Inr dual)"
| "worker_result (Inl (Failed e)) = Some (Inl e)"
| "worker_result (Inl (Panicked p)) = None"

inductive detector_reach ::
    "('x, 'h, 'c, 'u, 'v, 'g) preparation set \<Rightarrow> detector \<Rightarrow> ('x, 'h, 'c, 'u, 'v, 'g) detector_system \<Rightarrow> bool"
  for answers :: "('x, 'h, 'c, 'u, 'v, 'g) preparation set" and d0 :: detector where
  boot: "detector_reach answers d0 (detector_boot d0)"
| input: "detector_reach answers d0 s \<Longrightarrow>
    ev = StageInput (Some u) \<or> ev = AdvanceInput (Some u) \<or> ev = PollTick \<Longrightarrow>
    detector_step True True (ds_detector s) ev = (d', outs, None) \<Longrightarrow>
    detector_reach answers d0 (fold (deliver (ds_detector s)) outs (s\<lparr>ds_detector := d'\<rparr>))"
| result: "detector_reach answers d0 s \<Longrightarrow> ds_result_chan s = Some r \<Longrightarrow>
    detector_step True True (ds_detector s) (ValidationResult (Some r)) = (d', outs, None) \<Longrightarrow>
    detector_reach answers d0 (fold (deliver (ds_detector s)) outs (s\<lparr>ds_detector := d', ds_result_chan := None\<rparr>))"
| take_job: "detector_reach answers d0 s \<Longrightarrow> ds_job_chan s = Some j \<Longrightarrow> ds_working s = None \<Longrightarrow>
    detector_reach answers d0 (s\<lparr>ds_job_chan := None, ds_working := Some j\<rparr>)"
| finish_job: "detector_reach answers d0 s \<Longrightarrow> ds_working s = Some j \<Longrightarrow> ds_result_chan s = None \<Longrightarrow>
    p \<in> answers \<Longrightarrow> q \<in> answers \<Longrightarrow> worker_result (run_validation_job p q j) = Some r \<Longrightarrow>
    detector_reach answers d0 (s\<lparr>ds_working := None, ds_result_chan := Some r\<rparr>)"

section \<open>Lemmas on turns\<close>

lemmas detector_turn_defs =
  detector_step_def on_stage_input_def on_advance_input_def on_validation_result_def on_tick_def
  try_start_validation_job_def stay_def leave_def Let_def

lemma filtered_next_idem [simp]: "fu_slot n = slot \<Longrightarrow> filtered_next slot (Some n) = None"
  "filtered_next slot None = None"
  by (simp_all add: filtered_next_def)

lemma job_of_simps [simp]:
  "job_of (d\<lparr>d_in_flight := b\<rparr>) = job_of d" "job_of (d\<lparr>d_stale := b\<rparr>) = job_of d"
  "job_of (d\<lparr>d_latest_slot := x\<rparr>) = job_of d"
  by (simp_all add: job_of_def)

definition prepared_by ::
    "('x, 'h, 'c, 'u, 'v, 'g) preparation set \<Rightarrow> detector_job \<Rightarrow> ('x, 'h, 'c, 'u, 'v, 'g) dual_inputs \<Rightarrow> bool" where
  "prepared_by answers j dual \<longleftrightarrow>
     (\<exists>p \<in> answers. p (fj_slot j) (fj_store_hash j) (fj_queue_cursor j) True = Inr (current_window dual)) \<and>
     (case fj_next_expected_output j of
        None \<Rightarrow> next_window dual = None
      | Some n \<Rightarrow> \<exists>q \<in> answers. \<exists>w. q (fu_slot n) (fu_store_hash n) (fu_queue_cursor n) True = Inr w \<and>
          next_window dual = Some w)"

lemma run_validation_job_prepared:
  "run_validation_job p q j = Inr dual \<Longrightarrow> p \<in> answers \<Longrightarrow> q \<in> answers \<Longrightarrow> prepared_by answers j dual"
  by (auto simp: run_validation_job_def prepared_by_def Let_def split: option.splits sum.splits fault.splits)

lemma worker_result_ok: "worker_result x = Some (Inr dual) \<Longrightarrow> x = Inr dual"
  by (cases x rule: worker_result.cases) auto

section \<open>The loop on its own\<close>

text \<open>Whatever the validation actor answers, the filter never falls below the head, so an emitted current
  window always leads to a later slot.\<close>

definition moves_forward :: "('x, 'h, 'c, 'u, 'v, 'g) detector_message \<Rightarrow> bool" where
  "moves_forward m = (case m of
     StartJob _ \<Rightarrow> True
   | FinalityOutput dual \<Rightarrow> wi_input_slot (current_window dual) < wi_expected_output_slot (current_window dual))"

interpretation det: event_loop "detector_step wa ca" "\<lambda>d. d_slot d \<le> d_latest_slot d" "\<lambda>_. True"
  "moves_forward :: ('x, 'h, 'c, 'u, 'v, 'g) detector_message \<Rightarrow> bool" for wa ca
proof
  fix d d' and ev :: "('x, 'h, 'c, 'u, 'v, 'g) detector_event" and outs r
  assume inv: "d_slot d \<le> d_latest_slot d" and step: "detector_step wa ca d ev = (d', outs, r)"
  from step inv show "d_slot d' \<le> d_latest_slot d'"
    by (cases ev) (auto simp: detector_turn_defs send_on_def split: option.splits sum.splits if_splits)
  fix m assume "m \<in> set outs"
  with step inv show "moves_forward m"
    by (cases ev) (auto simp: detector_turn_defs send_on_def moves_forward_def not_le split: option.splits sum.splits if_splits)
qed

lemma detector_emits_forward:
  assumes "run_loop (detector_step wa ca) (detector_init slot h c n) evs = (d, outs, r)"
  shows "d_slot d \<le> d_latest_slot d \<and> list_all moves_forward outs"
  by (rule det.run_keeps[OF _ _ assms]) (simp_all add: detector_init_def list_all_iff)

section \<open>Invariant of the system\<close>

definition outstanding :: "('x, 'h, 'c, 'u, 'v, 'g) detector_system \<Rightarrow> nat" where
  "outstanding s = (if ds_job_chan s = None then 0 else 1) + (if ds_working s = None then 0 else 1) +
     (if ds_result_chan s = None then 0 else 1)"

text \<open>What is outstanding is for the windows the detector wants now.\<close>

definition fresh ::
    "('x, 'h, 'c, 'u, 'v, 'g) preparation set \<Rightarrow> ('x, 'h, 'c, 'u, 'v, 'g) detector_system \<Rightarrow> bool" where
  "fresh answers s \<longleftrightarrow>
     (\<forall>j. ds_job_chan s = Some j \<or> ds_working s = Some j \<longrightarrow> j = job_of (ds_detector s)) \<and>
     (\<forall>dual. ds_result_chan s = Some (Inr dual) \<longrightarrow> prepared_by answers (job_of (ds_detector s)) dual)"

definition emission_ok ::
    "('x, 'h, 'c, 'u, 'v, 'g) preparation set \<Rightarrow> detector \<Rightarrow> ('x, 'h, 'c, 'u, 'v, 'g) dual_inputs \<Rightarrow> bool" where
  "emission_ok answers d dual \<longleftrightarrow> prepared_by answers (job_of d) dual \<and>
     wi_input_slot (current_window dual) = d_slot d \<and>
     d_latest_slot d < wi_expected_output_slot (current_window dual) \<and>
     (\<forall>w. next_window dual = Some w \<longrightarrow> d_latest_slot d < wi_expected_output_slot w)"

definition detector_inv ::
    "('x, 'h, 'c, 'u, 'v, 'g) preparation set \<Rightarrow> ('x, 'h, 'c, 'u, 'v, 'g) detector_system \<Rightarrow> bool" where
  "detector_inv answers s \<longleftrightarrow>
     outstanding s = (if d_in_flight (ds_detector s) then 1 else 0) \<and>
     (\<not> d_stale (ds_detector s) \<longrightarrow> fresh answers s) \<and>
     d_slot (ds_detector s) \<le> d_latest_slot (ds_detector s) \<and>
     (\<forall>(d, dual) \<in> set (ds_emitted s). emission_ok answers d dual \<and> d_slot d \<le> d_latest_slot d)"

lemmas detector_inv_defs = detector_inv_def outstanding_def fresh_def

lemma detector_inv_stage:
  assumes "detector_inv answers s" and "on_stage_input (Some u) (ds_detector s) = (d', outs, None)"
  shows "outs = [] \<and> detector_inv answers (s\<lparr>ds_detector := d'\<rparr>)"
  using assms by (cases "d_in_flight (ds_detector s)")
    (auto simp: on_stage_input_def stay_def Let_def detector_inv_defs split: if_splits)

lemma detector_inv_advance:
  assumes "detector_inv answers s" and "on_advance_input (Some u) (ds_detector s) = (d', outs, None)"
  shows "outs = [] \<and> detector_inv answers (s\<lparr>ds_detector := d'\<rparr>)"
proof -
  let ?d = "ds_detector s"
  have d': "d_slot d' = fu_slot u" "d_latest_slot d' = fu_slot u" "d_in_flight d' = d_in_flight ?d"
    "d_stale d' = (d_in_flight ?d \<or> d_stale ?d)" "outs = []"
    using assms(2) by (cases "d_in_flight ?d"; cases "d_next_expected_output ?d";
        auto simp: on_advance_input_def stay_def Let_def split: if_splits)+
  show ?thesis
  proof (cases "d_in_flight ?d")
    case True
    with assms(1) d' show ?thesis by (auto simp: detector_inv_def outstanding_def)
  next
    case False
    with assms(1) have "outstanding s = 0" by (simp add: detector_inv_def)
    with assms(1) d' False show ?thesis by (auto simp: detector_inv_def fresh_def outstanding_def split: if_splits)
  qed
qed

lemma detector_inv_tick:
  assumes "detector_inv answers s" and "on_tick True (ds_detector s) = (d', outs, None)"
  shows "detector_inv answers (fold (deliver (ds_detector s)) outs (s\<lparr>ds_detector := d'\<rparr>))"
  using assms
  by (auto simp: on_tick_def try_start_validation_job_def stay_def detector_inv_defs deliver_def split: if_splits)

lemma detector_inv_input:
  assumes "detector_inv answers s"
    and "ev = StageInput (Some u) \<or> ev = AdvanceInput (Some u) \<or> ev = PollTick"
    and "detector_step True True (ds_detector s) ev = (d', outs, None)"
  shows "detector_inv answers (fold (deliver (ds_detector s)) outs (s\<lparr>ds_detector := d'\<rparr>))"
proof -
  consider "ev = StageInput (Some u)" | "ev = AdvanceInput (Some u)" | "ev = PollTick" using assms(2) by blast
  then show ?thesis
  proof cases
    case 1
    then show ?thesis using detector_inv_stage[OF assms(1)] assms(3) by (fastforce simp: detector_step_def)
  next
    case 2
    then show ?thesis using detector_inv_advance[OF assms(1)] assms(3) by (fastforce simp: detector_step_def)
  next
    case 3
    then show ?thesis using detector_inv_tick[OF assms(1)] assms(3) by (simp add: detector_step_def)
  qed
qed

lemma result_turn_cases:
  assumes "detector_step True True d (ValidationResult (Some r)) = (d', outs, x)"
  obtains (failed) e where "r = Inl e" "d' = d\<lparr>d_in_flight := False\<rparr>" "outs = []"
  | (restarted) dual where "r = Inr dual" "d_stale d" "d' = d\<lparr>d_in_flight := True, d_stale := False\<rparr>"
      "outs = [StartJob (job_of d)]"
  | (ignored) dual l where "r = Inr dual" "\<not> d_stale d" "d' = d\<lparr>d_in_flight := False, d_latest_slot := l\<rparr>"
      "d_latest_slot d \<le> l" "outs = []"
  | (emitted) dual where "r = Inr dual" "\<not> d_stale d" "outs = [FinalityOutput dual]"
      "d' = d\<lparr>d_in_flight := False, d_latest_slot := wi_expected_output_slot (current_window dual)\<rparr>"
      "wi_input_slot (current_window dual) = d_slot d"
      "d_latest_slot d < wi_expected_output_slot (current_window dual)"
      "\<forall>w. next_window dual = Some w \<longrightarrow> d_latest_slot d < wi_expected_output_slot w"
proof (cases r)
  case (Inl e)
  with assms show thesis by (intro failed) (auto simp: detector_turn_defs)
next
  case (Inr dual)
  show thesis
  proof (cases "d_stale d")
    case True
    with assms Inr show thesis by (intro restarted) (auto simp: detector_turn_defs)
  next
    case stale: False
    let ?w = "current_window dual"
    show thesis
    proof (cases "wi_input_slot ?w = d_slot d \<and> d_latest_slot d < wi_expected_output_slot ?w \<and>
        (\<forall>w. next_window dual = Some w \<longrightarrow> d_latest_slot d < wi_expected_output_slot w)")
      case True
      then have "\<not> wi_expected_output_slot ?w \<le> d_latest_slot d" by (simp add: not_le)
      with True assms Inr stale show thesis
        by (intro emitted[of dual]) (auto simp: detector_turn_defs split: option.splits)
    next
      case False
      with assms Inr stale show thesis
        by (intro ignored[of dual "d_latest_slot d'"])
          (auto simp: detector_turn_defs not_less split: option.splits if_splits)
    qed
  qed
qed

lemma detector_inv_result:
  assumes inv: "detector_inv answers s" and r: "ds_result_chan s = Some r"
    and step: "detector_step True True (ds_detector s) (ValidationResult (Some r)) = (d', outs, None)"
  shows "detector_inv answers (fold (deliver (ds_detector s)) outs (s\<lparr>ds_detector := d', ds_result_chan := None\<rparr>))"
  using step
proof (cases rule: result_turn_cases)
  case (emitted dual)
  with inv r have "prepared_by answers (job_of (ds_detector s)) dual" by (auto simp: detector_inv_defs)
  with emitted have "emission_ok answers (ds_detector s) dual" by (simp add: emission_ok_def)
  with inv r emitted show ?thesis
    by (auto simp: detector_inv_defs deliver_def split: if_splits)
qed (use inv r in \<open>auto simp: detector_inv_defs deliver_def split: if_splits\<close>)

lemma detector_inv_reach:
  assumes "detector_reach answers (detector_init slot h c n) s"
  shows "detector_inv answers s"
  using assms
proof (induction rule: detector_reach.induct)
  case boot
  show ?case by (simp add: detector_inv_defs detector_boot_def detector_init_def)
next
  case (input s ev u d' outs)
  then show ?case by (intro detector_inv_input)
next
  case (result s r d' outs)
  then show ?case by (intro detector_inv_result)
next
  case (take_job s j)
  then show ?case by (auto simp: detector_inv_defs split: if_splits)
next
  case (finish_job s j p q r)
  then have "r = Inr dual \<Longrightarrow> prepared_by answers j dual" for dual
    by (auto dest: worker_result_ok intro: run_validation_job_prepared)
  with finish_job show ?case by (auto simp: detector_inv_defs split: if_splits)
qed

section \<open>Windows prepared by the proxy\<close>

text \<open>The answers of the consensus proxy, whatever the beacon nodes, the execution providers and the network do.\<close>

definition proxy_answers ::
    "('f, 's) guest_env \<Rightarrow> ('x, 'h, 'c, 'u, 'v, 'g) helios \<Rightarrow> env
      \<Rightarrow> (('p, 'b, 'x, 'h, 'c, 'u, 'v, 'g) beacon \<times> 'p consensus_net \<times> ('q, 'w) execution_net) set
      \<Rightarrow> ('p, 'q) consensus_proxy \<Rightarrow> ('x, 'h, 'c, 'u, 'v, 'g) preparation set" where
  "proxy_answers E H env worlds proxy =
     (\<lambda>(B, CN, N). prepare_consensus_mpt_proof_inputs B E H env CN N proxy) ` worlds"

text \<open>A window the guest proves from a given head, to the slot, hash, block and cursor the window announces.\<close>

definition provable_from ::
    "('f, 's) guest_env \<Rightarrow> ('x, 'h, 'c, 'u, 'v, 'g) helios \<Rightarrow> u64 \<Rightarrow> b256 \<Rightarrow> u64
      \<Rightarrow> ('x, 'h, 'c, 'u, 'v, 'g) proof_inputs_with_window \<Rightarrow> bool" where
  "provable_from E H slot store_hash cursor w \<longleftrightarrow>
     (\<exists>out. consensus_mpt_program E H (wi_proof_inputs w) = Inr out \<and>
        po_input_store_hash out = store_hash \<and> po_input_queue_cursor out = cursor \<and>
        wi_input_slot w = slot \<and> slot < po_output_slot out \<and>
        po_output_slot out = wi_expected_output_slot w \<and>
        po_output_store_hash out = wi_expected_output_store_hash w \<and>
        po_output_block_number out = wi_expected_output_block_number w \<and>
        po_output_queue_cursor out = wi_expected_output_queue_cursor w)"

lemma proxy_answer_provable:
  assumes "p \<in> proxy_answers E H env worlds proxy" and "p slot h c True = Inr w"
  shows "provable_from E H slot h c w"
proof -
  from assms obtain B CN N where "(B, CN, N) \<in> worlds"
    and "prepare_consensus_mpt_proof_inputs B E H env CN N proxy slot h c True = Inr w"
    by (auto simp: proxy_answers_def)
  from prepared_window_accepted[OF this(2)] show ?thesis unfolding provable_from_def by auto
qed

lemma prepared_by_provable:
  assumes "prepared_by (proxy_answers E H env worlds proxy) j dual"
  shows "provable_from E H (fj_slot j) (fj_store_hash j) (fj_queue_cursor j) (current_window dual)"
    and "next_window dual = Some w \<Longrightarrow> \<exists>n. fj_next_expected_output j = Some n \<and>
      provable_from E H (fu_slot n) (fu_store_hash n) (fu_queue_cursor n) w"
  using assms proxy_answer_provable[of _ E H env worlds proxy]
  by (auto simp: prepared_by_def split: option.splits)

section \<open>Emitted slots\<close>

definition emitted_slots :: "('x, 'h, 'c, 'u, 'v, 'g) detector_message list \<Rightarrow> u64 list" where
  "emitted_slots outs = concat (map (\<lambda>m. case m of
     StartJob _ \<Rightarrow> [] | FinalityOutput dual \<Rightarrow> [wi_expected_output_slot (current_window dual)]) outs)"

lemma emitted_slots_simps [simp]:
  "emitted_slots [] = []"
  "emitted_slots (StartJob j # outs) = emitted_slots outs"
  "emitted_slots (FinalityOutput dual # outs) = wi_expected_output_slot (current_window dual) # emitted_slots outs"
  "emitted_slots (outs @ outs') = emitted_slots outs @ emitted_slots outs'"
  by (simp_all add: emitted_slots_def)

definition is_advance :: "('x, 'h, 'c, 'u, 'v, 'g) detector_event \<Rightarrow> bool" where
  "is_advance ev = (case ev of AdvanceInput _ \<Rightarrow> True | _ \<Rightarrow> False)"

lemma step_emits_above:
  assumes "detector_step wa ca d ev = (d', outs, r)" and "\<not> is_advance ev"
  shows "d_latest_slot d \<le> d_latest_slot d' \<and>
    (emitted_slots outs = [] \<or> (\<exists>x. emitted_slots outs = [x] \<and> d_latest_slot d < x \<and> x \<le> d_latest_slot d'))"
  using assms
  by (cases ev)
    (auto simp: detector_turn_defs is_advance_def send_on_def not_le not_less
      split: if_splits option.splits sum.splits)

lemma emitted_slots_increase:
  assumes "run_loop (detector_step wa ca) d evs = (d', outs, r)" and "\<forall>ev \<in> set evs. \<not> is_advance ev"
  shows "sorted_wrt (<) (d_latest_slot d # emitted_slots outs) \<and> d_latest_slot d \<le> d_latest_slot d' \<and>
    (\<forall>x \<in> set (emitted_slots outs). x \<le> d_latest_slot d')"
  using assms
proof (induction evs arbitrary: d outs)
  case (Cons ev evs)
  from Cons.prems(1) consider d1 o1 o2 where "detector_step wa ca d ev = (d1, o1, None)"
      "run_loop (detector_step wa ca) d1 evs = (d', o2, r)" "outs = o1 @ o2"
    | e where "detector_step wa ca d ev = (d', outs, Some e)"
    by (auto simp: and_then_eq)
  then show ?case
  proof cases
    case 1
    have "sorted_wrt (<) (d_latest_slot d1 # emitted_slots o2) \<and> d_latest_slot d1 \<le> d_latest_slot d' \<and>
        (\<forall>x \<in> set (emitted_slots o2). x \<le> d_latest_slot d')"
      using Cons.IH[OF 1(2)] Cons.prems(2) by simp
    with step_emits_above[OF 1(1)] Cons.prems(2) 1(3) show ?thesis
      by (auto intro: order_trans le_less_trans less_le_trans) (metis le_less_trans)
  next
    case 2
    with step_emits_above[OF 2] Cons.prems(2) show ?thesis by auto
  qed
qed (simp add: stay_def)

section \<open>A concrete instance\<close>

definition sample_answers :: "(unit, unit, u8, u64, u64, unit) preparation set" where
  "sample_answers = proxy_answers sample_env sample_helios sample_var {(sample_beacon, sample_cnet, sample_net)} sample_proxy"

definition sample_dual ::
    "(unit, unit, u8, u64, u64, unit) proof_inputs_with_window \<Rightarrow> (unit, unit, u8, u64, u64, unit) dual_inputs" where
  "sample_dual w = \<lparr>current_window = w, next_window = None\<rparr>"

lemma sample_ahead:
  "\<exists>w :: (unit, unit, u8, u64, u64, unit) proof_inputs_with_window. wi_input_slot w = 64 \<and> 64 < wi_expected_output_slot w"
proof -
  obtain w where w: "prepare_consensus_mpt_proof_inputs sample_beacon sample_env sample_helios sample_var sample_cnet
     sample_net sample_proxy 64 (sample_hash 64) 0 True = Inr w"
    using sample_window by (auto simp: is_ok_iff)
  from prepared_window_accepted[OF w] show ?thesis by (intro exI[of _ w]) auto
qed

lemma sample_emission:
  "\<exists>s dual. detector_reach sample_answers (detector_init 64 (sample_hash 64) 0 None) s \<and>
     ds_emitted s = [(detector_init 64 (sample_hash 64) 0 None\<lparr>d_in_flight := True\<rparr>, dual)]"
proof -
  let ?p = "prepare_consensus_mpt_proof_inputs sample_beacon sample_env sample_helios sample_var sample_cnet
     sample_net sample_proxy"
  let ?d = "detector_init 64 (sample_hash 64) 0 None"
  let ?d' = "?d\<lparr>d_in_flight := True\<rparr>"
  let ?j = "job_of ?d"
  obtain w where w: "?p 64 (sample_hash 64) 0 True = Inr w" using sample_window by (auto simp: is_ok_iff)
  let ?dual = "\<lparr>current_window = w, next_window = None\<rparr>"
  from prepared_window_accepted[OF w] have ahead: "64 < wi_expected_output_slot w" "wi_input_slot w = 64" by auto
  have p: "?p \<in> sample_answers" by (simp add: sample_answers_def proxy_answers_def)
  let ?s1 = "(detector_boot ?d)\<lparr>ds_detector := ?d', ds_job_chan := Some ?j\<rparr>"
  have j: "?j = \<lparr>fj_slot = 64, fj_store_hash = sample_hash 64, fj_queue_cursor = 0, fj_next_expected_output = None\<rparr>"
    by (simp add: job_of_def detector_init_def)
  have run: "run_validation_job ?p ?p ?j = Inr ?dual" by (simp add: run_validation_job_def Let_def j w)
  have "detector_reach sample_answers ?d ?s1"
    using detector_reach.input[OF detector_reach.boot, where ev = PollTick and d' = "?d'" and outs = "[StartJob ?j]"
        and answers = sample_answers and ?d0.0 = ?d]
    by (simp add: detector_boot_def detector_turn_defs deliver_def detector_init_def)
  then have "detector_reach sample_answers ?d (?s1\<lparr>ds_job_chan := None, ds_working := Some ?j\<rparr>)"
    by (rule detector_reach.take_job) (simp_all add: detector_boot_def)
  then have "detector_reach sample_answers ?d (?s1\<lparr>ds_job_chan := None, ds_working := Some ?j,
      ds_working := None, ds_result_chan := Some (Inr ?dual)\<rparr>)"
    by (rule detector_reach.finish_job[OF _ _ _ p p]) (simp_all add: detector_boot_def, simp only: run worker_result.simps)
  moreover have "detector_step True True ?d' (ValidationResult (Some (Inr ?dual))) =
      (?d\<lparr>d_latest_slot := wi_expected_output_slot w\<rparr>, [FinalityOutput ?dual], None)"
    using ahead by (simp add: detector_turn_defs detector_init_def not_le)
  ultimately have "detector_reach sample_answers ?d (fold (deliver ?d') [FinalityOutput ?dual]
      (?s1\<lparr>ds_job_chan := None, ds_working := Some ?j, ds_working := None, ds_result_chan := Some (Inr ?dual),
        ds_detector := ?d\<lparr>d_latest_slot := wi_expected_output_slot w\<rparr>, ds_result_chan := None\<rparr>))"
    using detector_reach.result[where r = "Inr ?dual"] by fastforce
  then show ?thesis
    by (intro exI conjI) (assumption, simp add: detector_boot_def deliver_def)
qed

text \<open>A dual result whose current window makes progress but whose next window does not is not emitted at all, and the filter
  moves all the same: until the next advance no later result for that output slot is emitted either.\<close>

lemma dual_progress_dropped:
  assumes "\<not> d_stale st" and "wi_input_slot (current_window dual) = d_slot st"
    and "d_latest_slot st < wi_expected_output_slot (current_window dual)"
    and "next_window dual = Some nw" and "wi_expected_output_slot nw \<le> d_latest_slot st"
  shows "detector_step wa ca st (ValidationResult (Some (Inr dual))) =
      (st\<lparr>d_in_flight := False, d_latest_slot := wi_expected_output_slot (current_window dual)\<rparr>, [], None)"
    and "d_latest_slot st' = wi_expected_output_slot (current_window dual) \<Longrightarrow> \<not> d_stale st' \<Longrightarrow>
      wi_expected_output_slot (current_window dual') \<le> wi_expected_output_slot (current_window dual) \<Longrightarrow>
      fst (snd (detector_step wa ca st' (ValidationResult (Some (Inr dual'))))) = []"
  using assms by (auto simp: detector_turn_defs dest: leD)

section \<open>Properties\<close>

text \<open>C9: Everything the detector emits is provable from the head it has been told. In every reachable state of
  detector, validation actor and channels, whatever beacon nodes, execution providers and the network
  answered, each emitted pair of windows was emitted with a current window that the guest
  program proves from the slot, store hash and queue cursor the detector held at that moment, to a slot beyond
  every slot it had accepted from there; a next window, if present, is proved from the expected output of the
  staged proof, and that is not the current window's start.\<close>

theorem detector_emissions_provable:
  assumes "detector_reach (proxy_answers E H env worlds proxy) (detector_init slot h c n) s"
    and "(d, dual) \<in> set (ds_emitted s)"
  shows "provable_from E H (d_slot d) (d_store_hash d) (d_queue_cursor d) (current_window dual) \<and>
    d_slot d \<le> d_latest_slot d \<and> d_latest_slot d < wi_expected_output_slot (current_window dual) \<and>
    (\<forall>w. next_window dual = Some w \<longrightarrow> (\<exists>u. d_next_expected_output d = Some u \<and> fu_slot u \<noteq> d_slot d \<and>
       provable_from E H (fu_slot u) (fu_store_hash u) (fu_queue_cursor u) w \<and>
       d_latest_slot d < wi_expected_output_slot w))"
proof -
  from detector_inv_reach[OF assms(1)] assms(2)
  have ok: "emission_ok (proxy_answers E H env worlds proxy) d dual" "d_slot d \<le> d_latest_slot d"
    by (auto simp: detector_inv_def)
  from ok(1) have prep: "prepared_by (proxy_answers E H env worlds proxy) (job_of d) dual"
    by (simp add: emission_ok_def)
  have next_staged: "filtered_next (d_slot d) (d_next_expected_output d) = Some u \<Longrightarrow>
      d_next_expected_output d = Some u \<and> fu_slot u \<noteq> d_slot d" for u
    by (auto simp: filtered_next_def split: option.splits if_splits)
  show ?thesis
    using ok prepared_by_provable[OF prep] next_staged by (fastforce simp: emission_ok_def job_of_def)
qed

theorem detector_emissions_provable_witness:
  "\<exists>s d dual. detector_reach sample_answers (detector_init 64 (sample_hash 64) 0 None) s \<and>
     (d, dual) \<in> set (ds_emitted s) \<and>
     provable_from sample_env sample_helios 64 (sample_hash 64) 0 (current_window dual)"
proof -
  obtain s dual where s: "detector_reach sample_answers (detector_init 64 (sample_hash 64) 0 None) s"
    and em: "ds_emitted s = [(detector_init 64 (sample_hash 64) 0 None\<lparr>d_in_flight := True\<rparr>, dual)]"
    using sample_emission by blast
  have "provable_from sample_env sample_helios 64 (sample_hash 64) 0 (current_window dual)"
    using detector_emissions_provable[OF s[unfolded sample_answers_def],
        of "detector_init 64 (sample_hash 64) 0 None\<lparr>d_in_flight := True\<rparr>" dual] em
    by (simp add: detector_init_def)
  with s em show ?thesis by (intro exI conjI) (assumption, auto)
qed

text \<open>One validation at a time. In every reachable state at most one job is outstanding in the job channel, the
  validation actor and the result channel together, and \<open>in_flight\<close> says whether there is one; so whenever a turn
  submits a job the channel it sends on is empty and the send does not block.\<close>

theorem single_validation_in_flight:
  assumes "detector_reach answers (detector_init slot h c n) s"
  shows "outstanding s = (if d_in_flight (ds_detector s) then 1 else 0) \<and>
    (\<forall>ev d' outs r j. detector_step wa ca (ds_detector s) ev = (d', outs, r) \<longrightarrow> StartJob j \<in> set outs \<longrightarrow>
       (case ev of ValidationResult m \<Rightarrow> m = ds_result_chan s | _ \<Rightarrow> True) \<longrightarrow>
       ds_job_chan s = None \<and> ds_working s = None)"
proof -
  from detector_inv_reach[OF assms] have out: "outstanding s = (if d_in_flight (ds_detector s) then 1 else 0)"
    by (simp add: detector_inv_def)
  have "ds_job_chan s = None \<and> ds_working s = None"
    if step: "detector_step wa ca (ds_detector s) ev = (d', outs, r)" and j: "StartJob j \<in> set outs"
      and ev: "case ev of ValidationResult m \<Rightarrow> m = ds_result_chan s | _ \<Rightarrow> True" for ev d' outs r j
  proof (cases ev)
    case (ValidationResult m)
    with step j ev have "ds_result_chan s \<noteq> None" by (auto simp: detector_turn_defs split: option.splits)
    with out show ?thesis by (auto simp: outstanding_def split: if_splits)
  next
    case PollTick
    with step j have "\<not> d_in_flight (ds_detector s)"
      by (auto simp: detector_turn_defs split: if_splits)
    with out show ?thesis by (auto simp: outstanding_def split: if_splits)
  qed (use step j in \<open>auto simp: detector_turn_defs split: option.splits\<close>)
  with out show ?thesis by blast
qed

theorem single_validation_in_flight_witness:
  "\<exists>s. detector_reach sample_answers (detector_init 64 (sample_hash 64) 0 None) s \<and> outstanding s \<le> 1"
proof -
  have "detector_reach sample_answers (detector_init 64 (sample_hash 64) 0 None)
      (detector_boot (detector_init 64 (sample_hash 64) 0 None))" by (rule detector_reach.boot)
  moreover from single_validation_in_flight[OF this] have
    "outstanding (detector_boot (detector_init 64 (sample_hash 64) 0 None) ::
       (unit, unit, u8, u64, u64, unit) detector_system) \<le> 1" by (auto split: if_splits)
  ultimately show ?thesis by blast
qed

text \<open>C21: No going back. As long as the bridge head does not advance, the output slots of the emitted current
  windows strictly increase and stay above the slot accepted before, however often providers
  answer with earlier finality; and every emitted slot is at most the accepted slot at the end.\<close>

theorem emissions_strictly_increase:
  assumes "run_loop (detector_step wa ca) d evs = (d', outs, r)" and "\<forall>ev \<in> set evs. \<not> is_advance ev"
  shows "sorted_wrt (<) (d_latest_slot d # emitted_slots outs) \<and>
    (\<forall>x \<in> set (emitted_slots outs). x \<le> d_latest_slot d')"
  using emitted_slots_increase[OF assms] by blast

theorem emissions_strictly_increase_witness:
  "\<exists>w. sorted_wrt (<) (64 # emitted_slots (fst (snd (run_loop (detector_step True True) (detector_init 64 (sample_hash 64) 0 None)
     [PollTick, ValidationResult (Some (Inr (sample_dual w))), PollTick, ValidationResult (Some (Inr (sample_dual w)))])))) \<and>
   emitted_slots (fst (snd (run_loop (detector_step True True) (detector_init 64 (sample_hash 64) 0 None)
     [PollTick, ValidationResult (Some (Inr (sample_dual w))), PollTick, ValidationResult (Some (Inr (sample_dual w)))]))) =
     [wi_expected_output_slot w]"
proof -
  obtain w :: "(unit, unit, u8, u64, u64, unit) proof_inputs_with_window"
    where w: "wi_input_slot w = 64" "64 < wi_expected_output_slot w" using sample_ahead by blast
  let ?evs = "[PollTick, ValidationResult (Some (Inr (sample_dual w))), PollTick, ValidationResult (Some (Inr (sample_dual w)))]"
  obtain d' outs r where run: "run_loop (detector_step True True) (detector_init 64 (sample_hash 64) 0 None) ?evs = (d', outs, r)"
    by (cases rule: prod_cases3)
  from emissions_strictly_increase[OF run] have "sorted_wrt (<) (64 # emitted_slots outs)"
    by (simp add: is_advance_def detector_init_def)
  moreover have "emitted_slots outs = [wi_expected_output_slot w]"
    using run w not_le[of "wi_expected_output_slot w" 64] by (auto simp: detector_turn_defs detector_init_def sample_dual_def)
  ultimately show ?thesis using run by (intro exI[of _ w]) simp
qed

text \<open>C22: The detector makes progress. From any state with nothing in flight, a tick submits the job for the current
  windows; if the actor answers it with windows from the current slot that are ahead of the accepted
  slot, they are emitted and accepted, after exactly one further validation if the state was marked stale.\<close>

theorem detector_progress:
  assumes "\<not> d_in_flight d" and "wi_input_slot (current_window dual) = d_slot d"
    and "d_latest_slot d < wi_expected_output_slot (current_window dual)"
    and "\<forall>w. next_window dual = Some w \<longrightarrow> d_latest_slot d < wi_expected_output_slot w"
  shows "run_loop (detector_step True True) d
      (PollTick # replicate (if d_stale d then 2 else 1) (ValidationResult (Some (Inr dual)))) =
    (d\<lparr>d_stale := False, d_latest_slot := wi_expected_output_slot (current_window dual)\<rparr>,
     replicate (if d_stale d then 2 else 1) (StartJob (job_of d)) @ [FinalityOutput dual], None)"
proof -
  have "\<not> wi_expected_output_slot (current_window dual) \<le> d_latest_slot d" using assms(3) by (simp add: not_le)
  with assms show ?thesis
    by (cases "d_stale d"; cases "next_window dual")
      (simp_all add: detector_turn_defs numeral_2_eq_2)
qed

theorem detector_progress_witness:
  "\<exists>w. run_loop (detector_step True True) (detector_init 64 (sample_hash 64) 0 None)
      [PollTick, ValidationResult (Some (Inr (sample_dual w)))] =
    (detector_init 64 (sample_hash 64) 0 None\<lparr>d_latest_slot := wi_expected_output_slot w\<rparr>,
     [StartJob (job_of (detector_init 64 (sample_hash 64) 0 None)), FinalityOutput (sample_dual w)], None)"
proof -
  obtain w :: "(unit, unit, u8, u64, u64, unit) proof_inputs_with_window"
    where w: "wi_input_slot w = 64" "64 < wi_expected_output_slot w" using sample_ahead by blast
  have "\<not> d_in_flight (detector_init 64 (sample_hash 64) 0 None)" by (simp add: detector_init_def)
  from detector_progress[OF this, of "sample_dual w"] w show ?thesis
    by (intro exI[of _ w]) (simp add: detector_init_def sample_dual_def)
qed

end
