(* ===== verification/Nori_Prover_Config.thy ===== *)
theory Nori_Prover_Config
  imports Nori_Env Nori_Bytes
begin

text \<open>
  The configuration of the SP1 prover (\<open>nori/src/sp1_prover_config.rs\<close>): the prover modes, loading and
  validating them from the environment, and fetching a pool of provers with retries. The parsers of private keys,
  URLs and addresses (packages alloy, url) and the prover network's uptime query (package sp1-sdk over gRPC) are
  parameters. Durations are held in the unit the source constructs them from. Error texts are kept in short
  form; \<open>print_config\<close> is in \<open>Nori_Diagnostics\<close>.
\<close>

section \<open>Configuration\<close>

datatype local_prover_mode = Mock | Cpu | Cuda

datatype proof_type = Plonk | Groth16

datatype network_mode = MainnetMode | ReservedMode

datatype fulfillment_config = Auction (auction_timeout_secs: u64) (auction_min_period: u64) | Hosted | Reserved

record network_config =
  nc_network_mode :: network_mode
  nc_private_key :: string
  nc_rpc_url :: string
  nc_fulfillment :: fulfillment_config
  nc_max_price_per_pgu :: u64
  nc_cycle_limit :: "u64 option"
  nc_gas_limit :: "u64 option"
  nc_skip_simulation :: bool
  nc_timeout :: u64
  nc_whitelist :: "address list option"
  nc_whitelist_add_high_availability :: bool
  nc_whitelist_add_default :: bool

datatype prover_mode = LocalMode local_prover_mode | NetworkMode network_config

record prover_config =
  pc_mode :: prover_mode
  pc_proof_type :: proof_type

definition SDK_DEFAULT_PRICE_PER_PGU :: u64 where
  "SDK_DEFAULT_PRICE_PER_PGU = 1000000000"

definition SDK_MAINNET_RPC_URL :: string where
  "SDK_MAINNET_RPC_URL = ''https://rpc.mainnet.succinct.xyz''"

definition SDK_RESERVED_RPC_URL :: string where
  "SDK_RESERVED_RPC_URL = ''https://rpc.production.succinct.xyz''"

definition SDK_DEFAULT_AUCTION_TIMEOUT_SECS :: u64 where
  "SDK_DEFAULT_AUCTION_TIMEOUT_SECS = 30"

definition SDK_DEFAULT_MIN_AUCTION_PERIOD_SECS :: u64 where
  "SDK_DEFAULT_MIN_AUCTION_PERIOD_SECS = 1"

definition SDK_MAINNET_DEFAULT_CYCLE_LIMIT :: u64 where
  "SDK_MAINNET_DEFAULT_CYCLE_LIMIT = 1000000000000"

definition SDK_RESERVED_DEFAULT_CYCLE_LIMIT :: u64 where
  "SDK_RESERVED_DEFAULT_CYCLE_LIMIT = 100000000"

definition SDK_DEFAULT_GAS_LIMIT :: u64 where
  "SDK_DEFAULT_GAS_LIMIT = 1000000000"

definition SDK_DEFAULT_TIMEOUT_SECS :: u64 where
  "SDK_DEFAULT_TIMEOUT_SECS = 600"

definition SDK_DEFAULT_SKIP_SIMULATION :: bool where
  "SDK_DEFAULT_SKIP_SIMULATION = False"

definition config_mock :: "proof_type \<Rightarrow> prover_config" where
  "config_mock pt = \<lparr>pc_mode = LocalMode Mock, pc_proof_type = pt\<rparr>"

definition mock_groth16 :: prover_config where
  "mock_groth16 = config_mock Groth16"

definition mock_plonk :: prover_config where
  "mock_plonk = config_mock Plonk"

section \<open>Loading from the environment\<close>

definition read_proof_type :: "env \<Rightarrow> string + proof_type" where
  "read_proof_type env = (case env ''SP1_PROOF_TYPE'' of
     Some v \<Rightarrow> if v = ''plonk'' then Inr Plonk else if v = ''groth16'' then Inr Groth16
              else Inl (''Invalid SP1_PROOF_TYPE value: '' @ v)
   | None \<Rightarrow> Inl ''Missing SP1_PROOF_TYPE environment variable'')"

definition mock_from_env :: "env \<Rightarrow> string + prover_config" where
  "mock_from_env env =
     bind_res (read_proof_type env) (\<lambda>pt. Inr \<lparr>pc_mode = LocalMode Mock, pc_proof_type = pt\<rparr>)"

definition read_network_mode :: "env \<Rightarrow> string + network_mode" where
  "read_network_mode env = (case env ''SP1_NETWORK_MODE'' of
     Some v \<Rightarrow> if v = ''mainnet'' then Inr MainnetMode else if v = ''reserved'' then Inr ReservedMode
              else Inl (''Invalid SP1_NETWORK_MODE value: '' @ v)
   | None \<Rightarrow> Inr MainnetMode)"

definition read_private_key :: "(string \<Rightarrow> bool) \<Rightarrow> env \<Rightarrow> string + string" where
  "read_private_key is_private_key env =
     bind_res (ok_or ''SP1_NETWORK_PRIVATE_KEY required for network mode'' (env ''SP1_NETWORK_PRIVATE_KEY'')) (\<lambda>key.
     if is_private_key key then Inr key
     else Inl ''Failed to parse SP1_NETWORK_PRIVATE_KEY as PrivateKeySigner.'')"

definition read_rpc_url :: "(string \<Rightarrow> bool) \<Rightarrow> env \<Rightarrow> network_mode \<Rightarrow> string + string" where
  "read_rpc_url is_url env mode = (case env ''SP1_NETWORK_RPC_URL'' of
     Some val \<Rightarrow> if is_url val then Inr val
                else Inl (''Environment variable SP1_NETWORK_RPC_URL contains invalid URL: '' @ val)
   | None \<Rightarrow> (case mode of
        MainnetMode \<Rightarrow> Inr SDK_MAINNET_RPC_URL
      | ReservedMode \<Rightarrow> Inr SDK_RESERVED_RPC_URL))"

definition read_min_auction_period :: "env \<Rightarrow> string + u64" where
  "read_min_auction_period env =
     var_or env ''SP1_MIN_AUCTION_PERIOD_SECS'' parse_u64 SDK_DEFAULT_MIN_AUCTION_PERIOD_SECS"

definition read_fulfillment :: "env \<Rightarrow> network_mode \<Rightarrow> u64 \<Rightarrow> string + fulfillment_config" where
  "read_fulfillment env mode min_auction_period = (case env ''SP1_FULFILLMENT_STRATEGY'' of
     Some v \<Rightarrow>
       if v = ''auction'' then
         bind_res (var_or env ''SP1_AUCTION_TIMEOUT_SECS'' parse_u64 SDK_DEFAULT_AUCTION_TIMEOUT_SECS) (\<lambda>secs.
         Inr (Auction secs min_auction_period))
       else if v = ''hosted'' then Inr Hosted
       else if v = ''reserved'' then Inr Reserved
       else Inl (''Invalid SP1_FULFILLMENT_STRATEGY value: '' @ v)
   | None \<Rightarrow> (case mode of
        MainnetMode \<Rightarrow> Inr (Auction SDK_DEFAULT_AUCTION_TIMEOUT_SECS min_auction_period)
      | ReservedMode \<Rightarrow> Inr Reserved))"

text \<open>The limits: required when the simulation is skipped, so they get defaults then.\<close>

definition default_limits ::
    "network_mode \<Rightarrow> bool \<Rightarrow> u64 option \<Rightarrow> u64 option \<Rightarrow> u64 option \<times> u64 option" where
  "default_limits mode skip_simulation cycle_limit gas_limit =
     (if skip_simulation
      then (case cycle_limit of
              None \<Rightarrow> (case mode of
                 MainnetMode \<Rightarrow> Some SDK_MAINNET_DEFAULT_CYCLE_LIMIT
               | ReservedMode \<Rightarrow> Some SDK_RESERVED_DEFAULT_CYCLE_LIMIT)
            | Some c \<Rightarrow> Some c,
            case gas_limit of None \<Rightarrow> Some SDK_DEFAULT_GAS_LIMIT | Some g \<Rightarrow> Some g)
      else (cycle_limit, gas_limit))"

definition parse_whitelist :: "(string \<Rightarrow> string + address) \<Rightarrow> string \<Rightarrow> string + address list" where
  "parse_whitelist parse_address s =
     traverse_res (\<lambda>addr. map_err (\<lambda>_. ''Invalid address in SP1_WHITELIST: '' @ trim addr) (parse_address (trim addr)))
       (split_on (CHR '','') s)"

definition read_whitelist :: "(string \<Rightarrow> string + address) \<Rightarrow> env \<Rightarrow> string + address list option" where
  "read_whitelist parse_address env = (case env ''SP1_WHITELIST'' of
     None \<Rightarrow> Inr None
   | Some s \<Rightarrow> map_res Some (parse_whitelist parse_address s))"

text \<open>A flag that only counts when a whitelist is given.\<close>

definition read_extension_flag :: "env \<Rightarrow> string \<Rightarrow> address list option \<Rightarrow> string + bool" where
  "read_extension_flag env name whitelist = (case whitelist of
     Some _ \<Rightarrow> var_or env name parse_bool False
   | None \<Rightarrow> Inr False)"

definition read_timeout :: "env \<Rightarrow> string + u64" where
  "read_timeout env = var_or env ''SP1_TIMEOUT_SECS'' parse_u64 SDK_DEFAULT_TIMEOUT_SECS"

text \<open>An open whitelist is an empty list; it excludes a given one.\<close>

definition open_whitelist :: "env \<Rightarrow> address list option \<Rightarrow> string + address list option" where
  "open_whitelist env whitelist =
     bind_res (var_or env ''SP1_WHITELIST_OPEN'' parse_bool False) (\<lambda>whitelist_open.
     if whitelist_open \<and> whitelist \<noteq> None
     then Inl ''SP1_WHITELIST_OPEN and SP1_WHITELIST are mutually exclusive.''
     else Inr (if whitelist_open then Some [] else whitelist))"

definition network_config_from_env ::
    "(string \<Rightarrow> bool) \<Rightarrow> (string \<Rightarrow> bool) \<Rightarrow> (string \<Rightarrow> string + address) \<Rightarrow> env \<Rightarrow> string + network_config" where
  "network_config_from_env is_private_key is_url parse_address env =
     bind_res (read_network_mode env) (\<lambda>network_mode.
     bind_res (read_private_key is_private_key env) (\<lambda>private_key.
     bind_res (read_rpc_url is_url env network_mode) (\<lambda>rpc_url.
     bind_res (read_min_auction_period env) (\<lambda>min_auction_period.
     bind_res (read_fulfillment env network_mode min_auction_period) (\<lambda>fulfillment.
     bind_res (var_or env ''SP1_MAX_PRICE_PER_PGU'' parse_u64 SDK_DEFAULT_PRICE_PER_PGU) (\<lambda>max_price_per_pgu.
     bind_res (var_or env ''SP1_SKIP_SIMULATION'' parse_bool SDK_DEFAULT_SKIP_SIMULATION) (\<lambda>skip_simulation.
     bind_res (var_opt env ''SP1_CYCLE_LIMIT'' parse_u64) (\<lambda>cycle_limit.
     bind_res (var_opt env ''SP1_GAS_LIMIT'' parse_u64) (\<lambda>gas_limit.
     let limits = default_limits network_mode skip_simulation cycle_limit gas_limit in
     bind_res (read_timeout env) (\<lambda>timeout.
     bind_res (read_whitelist parse_address env) (\<lambda>whitelist.
     bind_res (read_extension_flag env ''SP1_WHITELIST_ADD_HIGH_AVAILABILITY'' whitelist) (\<lambda>add_high_availability.
     bind_res (read_extension_flag env ''SP1_WHITELIST_ADD_DEFAULT'' whitelist) (\<lambda>add_default.
     bind_res (open_whitelist env whitelist) (\<lambda>whitelist.
     Inr \<lparr>nc_network_mode = network_mode, nc_private_key = private_key, nc_rpc_url = rpc_url,
          nc_fulfillment = fulfillment, nc_max_price_per_pgu = max_price_per_pgu, nc_cycle_limit = fst limits,
          nc_gas_limit = snd limits, nc_skip_simulation = skip_simulation, nc_timeout = timeout,
          nc_whitelist = whitelist, nc_whitelist_add_high_availability = add_high_availability,
          nc_whitelist_add_default = add_default\<rparr>))))))))))))))"

definition prover_config_from_env ::
    "(string \<Rightarrow> bool) \<Rightarrow> (string \<Rightarrow> bool) \<Rightarrow> (string \<Rightarrow> string + address) \<Rightarrow> env \<Rightarrow> string + prover_config" where
  "prover_config_from_env is_private_key is_url parse_address env =
     bind_res (read_proof_type env) (\<lambda>proof_type.
     bind_res
       (case env ''SP1_PROVER'' of
          Some v \<Rightarrow>
            if v = ''mock'' then Inr (LocalMode Mock)
            else if v = ''cpu'' then Inr (LocalMode Cpu)
            else if v = ''cuda'' then Inr (LocalMode Cuda)
            else if v = ''network'' then
              map_res NetworkMode (network_config_from_env is_private_key is_url parse_address env)
            else Inl (''Invalid SP1_PROVER value: '' @ v)
        | None \<Rightarrow> Inl ''Missing SP1_PROVER environment variable'') (\<lambda>mode.
     Inr \<lparr>pc_mode = mode, pc_proof_type = proof_type\<rparr>))"

datatype fulfillment_strategy = StrategyAuction | StrategyHosted | StrategyReserved

fun get_fulfillment_strategy :: "fulfillment_config \<Rightarrow> fulfillment_strategy" where
  "get_fulfillment_strategy (Auction _ _) = StrategyAuction"
| "get_fulfillment_strategy Hosted = StrategyHosted"
| "get_fulfillment_strategy Reserved = StrategyReserved"

section \<open>Pools of provers\<close>

text \<open>
  The prover network: \<open>get_provers_by_uptime\<close> at an RPC URL (connection included) and pauses, as transformers
  of its state. The raw prover ids are 20-byte addresses; \<open>Address::from_slice\<close> panics on another length.
\<close>

record 'w prover_network =
  pn_provers_by_uptime :: "string \<Rightarrow> bool \<Rightarrow> 'w \<Rightarrow> (string + bytes list) \<times> 'w"
  pn_sleep_ms :: "u64 \<Rightarrow> 'w \<Rightarrow> 'w"

definition address_from_slice :: "bytes \<Rightarrow> string fault + address" where
  "address_from_slice bs =
     (if length bs = 20 then Inr (from_be_bytes bs)
      else Inl (Panicked (UnwrapFailed ''slice has wrong length'')))"

definition try_get_fallback_whitelist ::
    "'w prover_network \<Rightarrow> network_config \<Rightarrow> bool \<Rightarrow> 'w \<Rightarrow> (string fault + address list) \<times> 'w" where
  "try_get_fallback_whitelist PN config high_availability_only w =
     (case pn_provers_by_uptime PN (nc_rpc_url config) high_availability_only w of
        (Inl e, w') \<Rightarrow> (Inl (Failed e), w')
      | (Inr provers, w') \<Rightarrow> (traverse_res address_from_slice provers, w'))"

definition WHITELIST_MAX_RETRIES :: nat where
  "WHITELIST_MAX_RETRIES = 3"

definition INITIAL_BACKOFF_MS :: u64 where
  "INITIAL_BACKOFF_MS = 500"

text \<open>The retry loop: \<open>left\<close> counts the attempts that remain (\<open>MAX_RETRIES - attempt\<close> in the source).\<close>

fun fallback_loop ::
    "'w prover_network \<Rightarrow> network_config \<Rightarrow> bool \<Rightarrow> nat \<Rightarrow> u64 \<Rightarrow> 'w \<Rightarrow> (string fault + address list) \<times> 'w" where
  "fallback_loop PN config ha left backoff_ms w =
     (case try_get_fallback_whitelist PN config ha w of
        (Inr whitelist, w') \<Rightarrow> (Inr whitelist, w')
      | (Inl (Panicked p), w') \<Rightarrow> (Inl (Panicked p), w')
      | (Inl (Failed e), w') \<Rightarrow>
          (case left of
             0 \<Rightarrow> (Inl (Failed (''Failed to fetch provers: '' @ e)), w')
           | Suc n \<Rightarrow> fallback_loop PN config ha n (backoff_ms * 2) (pn_sleep_ms PN backoff_ms w')))"

definition get_fallback_whitelist ::
    "'w prover_network \<Rightarrow> network_config \<Rightarrow> bool \<Rightarrow> 'w \<Rightarrow> (string fault + address list) \<times> 'w" where
  "get_fallback_whitelist PN config ha w =
     fallback_loop PN config ha (WHITELIST_MAX_RETRIES - 1) INITIAL_BACKOFF_MS w"

section \<open>Lemmas\<close>

lemma default_limits_present:
  "default_limits mode True c g = (c', g') \<Longrightarrow> c' \<noteq> None \<and> g' \<noteq> None"
  by (auto simp: default_limits_def split: option.splits network_mode.splits)

lemma traverse_res_all: "traverse_res f xs = Inr ys \<Longrightarrow> \<forall>x \<in> set xs. \<exists>y. f x = Inr y"
  by (induction xs arbitrary: ys) (auto simp: bind_res_eq_Inr)

lemma parse_whitelist_nonempty: "parse_whitelist parse s = Inr ws \<Longrightarrow> ws \<noteq> []"
  using split_on_nonempty[of "CHR '','' " s] by (auto simp: parse_whitelist_def dest!: traverse_res_length)

lemma read_whitelist_nonempty: "read_whitelist parse env = Inr (Some ws) \<Longrightarrow> ws \<noteq> []"
  by (auto simp: read_whitelist_def map_res_eq_Inr dest: parse_whitelist_nonempty split: option.splits)

lemma read_rpc_url_ok:
  "read_rpc_url is_url env mode = Inr u \<Longrightarrow>
     (env ''SP1_NETWORK_RPC_URL'' = Some u \<and> is_url u) \<or>
     (env ''SP1_NETWORK_RPC_URL'' = None \<and>
      u = (case mode of MainnetMode \<Rightarrow> SDK_MAINNET_RPC_URL | ReservedMode \<Rightarrow> SDK_RESERVED_RPC_URL))"
  by (auto simp: read_rpc_url_def split: option.splits if_splits network_mode.splits)

lemma if_Inl_eq_Inr: "(if c then Inl e else x) = Inr y \<longleftrightarrow> \<not> c \<and> x = Inr y"
  by simp

lemma network_config_stages:
  assumes "network_config_from_env is_key is_url parse_address env = Inr net"
  obtains p c g ws opn where "read_network_mode env = Inr (nc_network_mode net)"
    and "read_private_key is_key env = Inr (nc_private_key net)"
    and "read_rpc_url is_url env (nc_network_mode net) = Inr (nc_rpc_url net)"
    and "read_min_auction_period env = Inr p" and "read_fulfillment env (nc_network_mode net) p = Inr (nc_fulfillment net)"
    and "var_or env ''SP1_MAX_PRICE_PER_PGU'' parse_u64 SDK_DEFAULT_PRICE_PER_PGU = Inr (nc_max_price_per_pgu net)"
    and "var_or env ''SP1_SKIP_SIMULATION'' parse_bool SDK_DEFAULT_SKIP_SIMULATION = Inr (nc_skip_simulation net)"
    and "var_opt env ''SP1_CYCLE_LIMIT'' parse_u64 = Inr c" and "var_opt env ''SP1_GAS_LIMIT'' parse_u64 = Inr g"
    and "default_limits (nc_network_mode net) (nc_skip_simulation net) c g = (nc_cycle_limit net, nc_gas_limit net)"
    and "var_or env ''SP1_TIMEOUT_SECS'' parse_u64 SDK_DEFAULT_TIMEOUT_SECS = Inr (nc_timeout net)"
    and "read_whitelist parse_address env = Inr ws"
    and "read_extension_flag env ''SP1_WHITELIST_ADD_HIGH_AVAILABILITY'' ws = Inr (nc_whitelist_add_high_availability net)"
    and "read_extension_flag env ''SP1_WHITELIST_ADD_DEFAULT'' ws = Inr (nc_whitelist_add_default net)"
    and "var_or env ''SP1_WHITELIST_OPEN'' parse_bool False = Inr opn" and "\<not> (opn \<and> ws \<noteq> None)"
    and "nc_whitelist net = (if opn then Some [] else ws)"
  using assms unfolding network_config_from_env_def read_timeout_def open_whitelist_def Let_def bind_res_eq_Inr if_Inl_eq_Inr sum.inject
  by (elim exE conjE) (rule that, auto)

lemma network_mode_config:
  "prover_config_from_env is_key is_url parse_address env = Inr c \<Longrightarrow> pc_mode c = NetworkMode net \<Longrightarrow>
     env ''SP1_PROVER'' = Some ''network'' \<and> network_config_from_env is_key is_url parse_address env = Inr net"
  by (auto simp: prover_config_from_env_def bind_res_eq_Inr map_res_eq_Inr split: option.splits if_splits)

lemma parse_bool_True: "parse_bool s = Inr True \<longleftrightarrow> s = ''true''"
  by (auto simp: parse_bool_def)

lemma extension_flag_set:
  "read_extension_flag env name ws = Inr True \<Longrightarrow> ws \<noteq> None \<and> env name = Some ''true''"
  by (auto simp: read_extension_flag_def var_or_eq_Inr parse_bool_True split: option.splits)

lemma whitelist_open_set:
  "var_or env name parse_bool False = Inr b \<Longrightarrow> b \<longleftrightarrow> env name = Some ''true''"
  by (auto simp: var_or_eq_Inr parse_bool_def split: if_splits)

lemma network_config_facts:
  assumes "prover_config_from_env is_key is_url parse_address env = Inr c" and "pc_mode c = NetworkMode net"
  shows "is_key (nc_private_key net) \<and>
    (is_url (nc_rpc_url net) \<or> nc_rpc_url net \<in> {SDK_MAINNET_RPC_URL, SDK_RESERVED_RPC_URL}) \<and>
    (nc_skip_simulation net \<longrightarrow> nc_cycle_limit net \<noteq> None \<and> nc_gas_limit net \<noteq> None) \<and>
    (nc_whitelist net = Some [] \<longleftrightarrow> env ''SP1_WHITELIST_OPEN'' = Some ''true'') \<and>
    (env ''SP1_WHITELIST_OPEN'' \<noteq> Some ''true'' \<longrightarrow> read_whitelist parse_address env = Inr (nc_whitelist net)) \<and>
    (nc_whitelist_add_high_availability net \<or> nc_whitelist_add_default net \<longrightarrow>
      (\<exists>a ws. nc_whitelist net = Some (a # ws)))"
proof -
  from network_mode_config[OF assms] have "network_config_from_env is_key is_url parse_address env = Inr net" ..
  then show ?thesis
  proof (cases rule: network_config_stages)
    case (1 p c g ws opn)
    note stages = 1
    have key: "is_key (nc_private_key net)"
      using stages(2) by (auto simp: read_private_key_def bind_res_eq_Inr split: if_splits)
    have url: "is_url (nc_rpc_url net) \<or> nc_rpc_url net \<in> {SDK_MAINNET_RPC_URL, SDK_RESERVED_RPC_URL}"
      using read_rpc_url_ok[OF stages(3)] by (auto split: network_mode.splits)
    have limits: "nc_skip_simulation net \<longrightarrow> nc_cycle_limit net \<noteq> None \<and> nc_gas_limit net \<noteq> None"
      using stages(10) by (auto dest: default_limits_present)
    have opn: "opn \<longleftrightarrow> env ''SP1_WHITELIST_OPEN'' = Some ''true''" by (rule whitelist_open_set[OF stages(15)])
    have flags: "\<exists>a ws'. ws = Some (a # ws') \<and> \<not> opn"
      if "nc_whitelist_add_high_availability net \<or> nc_whitelist_add_default net"
      using that stages(12-16) by (auto dest!: extension_flag_set read_whitelist_nonempty simp: neq_Nil_conv)
    show ?thesis
      using key url limits flags opn stages(12,16,17) read_whitelist_nonempty[of parse_address env] by auto
  qed
qed

text \<open>An auction timeout is only read when the auction strategy is named explicitly.\<close>

lemma auction_timeout_ignored_by_default:
  assumes "env ''SP1_FULFILLMENT_STRATEGY'' = None"
  shows "prover_config_from_env is_key is_url parse_address (env(''SP1_AUCTION_TIMEOUT_SECS'' := v)) =
    prover_config_from_env is_key is_url parse_address env"
proof -
  let ?e = "env(''SP1_AUCTION_TIMEOUT_SECS'' := v)"
  have readers: "read_network_mode ?e = read_network_mode env" "read_private_key is_key ?e = read_private_key is_key env"
    "read_rpc_url is_url ?e = read_rpc_url is_url env" "read_min_auction_period ?e = read_min_auction_period env"
    "read_fulfillment ?e = read_fulfillment env" "read_whitelist parse_address ?e = read_whitelist parse_address env"
    using assms by (simp_all add: read_network_mode_def read_private_key_def read_rpc_url_def
        read_min_auction_period_def read_fulfillment_def read_whitelist_def var_or_def fun_eq_iff)
  have others: "name \<noteq> ''SP1_AUCTION_TIMEOUT_SECS'' \<Longrightarrow> var_or ?e name parse d = var_or env name parse d"
    "name \<noteq> ''SP1_AUCTION_TIMEOUT_SECS'' \<Longrightarrow> var_opt ?e name parse' = var_opt env name parse'"
    "name \<noteq> ''SP1_AUCTION_TIMEOUT_SECS'' \<Longrightarrow> read_extension_flag ?e name ws = read_extension_flag env name ws"
    for name ws and parse :: "string \<Rightarrow> string + 'a" and d and parse' :: "string \<Rightarrow> string + 'b"
    by (simp_all add: var_or_def var_opt_def read_extension_flag_def split: option.split)
  have net: "network_config_from_env is_key is_url parse_address ?e = network_config_from_env is_key is_url parse_address env"
    unfolding network_config_from_env_def read_timeout_def open_whitelist_def readers by (simp add: others)
  have vars: "?e ''SP1_PROVER'' = env ''SP1_PROVER''" "read_proof_type ?e = read_proof_type env"
    by (simp_all add: read_proof_type_def)
  show ?thesis unfolding prover_config_from_env_def net vars ..
qed

section \<open>A concrete instance\<close>

definition sample_prover_env :: env where
  "sample_prover_env = [''SP1_PROVER'' \<mapsto> ''network'', ''SP1_PROOF_TYPE'' \<mapsto> ''plonk'',
     ''SP1_NETWORK_PRIVATE_KEY'' \<mapsto> ''abc'', ''SP1_SKIP_SIMULATION'' \<mapsto> ''true'',
     ''SP1_WHITELIST'' \<mapsto> ''1, 2'', ''SP1_WHITELIST_ADD_DEFAULT'' \<mapsto> ''true'']"

definition sample_network_config :: network_config where
  "sample_network_config = \<lparr>nc_network_mode = MainnetMode, nc_private_key = ''abc'', nc_rpc_url = SDK_MAINNET_RPC_URL,
     nc_fulfillment = Auction 30 1, nc_max_price_per_pgu = 1000000000, nc_cycle_limit = Some 1000000000000,
     nc_gas_limit = Some 1000000000, nc_skip_simulation = True, nc_timeout = 600, nc_whitelist = Some [1, 2],
     nc_whitelist_add_high_availability = False, nc_whitelist_add_default = True\<rparr>"

definition sample_parse_address :: "string \<Rightarrow> string + address" where
  "sample_parse_address s = map_res of_nat (parse_uint 160 s)"

lemma sample_prover_config:
  "prover_config_from_env (\<lambda>_. True) (\<lambda>_. True) sample_parse_address sample_prover_env =
     Inr \<lparr>pc_mode = NetworkMode sample_network_config, pc_proof_type = Plonk\<rparr>"
  by (simp add: prover_config_from_env_def network_config_from_env_def read_timeout_def open_whitelist_def read_proof_type_def read_network_mode_def
      read_private_key_def read_rpc_url_def read_min_auction_period_def read_fulfillment_def read_whitelist_def
      read_extension_flag_def var_or_def var_opt_def sample_prover_env_def sample_network_config_def ok_or_def
      parse_bool_def default_limits_def parse_whitelist_def sample_parse_address_def parse_uint_def Let_def map_res_def
      trim_def is_space_def SDK_DEFAULT_PRICE_PER_PGU_def SDK_DEFAULT_AUCTION_TIMEOUT_SECS_def
      SDK_DEFAULT_MIN_AUCTION_PERIOD_SECS_def SDK_MAINNET_DEFAULT_CYCLE_LIMIT_def SDK_DEFAULT_GAS_LIMIT_def
      SDK_DEFAULT_TIMEOUT_SECS_def)

section \<open>Properties\<close>

text \<open>A network configuration that loads is usable. Its private key is valid and its RPC URL is valid or the
  network's default; limits are present when simulation is skipped; the whitelist is the empty one
  exactly when it was opened explicitly, otherwise it is what \<open>SP1_WHITELIST\<close> lists; and an extension flag is
  set only when there is a non-empty list to extend.\<close>

theorem network_config_usable:
  assumes "prover_config_from_env is_key is_url parse_address env = Inr c" and "pc_mode c = NetworkMode net"
  shows "is_key (nc_private_key net) \<and>
    (is_url (nc_rpc_url net) \<or> nc_rpc_url net \<in> {SDK_MAINNET_RPC_URL, SDK_RESERVED_RPC_URL}) \<and>
    (nc_skip_simulation net \<longrightarrow> nc_cycle_limit net \<noteq> None \<and> nc_gas_limit net \<noteq> None) \<and>
    (nc_whitelist net = Some [] \<longleftrightarrow> env ''SP1_WHITELIST_OPEN'' = Some ''true'') \<and>
    (env ''SP1_WHITELIST_OPEN'' \<noteq> Some ''true'' \<longrightarrow> read_whitelist parse_address env = Inr (nc_whitelist net)) \<and>
    (nc_whitelist_add_high_availability net \<or> nc_whitelist_add_default net \<longrightarrow>
      (\<exists>a ws. nc_whitelist net = Some (a # ws)))"
  using assms by (rule network_config_facts)

theorem network_config_usable_witness:
  "nc_cycle_limit sample_network_config \<noteq> None \<and> (\<exists>a ws. nc_whitelist sample_network_config = Some (a # ws))"
  using network_config_usable[OF sample_prover_config, of sample_network_config]
  by (simp add: sample_network_config_def)

text \<open>Nothing malformed is accepted silently. When a network configuration loads, every numeric and boolean variable
  that is set has a well-formed value, the enumerated ones have one of their names, and every address of the
  whitelist parses; the exceptions are the auction timeout without an explicit auction strategy and the
  extension flags without a whitelist, which are not read.\<close>

theorem malformed_settings_rejected:
  assumes "prover_config_from_env is_key is_url parse_address env = Inr c" and "pc_mode c = NetworkMode net"
  shows "list_all (\<lambda>name. \<forall>v. env name = Some v \<longrightarrow> is_ok (parse_u64 v))
      [''SP1_MIN_AUCTION_PERIOD_SECS'', ''SP1_MAX_PRICE_PER_PGU'', ''SP1_CYCLE_LIMIT'', ''SP1_GAS_LIMIT'', ''SP1_TIMEOUT_SECS''] \<and>
    list_all (\<lambda>name. \<forall>v. env name = Some v \<longrightarrow> is_ok (parse_bool v)) [''SP1_SKIP_SIMULATION'', ''SP1_WHITELIST_OPEN''] \<and>
    (env ''SP1_FULFILLMENT_STRATEGY'' = Some ''auction'' \<longrightarrow>
      (\<forall>v. env ''SP1_AUCTION_TIMEOUT_SECS'' = Some v \<longrightarrow> is_ok (parse_u64 v))) \<and>
    (\<forall>v. env ''SP1_NETWORK_MODE'' = Some v \<longrightarrow> v \<in> {''mainnet'', ''reserved''}) \<and>
    (\<forall>v. env ''SP1_FULFILLMENT_STRATEGY'' = Some v \<longrightarrow> v \<in> {''auction'', ''hosted'', ''reserved''}) \<and>
    (\<forall>s. env ''SP1_WHITELIST'' = Some s \<longrightarrow>
      (\<forall>piece \<in> set (split_on (CHR '','') s). is_ok (parse_address (trim piece))))"
proof -
  from network_mode_config[OF assms] have "network_config_from_env is_key is_url parse_address env = Inr net" ..
  then show ?thesis
  proof (cases rule: network_config_stages)
    case (1 p c g ws opn)
    have nums: "list_all (\<lambda>name. \<forall>v. env name = Some v \<longrightarrow> is_ok (parse_u64 v))
      [''SP1_MIN_AUCTION_PERIOD_SECS'', ''SP1_MAX_PRICE_PER_PGU'', ''SP1_CYCLE_LIMIT'', ''SP1_GAS_LIMIT'', ''SP1_TIMEOUT_SECS'']"
      using 1(4,6,8,9,11) by (auto simp: read_min_auction_period_def var_or_eq_Inr var_opt_eq_Inr is_ok_iff)
    have bools: "list_all (\<lambda>name. \<forall>v. env name = Some v \<longrightarrow> is_ok (parse_bool v)) [''SP1_SKIP_SIMULATION'', ''SP1_WHITELIST_OPEN'']"
      using 1(7,15) by (auto simp: var_or_eq_Inr is_ok_iff)
    have enums: "env ''SP1_FULFILLMENT_STRATEGY'' = Some ''auction'' \<longrightarrow>
        (\<forall>v. env ''SP1_AUCTION_TIMEOUT_SECS'' = Some v \<longrightarrow> is_ok (parse_u64 v))"
      "\<forall>v. env ''SP1_NETWORK_MODE'' = Some v \<longrightarrow> v \<in> {''mainnet'', ''reserved''}"
      "\<forall>v. env ''SP1_FULFILLMENT_STRATEGY'' = Some v \<longrightarrow> v \<in> {''auction'', ''hosted'', ''reserved''}"
      using 1(1,5) by (auto simp: read_network_mode_def read_fulfillment_def bind_res_eq_Inr var_or_eq_Inr is_ok_iff split: if_splits)
    have "\<forall>s. env ''SP1_WHITELIST'' = Some s \<longrightarrow>
        (\<forall>piece \<in> set (split_on (CHR '','') s). is_ok (parse_address (trim piece)))"
      using 1(12) by (auto simp: read_whitelist_def map_res_eq_Inr parse_whitelist_def is_ok_iff dest!: traverse_res_all)
    with nums bools enums show ?thesis by simp
  qed
qed

theorem malformed_settings_rejected_witness:
  "is_ok (sample_parse_address (trim '' 2''))"
  using malformed_settings_rejected[OF sample_prover_config, of sample_network_config]
  by (simp add: sample_prover_env_def)

text \<open>Fetching a prover pool ends. At most three queries are made, with pauses of 500 and 1000 milliseconds between
  them; the first answer is returned, and after the third failure its error.\<close>

theorem get_fallback_whitelist_attempts:
  "get_fallback_whitelist PN config ha w =
     (case try_get_fallback_whitelist PN config ha w of
        (Inl (Failed _), w1) \<Rightarrow>
          (case try_get_fallback_whitelist PN config ha (pn_sleep_ms PN 500 w1) of
             (Inl (Failed _), w2) \<Rightarrow>
               (case try_get_fallback_whitelist PN config ha (pn_sleep_ms PN 1000 w2) of
                  (Inl (Failed e), w3) \<Rightarrow> (Inl (Failed (''Failed to fetch provers: '' @ e)), w3)
                | r \<Rightarrow> r)
           | r \<Rightarrow> r)
      | r \<Rightarrow> r)"
  by (simp add: get_fallback_whitelist_def WHITELIST_MAX_RETRIES_def INITIAL_BACKOFF_MS_def numeral_2_eq_2
      split: prod.splits sum.splits fault.splits)

end
