(* ===== verification/Nori_Prover.thy ===== *)
theory Nori_Prover
  imports Nori_Prover_Config Nori_Consensus
begin

text \<open>
  The SP1 prover worker (\<open>nori/src/sp1_prover.rs\<close>): the cached proving keys, the request built for the prover
  network or a local prover, the extension of the whitelist, and the job that turns proof inputs into a proof. The
  SP1 SDK, the CBOR encoder and the prover network are parameters; a proof is an abstract value whose public
  values are bytes. The state is the two key caches and the state of the outside world.
\<close>

section \<open>The SDK\<close>

text \<open>What the request builder collects before the request is sent.\<close>

record prove_request =
  rq_network_mode :: network_mode
  rq_rpc_url :: string
  rq_private_key :: string
  rq_stdin :: bytes
  rq_proof_type :: proof_type
  rq_strategy :: fulfillment_strategy
  rq_auction_timeout :: "u64 option"
  rq_min_auction_period :: "u64 option"
  rq_max_price_per_pgu :: u64
  rq_skip_simulation :: bool
  rq_timeout :: u64
  rq_whitelist :: "address list option"
  rq_cycle_limit :: "u64 option"
  rq_gas_limit :: "u64 option"

text \<open>Key setup for the program (\<open>cuda\<close> or not), proving through the network and proving locally.\<close>

record ('k, 'p, 'w) sp1_sdk =
  sdk_setup :: "bool \<Rightarrow> 'w \<Rightarrow> (string + 'k) \<times> 'w"
  sdk_prove_network :: "'k \<Rightarrow> prove_request \<Rightarrow> 'w \<Rightarrow> (string + 'p) \<times> 'w"
  sdk_prove_local :: "local_prover_mode \<Rightarrow> 'k \<Rightarrow> bytes \<Rightarrow> proof_type \<Rightarrow> 'w \<Rightarrow> (string + 'p) \<times> 'w"
  sdk_public_values :: "'p \<Rightarrow> bytes"

record ('k, 'w) prover_state =
  ps_proving_key :: "'k option"
  ps_cuda_proving_key :: "'k option"
  ps_world :: 'w

type_synonym ('k, 'w, 'a) prover_io = "('k, 'w) prover_state \<Rightarrow> (string fault + 'a) \<times> ('k, 'w) prover_state"

definition bind_prover :: "('k, 'w, 'a) prover_io \<Rightarrow> ('a \<Rightarrow> ('k, 'w, 'b) prover_io) \<Rightarrow> ('k, 'w, 'b) prover_io" where
  "bind_prover m f st = (case m st of (Inl e, st') \<Rightarrow> (Inl e, st') | (Inr x, st') \<Rightarrow> f x st')"

text \<open>A call to the outside world.\<close>

definition call_world :: "('w \<Rightarrow> (string + 'a) \<times> 'w) \<Rightarrow> ('k, 'w, 'a) prover_io" where
  "call_world f st = (case f (ps_world st) of (r, w) \<Rightarrow> (map_err Failed r, st\<lparr>ps_world := w\<rparr>))"

section \<open>Proving keys\<close>

text \<open>\<open>OnceCell::get_or_try_init\<close>: the setup runs until it has succeeded once.\<close>

definition get_proving_key :: "('k, 'p, 'w) sp1_sdk \<Rightarrow> ('k, 'w, 'k) prover_io" where
  "get_proving_key S st = (case ps_proving_key st of
     Some pk \<Rightarrow> (Inr pk, st)
   | None \<Rightarrow> bind_prover (call_world (sdk_setup S False)) (\<lambda>pk st. (Inr pk, st\<lparr>ps_proving_key := Some pk\<rparr>)) st)"

definition get_cuda_proving_key :: "('k, 'p, 'w) sp1_sdk \<Rightarrow> ('k, 'w, 'k) prover_io" where
  "get_cuda_proving_key S st = (case ps_cuda_proving_key st of
     Some pk \<Rightarrow> (Inr pk, st)
   | None \<Rightarrow> bind_prover (call_world (sdk_setup S True)) (\<lambda>pk st. (Inr pk, st\<lparr>ps_cuda_proving_key := Some pk\<rparr>)) st)"

section \<open>Generating a proof\<close>

fun prove_with_type :: "('k, 'p, 'w) sp1_sdk \<Rightarrow> local_prover_mode \<Rightarrow> bytes \<Rightarrow> proof_type \<Rightarrow> ('k, 'w, 'p) prover_io" where
  "prove_with_type S Mock stdin pt =
     bind_prover (get_proving_key S) (\<lambda>pk. call_world (sdk_prove_local S Mock pk stdin pt))"
| "prove_with_type S Cpu stdin pt =
     bind_prover (get_proving_key S) (\<lambda>pk. call_world (sdk_prove_local S Cpu pk stdin pt))"
| "prove_with_type S Cuda stdin pt =
     bind_prover (get_cuda_proving_key S) (\<lambda>pk. call_world (sdk_prove_local S Cuda pk stdin pt))"

definition network_request ::
    "network_config \<Rightarrow> proof_type \<Rightarrow> bytes \<Rightarrow> address list option \<Rightarrow> prove_request" where
  "network_request net proof_type stdin extended_whitelist =
     \<lparr>rq_network_mode = nc_network_mode net, rq_rpc_url = nc_rpc_url net, rq_private_key = nc_private_key net,
      rq_stdin = stdin, rq_proof_type = proof_type,
      rq_strategy = get_fulfillment_strategy (nc_fulfillment net),
      rq_auction_timeout = (case nc_fulfillment net of Auction timeout _ \<Rightarrow> Some timeout | _ \<Rightarrow> None),
      rq_min_auction_period = (case nc_fulfillment net of Auction _ period \<Rightarrow> Some period | _ \<Rightarrow> None),
      rq_max_price_per_pgu = nc_max_price_per_pgu net, rq_skip_simulation = nc_skip_simulation net,
      rq_timeout = nc_timeout net,
      rq_whitelist = (case extended_whitelist of Some ws \<Rightarrow> Some ws | None \<Rightarrow> nc_whitelist net),
      rq_cycle_limit = nc_cycle_limit net, rq_gas_limit = nc_gas_limit net\<rparr>"

definition generate_proof ::
    "('k, 'p, 'w) sp1_sdk \<Rightarrow> prover_config \<Rightarrow> bytes \<Rightarrow> address list option \<Rightarrow> ('k, 'w, 'p) prover_io" where
  "generate_proof S config stdin extended_whitelist = (case pc_mode config of
     NetworkMode net \<Rightarrow>
       bind_prover (get_proving_key S) (\<lambda>pk.
       call_world (sdk_prove_network S pk (network_request net (pc_proof_type config) stdin extended_whitelist)))
   | LocalMode local_mode \<Rightarrow> prove_with_type S local_mode stdin (pc_proof_type config))"

section \<open>The job\<close>

text \<open>\<open>extended\<close> is what the list has become, \<open>seen\<close> the hash set beside it.\<close>

fun append_unique :: "address list \<Rightarrow> address list \<Rightarrow> address set \<Rightarrow> address list \<times> address set" where
  "append_unique [] extended seen = (extended, seen)"
| "append_unique (addr # fetched) extended seen =
     (if addr \<in> seen then append_unique fetched extended seen
      else append_unique fetched (extended @ [addr]) (insert addr seen))"

text \<open>One extension: a failed query skips it.\<close>

definition extend_with ::
    "'w prover_network \<Rightarrow> network_config \<Rightarrow> bool \<Rightarrow> address list \<times> address set
      \<Rightarrow> ('k, 'w, address list \<times> address set) prover_io" where
  "extend_with PN net high_availability_only es st =
     (case try_get_fallback_whitelist PN net high_availability_only (ps_world st) of
        (Inl (Panicked p), w) \<Rightarrow> (Inl (Panicked p), st\<lparr>ps_world := w\<rparr>)
      | (Inl (Failed e), w) \<Rightarrow> (Inr es, st\<lparr>ps_world := w\<rparr>)
      | (Inr fetched, w) \<Rightarrow> (Inr (append_unique fetched (fst es) (snd es)), st\<lparr>ps_world := w\<rparr>))"

definition extended_whitelist ::
    "'w prover_network \<Rightarrow> prover_config \<Rightarrow> ('k, 'w, address list option) prover_io" where
  "extended_whitelist PN config = (case pc_mode config of
     NetworkMode net \<Rightarrow>
       if nc_whitelist_add_high_availability net \<or> nc_whitelist_add_default net then
         (let extended = (case nc_whitelist net of Some ws \<Rightarrow> ws | None \<Rightarrow> []);
              seen = set extended in
          bind_prover
            (if nc_whitelist_add_high_availability net then extend_with PN net True (extended, seen)
             else (\<lambda>st. (Inr (extended, seen), st))) (\<lambda>es.
          bind_prover
            (if nc_whitelist_add_default net then extend_with PN net False es else (\<lambda>st. (Inr es, st))) (\<lambda>es st.
          (Inr (Some (fst es)), st))))
       else (\<lambda>st. (Inr None, st))
   | LocalMode _ \<Rightarrow> (\<lambda>st. (Inr None, st)))"

record 'p prover_job_output =
  pj_job_id :: u64
  pj_input_head :: u64
  pj_proof :: 'p

definition finality_update_job ::
    "(('x, 'h, 'c, 'u, 'v, 'g) proof_inputs \<Rightarrow> string + bytes) \<Rightarrow> ('k, 'p, 'w) sp1_sdk \<Rightarrow> 'w prover_network
      \<Rightarrow> prover_config \<Rightarrow> u64 \<Rightarrow> u64 \<Rightarrow> ('x, 'h, 'c, 'u, 'v, 'g) proof_inputs
      \<Rightarrow> ('k, 'w, 'p prover_job_output) prover_io" where
  "finality_update_job to_cbor S PN config job_id input_head inputs =
     (case to_cbor inputs of
        Inl e \<Rightarrow> (\<lambda>st. (Inl (Failed e), st))
      | Inr encoded_proof_inputs \<Rightarrow>
          bind_prover (extended_whitelist PN config) (\<lambda>ew.
          bind_prover (generate_proof S config encoded_proof_inputs ew) (\<lambda>proof st.
          (Inr \<lparr>pj_job_id = job_id, pj_input_head = input_head, pj_proof = proof\<rparr>, st))))"

section \<open>Lemmas\<close>

lemma bind_prover_ok:
  "bind_prover m f st = (Inr y, st') \<longleftrightarrow> (\<exists>x st1. m st = (Inr x, st1) \<and> f x st1 = (Inr y, st'))"
  by (auto simp: bind_prover_def split: prod.splits sum.splits)

lemma call_world_ok:
  "call_world f st = (Inr x, st') \<longleftrightarrow> (\<exists>w. f (ps_world st) = (Inr x, w) \<and> st' = st\<lparr>ps_world := w\<rparr>)"
  by (auto simp: call_world_def split: prod.splits)

text \<open>After the first success the key comes from the cache and the SDK is not asked again.\<close>

lemma proving_key_cached:
  "get_proving_key S st = (Inr pk, st') \<Longrightarrow> get_proving_key S st' = (Inr pk, st')"
  "get_cuda_proving_key S st = (Inr pk, st') \<Longrightarrow> get_cuda_proving_key S st' = (Inr pk, st')"
  by (auto simp: get_proving_key_def get_cuda_proving_key_def bind_prover_ok split: option.splits)

lemma append_unique_added:
  "seen = set extended \<Longrightarrow> append_unique fetched extended seen = (result, seen') \<Longrightarrow>
     seen' = set result \<and> (\<exists>added. result = extended @ added \<and> distinct added \<and> set added = set fetched - set extended)"
proof (induction fetched arbitrary: extended seen)
  case (Cons addr fetched)
  show ?case
  proof (cases "addr \<in> seen")
    case True
    with Cons show ?thesis by fastforce
  next
    case False
    from Cons.prems False have "append_unique fetched (extended @ [addr]) (insert addr seen) = (result, seen')" by simp
    from Cons.IH[OF _ this] Cons.prems obtain added where
      "seen' = set result" "result = extended @ [addr] @ added" "distinct added"
      "set added = set fetched - set (extended @ [addr])" by auto
    with False Cons.prems(1) show ?thesis by (intro conjI exI[of _ "addr # added"]) auto
  qed
qed simp

definition extends :: "address list \<Rightarrow> address list \<times> address set \<Rightarrow> bool" where
  "extends ws es \<longleftrightarrow> snd es = set (fst es) \<and> (\<exists>added. fst es = ws @ added \<and> distinct added \<and> set added \<inter> set ws = {})"

lemma extend_with_extends:
  assumes "extend_with PN net ha es st = (Inr es', st')" and "extends ws es"
  shows "extends ws es'"
proof -
  have "es' = es \<or> (\<exists>fetched. append_unique fetched (fst es) (snd es) = es')"
    using assms(1) by (auto simp: extend_with_def split: prod.splits sum.splits fault.splits)
  then show ?thesis
  proof
    assume "\<exists>fetched. append_unique fetched (fst es) (snd es) = es'"
    then obtain fetched where f: "append_unique fetched (fst es) (snd es) = (fst es', snd es')" by auto
    from append_unique_added[OF _ f] assms(2) obtain added where
      a: "snd es' = set (fst es')" "fst es' = fst es @ added" "distinct added" "set added = set fetched - set (fst es)"
      by (auto simp: extends_def)
    from assms(2) obtain before where "fst es = ws @ before" "distinct before" "set before \<inter> set ws = {}"
      by (auto simp: extends_def)
    with a show ?thesis by (auto simp: extends_def intro!: exI[of _ "before @ added"])
  qed (use assms(2) in simp)
qed

lemma extended_whitelist_extends:
  assumes "extended_whitelist PN config st = (Inr (Some ws), st')"
  shows "\<exists>net added. pc_mode config = NetworkMode net \<and>
    ws = (case nc_whitelist net of Some l \<Rightarrow> l | None \<Rightarrow> []) @ added \<and> distinct added \<and>
    set added \<inter> set (case nc_whitelist net of Some l \<Rightarrow> l | None \<Rightarrow> []) = {}"
proof (cases "pc_mode config")
  case (NetworkMode net)
  let ?l = "case nc_whitelist net of Some l \<Rightarrow> l | None \<Rightarrow> []"
  have start: "extends ?l (?l, set ?l)" by (simp add: extends_def)
  let ?ha = "if nc_whitelist_add_high_availability net then extend_with PN net True (?l, set ?l)
    else (\<lambda>st. (Inr (?l, set ?l), st))"
  let ?dp = "\<lambda>es. if nc_whitelist_add_default net then extend_with PN net False es else (\<lambda>st. (Inr es, st))"
  have "nc_whitelist_add_high_availability net \<or> nc_whitelist_add_default net"
    using assms NetworkMode by (auto simp: extended_whitelist_def split: if_split_asm)
  then have "bind_prover ?ha (\<lambda>es. bind_prover (?dp es) (\<lambda>es st. (Inr (Some (fst es)), st))) st = (Inr (Some ws), st')"
    using assms by (simp add: extended_whitelist_def NetworkMode Let_def)
  then obtain es es' st1 st2 where 1: "?ha st = (Inr es, st1)" and 2: "?dp es st1 = (Inr es', st2)" and ws: "ws = fst es'"
    unfolding bind_prover_ok prod.inject sum.inject option.inject by (elim exE conjE) (rule that, assumption, assumption, rule sym)
  have "extends ?l es" using 1 start by (auto split: if_split_asm intro: extend_with_extends)
  then have "extends ?l es'" using 2 by (auto split: if_split_asm intro: extend_with_extends)
  with ws NetworkMode show ?thesis by (auto simp: extends_def)
qed (use assms in \<open>simp add: extended_whitelist_def\<close>)

section \<open>Soundness of the prover\<close>

text \<open>What SP1 promises: a proof it returns carries the bytes the guest commits on the given input.\<close>

definition sdk_sound ::
    "(bytes \<Rightarrow> panic + bytes) \<Rightarrow> ('k, 'p, 'w) sp1_sdk \<Rightarrow> bool" where
  "sdk_sound guest S \<longleftrightarrow>
     (\<forall>pk rq w proof w'. sdk_prove_network S pk rq w = (Inr proof, w') \<longrightarrow>
        guest (rq_stdin rq) = Inr (sdk_public_values S proof)) \<and>
     (\<forall>mode pk stdin pt w proof w'. sdk_prove_local S mode pk stdin pt w = (Inr proof, w') \<longrightarrow>
        guest stdin = Inr (sdk_public_values S proof))"

lemma sdk_sound_dest:
  "sdk_sound guest S \<Longrightarrow> sdk_prove_network S pk rq w = (Inr proof, w') \<Longrightarrow>
     guest (rq_stdin rq) = Inr (sdk_public_values S proof)"
  "sdk_sound guest S \<Longrightarrow> sdk_prove_local S mode pk stdin pt w = (Inr proof, w') \<Longrightarrow>
     guest stdin = Inr (sdk_public_values S proof)"
  unfolding sdk_sound_def by blast+

lemma generate_proof_sound:
  assumes "sdk_sound guest S" and "generate_proof S config stdin ew st = (Inr proof, st')"
  shows "guest stdin = Inr (sdk_public_values S proof)"
proof (cases "pc_mode config")
  case (LocalMode m)
  with assms show ?thesis
    by (cases m) (auto simp: generate_proof_def bind_prover_ok call_world_ok dest: sdk_sound_dest(2))
next
  case (NetworkMode net)
  with assms obtain pk rq w w' where "sdk_prove_network S pk rq w = (Inr proof, w')" "rq_stdin rq = stdin"
    by (auto simp: generate_proof_def bind_prover_ok call_world_ok network_request_def)
  with sdk_sound_dest(1)[OF assms(1)] show ?thesis by auto
qed

lemma job_proves_program:
  assumes "sdk_sound (guest_main E H cbor) S" and "\<And>i bs. to_cbor i = Inr bs \<Longrightarrow> cbor bs = Inr i"
    and "finality_update_job to_cbor S PN config job_id input_head inputs st = (Inr out, st')"
  shows "pj_job_id out = job_id \<and> pj_input_head out = input_head \<and>
    (\<exists>o'. consensus_mpt_program E H inputs = Inr o' \<and> sdk_public_values S (pj_proof out) = proof_outputs_to_bytes o')"
proof -
  from assms(3) obtain bs ew st1 st2 where bs: "to_cbor inputs = Inr bs"
    and p: "generate_proof S config bs ew st1 = (Inr (pj_proof out), st2)"
    and ids: "pj_job_id out = job_id" "pj_input_head out = input_head"
    by (auto simp: finality_update_job_def bind_prover_ok split: sum.splits)
  from generate_proof_sound[OF assms(1) p] assms(2)[OF bs] ids show ?thesis
    by (auto simp: guest_main_def bind_res_eq_Inr)
qed

section \<open>A concrete instance\<close>

text \<open>A CBOR that knows one value.\<close>

type_synonym sample_proof_inputs = "(unit, unit, u8, u64, u64, unit) proof_inputs"

definition sample_cbor :: "sample_proof_inputs \<Rightarrow> bytes \<Rightarrow> string + sample_proof_inputs" where
  "sample_cbor i bs = (if bs = [1] then Inr i else Inl ''invalid'')"

definition sample_to_cbor :: "sample_proof_inputs \<Rightarrow> sample_proof_inputs \<Rightarrow> string + bytes" where
  "sample_to_cbor i j = (if j = i then Inr [1] else Inl ''unsupported'')"

text \<open>A prover that runs the guest.\<close>

definition sample_sdk :: "sample_proof_inputs \<Rightarrow> (unit, bytes, unit) sp1_sdk" where
  "sample_sdk i = (let prove = (\<lambda>stdin. case guest_main sample_env sample_helios (sample_cbor i) stdin of
       Inr bs \<Rightarrow> Inr bs | Inl _ \<Rightarrow> Inl ''guest aborted'') in
     \<lparr>sdk_setup = (\<lambda>_ w. (Inr (), w)),
      sdk_prove_network = (\<lambda>_ rq w. (prove (rq_stdin rq), w)),
      sdk_prove_local = (\<lambda>_ _ stdin _ w. (prove stdin, w)),
      sdk_public_values = (\<lambda>p. p)\<rparr>)"

definition sample_pools :: "unit prover_network" where
  "sample_pools = \<lparr>pn_provers_by_uptime = (\<lambda>_ ha w. (Inr (if ha then [] else [replicate 19 0 @ [2], replicate 19 0 @ [3]]), w)),
     pn_sleep_ms = (\<lambda>_ w. w)\<rparr>"

definition sample_state :: "(unit, unit) prover_state" where
  "sample_state = \<lparr>ps_proving_key = None, ps_cuda_proving_key = None, ps_world = ()\<rparr>"

lemma sample_public_values [simp]: "sdk_public_values (sample_sdk i) p = p"
  by (simp add: sample_sdk_def Let_def)

lemma sample_sdk_sound: "sdk_sound (guest_main sample_env sample_helios (sample_cbor i)) (sample_sdk i)"
  by (auto simp: sdk_sound_def sample_sdk_def Let_def split: sum.splits)

lemma sample_cbor_round: "sample_to_cbor i j = Inr bs \<Longrightarrow> sample_cbor i bs = Inr j"
  by (auto simp: sample_to_cbor_def sample_cbor_def split: if_splits)

lemma sample_job:
  assumes "consensus_mpt_program sample_env sample_helios i = Inr o'"
  shows "\<exists>out st'. finality_update_job (sample_to_cbor i) (sample_sdk i) sample_pools mock_groth16 1 64 i
     sample_state = (Inr out, st')"
proof -
  have "guest_main sample_env sample_helios (sample_cbor i) [1] = Inr (proof_outputs_to_bytes o')"
    by (simp add: guest_main_def sample_cbor_def assms)
  then show ?thesis
    by (simp add: finality_update_job_def sample_to_cbor_def mock_groth16_def config_mock_def extended_whitelist_def
        bind_prover_def generate_proof_def get_proving_key_def sample_state_def call_world_def)
      (simp add: sample_sdk_def call_world_def)
qed

definition sample_config :: prover_config where
  "sample_config = \<lparr>pc_mode = NetworkMode sample_network_config, pc_proof_type = Plonk\<rparr>"

lemma sample_extension: "\<exists>ew st'. extended_whitelist sample_pools sample_config sample_state = (Inr ew, st')"
  by (simp add: extended_whitelist_def sample_config_def sample_network_config_def bind_prover_def extend_with_def
      try_get_fallback_whitelist_def sample_pools_def sample_state_def address_from_slice_def Let_def)

section \<open>Properties\<close>

text \<open>A finished job proves the program on its inputs. If SP1 is sound and the CBOR encoding can be read back, then
  whenever the job returns, in whichever prover mode, the bridge program accepts exactly the job's
  inputs, and the public values of the proof decode to the outputs of that run; the result carries the job's id and
  input head.\<close>

theorem finality_update_job_sound:
  assumes "sdk_sound (guest_main E H cbor) S" and "\<And>i bs. to_cbor i = Inr bs \<Longrightarrow> cbor bs = Inr i"
    and "finality_update_job to_cbor S PN config job_id input_head inputs st = (Inr out, st')"
  shows "pj_job_id out = job_id \<and> pj_input_head out = input_head \<and>
    (\<exists>o'. consensus_mpt_program E H inputs = Inr o' \<and>
       proof_outputs_from_bytes (sdk_public_values S (pj_proof out)) = Inr o')"
  using job_proves_program[OF assms] po_codec.dec_enc by auto

theorem finality_update_job_sound_witness:
  "\<exists>i out st' o'. finality_update_job (sample_to_cbor i) (sample_sdk i) sample_pools mock_groth16 1 64 i
      sample_state = (Inr out, st') \<and> pj_job_id out = 1 \<and>
    proof_outputs_from_bytes (sdk_public_values (sample_sdk i) (pj_proof out)) = Inr o'"
proof -
  let ?i = "sample_inputs 64 [70] 96"
  obtain o' where o': "consensus_mpt_program sample_env sample_helios ?i = Inr o'" using sample_run[of 64 70 96] by auto
  obtain out st' where j: "finality_update_job (sample_to_cbor ?i) (sample_sdk ?i) sample_pools mock_groth16 1 64
      ?i sample_state = (Inr out, st')" using sample_job[OF o'] by blast
  from finality_update_job_sound[OF sample_sdk_sound sample_cbor_round j] j show ?thesis by auto
qed



end
