(* ===== verification/Nori_Bridge_Head.thy ===== *)
theory Nori_Bridge_Head
  imports Nori_Notices Nori_Detector Nori_Prover Nori_Text "HOL-Library.AList"
begin

text \<open>
  The bridge head (\<open>nori/src/bridge_head/api.rs\<close>, \<open>handles.rs\<close>): its state, the table of prover jobs,
  the handlers for staging, job results, advances and finality changes, and its event loop.

  A handler is a turn of \<open>Nori_Event_Loop\<close>. Sent messages are the effects: a spawned prover job, an update to
  the detector, an event to the observer. A turn gets the clocks and whether the detector and the observer still
  listen; instants are nanoseconds, and \<open>as_secs_f64\<close> of a duration is an argument. The hash map of jobs
  is an association list with distinct keys. Log output is not modelled.
\<close>

section \<open>Messages\<close>

record ('p, 'r) proof_message =
  pm_input_slot :: u64
  pm_input_block_number :: u64
  pm_input_store_hash :: b256
  pm_input_queue_cursor :: u64
  pm_output_slot :: u64
  pm_output_block_number :: u64
  pm_output_store_hash :: b256
  pm_output_queue_cursor :: u64
  pm_proof :: 'p
  pm_execution_state_root :: b256
  pm_verified_requests_root :: b256
  pm_next_sync_committee_hash :: b256
  pm_proof_request_queue_address :: address
  pm_verified_requests :: "verified_request list"
  pm_elapsed_sec :: 'r

datatype ('w, 'p, 'r) bridge_head_event =
    ProofEvent "('p, 'r) proof_message"
  | NoticeEvent "('w, 'r) notice"

record advance_message =
  am_slot :: u64
  am_store_hash :: b256
  am_queue_cursor :: u64

datatype 'w command = StageTransitionProof 'w | Advance advance_message

text \<open>The command handle sends one command; the channel may be closed.\<close>

definition handle_stage_transition_proof :: "bool \<Rightarrow> 'w \<Rightarrow> unit + 'w command" where
  "handle_stage_transition_proof head_alive w = (if head_alive then Inr (StageTransitionProof w) else Inl ())"

definition handle_advance :: "bool \<Rightarrow> u64 \<Rightarrow> b256 \<Rightarrow> u64 \<Rightarrow> unit + 'w command" where
  "handle_advance head_alive slot store_hash queue_cursor =
     (if head_alive
      then Inr (Advance \<lparr>am_slot = slot, am_store_hash = store_hash, am_queue_cursor = queue_cursor\<rparr>)
      else Inl ())"

record prover_job_error =
  pe_job_id :: u64
  pe_error :: string

section \<open>State\<close>

record 'w prover_job =
  bj_inputs_with_window :: 'w
  bj_start_instant :: nat

record 'w bridge_head =
  bh_current_slot :: u64
  bh_next_slot :: u64
  bh_job_id :: u64
  bh_prover_jobs :: "(u64 \<times> 'w prover_job) list"
  bh_stage_input_tx :: bool
  bh_store_hash :: b256
  bh_queue_cursor :: u64

record 'r head_env =
  he_instant :: nat
  he_datetime_iso :: string
  he_as_secs_f64 :: "nat \<Rightarrow> 'r"
  he_detector_alive :: bool
  he_observer_alive :: bool

datatype ('i, 'w, 'p, 'r) head_message =
    SpawnJob u64 u64 'i
  | ToDetectorStage detector_update
  | ToDetectorAdvance detector_update
  | EmitEvent "('w, 'p, 'r) bridge_head_event"

datatype head_stop = HeadError string | HeadPanic panic

type_synonym ('x, 'h, 'c, 'u, 'v, 'g) window = "('x, 'h, 'c, 'u, 'v, 'g) proof_inputs_with_window"

type_synonym ('x, 'h, 'c, 'u, 'v, 'g, 'p, 'r) head_turn =
  "(('x, 'h, 'c, 'u, 'v, 'g) window bridge_head,
    (('x, 'h, 'c, 'u, 'v, 'g) proof_inputs, ('x, 'h, 'c, 'u, 'v, 'g) window, 'p, 'r) head_message, head_stop) turn"

text \<open>The variables checked by \<open>validate_env\<close>; a missing one ends the process.\<close>

definition required_env :: "string list" where
  "required_env = [''NORI_SOURCE_EXECUTION_HTTP_RPCS'', ''NORI_SOURCE_CONSENSUS_HTTP_RPCS'',
     ''NORI_PROOF_QUEUE_ADDRESS'', ''NORI_SOURCE_CHAIN_ID'']"

definition validate_env :: "string list \<Rightarrow> env \<Rightarrow> string + unit" where
  "validate_env env_vars env =
     for_each_res (\<lambda>name. if env name = None then Inl (''Critical boot error: Missing '' @ name @ '' environment variable'') else Inr ()) env_vars"

definition bridge_head_new :: "env \<Rightarrow> string + 'w bridge_head" where
  "bridge_head_new env =
     bind_res (validate_env required_env env) (\<lambda>_.
     Inr \<lparr>bh_current_slot = 0, bh_next_slot = 0, bh_job_id = 0, bh_prover_jobs = [], bh_stage_input_tx = False,
          bh_store_hash = 0, bh_queue_cursor = 0\<rparr>)"

section \<open>Dispatchers\<close>

definition trigger_listener_with_proof ::
    "'r head_env \<Rightarrow> ('p, 'r) proof_message \<Rightarrow> ('x, 'h, 'c, 'u, 'v, 'g) window bridge_head
      \<Rightarrow> ('x, 'h, 'c, 'u, 'v, 'g, 'p, 'r) head_turn" where
  "trigger_listener_with_proof he payload st =
     send_on (he_observer_alive he) (EmitEvent (ProofEvent payload)) (HeadError ''observer receiver dropped'') st"

definition trigger_listener_with_notice ::
    "'r head_env \<Rightarrow> (('x, 'h, 'c, 'u, 'v, 'g) window, 'r) notice_extension \<Rightarrow> ('x, 'h, 'c, 'u, 'v, 'g) window bridge_head
      \<Rightarrow> ('x, 'h, 'c, 'u, 'v, 'g, 'p, 'r) head_turn" where
  "trigger_listener_with_notice he ext st =
     send_on (he_observer_alive he) (EmitEvent (NoticeEvent (into_message ext (he_datetime_iso he))))
       (HeadError ''observer receiver dropped'') st"

section \<open>Jobs\<close>

definition batch_end :: "('x, 'h, 'c, 'u, 'v, 'g) window \<Rightarrow> u64" where
  "batch_end w = qs_input_cursor (pi_queue_storage (wi_proof_inputs w)) +
     of_nat (length (qs_entries (pi_queue_storage (wi_proof_inputs w))))"

definition stage_transition_proof ::
    "'r head_env \<Rightarrow> ('x, 'h, 'c, 'u, 'v, 'g) window \<Rightarrow> ('x, 'h, 'c, 'u, 'v, 'g) window bridge_head
      \<Rightarrow> ('x, 'h, 'c, 'u, 'v, 'g, 'p, 'r) head_turn" where
  "stage_transition_proof he w st =
     (let st = st\<lparr>bh_job_id := bh_job_id st + 1\<rparr>;
          job_id = bh_job_id st;
          st = st\<lparr>bh_prover_jobs := AList.update job_id
                 \<lparr>bj_inputs_with_window = w, bj_start_instant = he_instant he\<rparr> (bh_prover_jobs st)\<rparr>;
          expected_output_queue_cursor = batch_end w in
      and_then (perform (SpawnJob job_id (bh_current_slot st) (wi_proof_inputs w)) st) (\<lambda>st.
      and_then
        (if bh_stage_input_tx st
         then send_on (he_detector_alive he)
                (ToDetectorStage \<lparr>fu_slot = wi_expected_output_slot w,
                   fu_store_hash = wi_expected_output_store_hash w,
                   fu_queue_cursor = expected_output_queue_cursor\<rparr>)
                (HeadError ''detector dropped the stage receiver'') st
         else leave (HeadPanic (UnwrapFailed ''finality_stage_input_tx'')) st) (\<lambda>st.
      trigger_listener_with_notice he (ExtJobCreated
        \<lparr>ec_job_id = job_id, ec_input_slot = bh_current_slot st, ec_input_block_number = wi_input_block_number w,
         ec_input_store_hash = bh_store_hash st, ec_input_queue_cursor = bh_queue_cursor st,
         ec_expected_output_slot = bh_next_slot st,
         ec_expected_output_block_number = wi_expected_output_block_number w,
         ec_expected_output_queue_cursor = expected_output_queue_cursor\<rparr>) st)))"

text \<open>The value published for an entry: the first matching slot of the first matching target, or zero.\<close>

definition published_value :: "target_storage_proof list \<Rightarrow> queue_entry_proof \<Rightarrow> u256" where
  "published_value targets entry =
     (case find (\<lambda>target. tp_target_address target = qe_target entry) targets of
        None \<Rightarrow> 0
      | Some target \<Rightarrow>
          (case find (\<lambda>slot. ts_key slot = qe_slot_key entry) (tp_slots target) of
             None \<Rightarrow> 0
           | Some slot \<Rightarrow> ts_value slot))"

definition verified_requests :: "queue_storage \<Rightarrow> verified_request list" where
  "verified_requests q = map (\<lambda>entry.
     \<lparr>vr_target = qe_target entry, vr_collection_keys_count = qe_collection_keys_count entry,
      vr_collection_keys = qe_collection_keys entry, vr_value = published_value (qs_targets q) entry\<rparr>) (qs_entries q)"

definition handle_prover_success ::
    "('p \<Rightarrow> bytes) \<Rightarrow> 'r head_env \<Rightarrow> u64 \<Rightarrow> 'p \<Rightarrow> ('x, 'h, 'c, 'u, 'v, 'g) window bridge_head
      \<Rightarrow> ('x, 'h, 'c, 'u, 'v, 'g, 'p, 'r) head_turn" where
  "handle_prover_success public_values he job_id proof st =
     (case map_of (bh_prover_jobs st) job_id of
        None \<Rightarrow> leave (HeadPanic (UnwrapFailed ''prover_jobs.get'')) st
      | Some job \<Rightarrow>
          (let w = bj_inputs_with_window job;
               elapsed_sec = he_as_secs_f64 he (he_instant he - bj_start_instant job);
               st = st\<lparr>bh_prover_jobs := AList.delete job_id (bh_prover_jobs st)\<rparr> in
           case proof_outputs_from_bytes (public_values proof) of
             Inl _ \<Rightarrow> leave (HeadError ''public values do not decode'') st
           | Inr out \<Rightarrow>
               (let requests = verified_requests (pi_queue_storage (wi_proof_inputs w)) in
                and_then
                  (trigger_listener_with_notice he (ExtJobSucceeded
                     \<lparr>ej_job_id = job_id, ej_input_slot = po_input_slot out,
                      ej_input_block_number = wi_input_block_number w,
                      ej_input_store_hash = po_input_store_hash out,
                      ej_input_queue_cursor = po_input_queue_cursor out, ej_output_slot = po_output_slot out,
                      ej_output_block_number = po_output_block_number out,
                      ej_output_store_hash = po_output_store_hash out,
                      ej_output_queue_cursor = po_output_queue_cursor out,
                      ej_execution_state_root = po_execution_state_root out,
                      ej_verified_requests_root = po_verified_requests_root out,
                      ej_next_sync_committee_hash = po_next_sync_committee_hash out,
                      ej_proof_request_queue_address = po_proof_request_queue_address out,
                      ej_verified_requests = requests, ej_elapsed_sec = elapsed_sec\<rparr>) st) (\<lambda>st.
                trigger_listener_with_proof he
                  \<lparr>pm_input_slot = po_input_slot out, pm_input_block_number = wi_input_block_number w,
                   pm_input_store_hash = po_input_store_hash out,
                   pm_input_queue_cursor = po_input_queue_cursor out, pm_output_slot = po_output_slot out,
                   pm_output_block_number = po_output_block_number out,
                   pm_output_store_hash = po_output_store_hash out,
                   pm_output_queue_cursor = po_output_queue_cursor out, pm_proof = proof,
                   pm_execution_state_root = po_execution_state_root out,
                   pm_verified_requests_root = po_verified_requests_root out,
                   pm_next_sync_committee_hash = po_next_sync_committee_hash out,
                   pm_proof_request_queue_address = po_proof_request_queue_address out,
                   pm_verified_requests = requests, pm_elapsed_sec = elapsed_sec\<rparr> st))))"

text \<open>The text of a failed job; the text of the error it carries is part of the record.\<close>

definition show_prover_job_error :: "prover_job_error \<Rightarrow> string" where
  "show_prover_job_error e = ''Prover job '' @ show_word (pe_job_id e) @ '' failed: '' @ pe_error e"

definition job_failed_text :: "prover_job_error \<Rightarrow> string" where
  "job_failed_text err = ''Job '' @ [CHR 0x27] @ show_word (pe_job_id err) @ [CHR 0x27] @ '' failed with error: '' @
     show_prover_job_error err"

definition handle_prover_failure ::
    "'r head_env \<Rightarrow> prover_job_error \<Rightarrow> ('x, 'h, 'c, 'u, 'v, 'g) window bridge_head
      \<Rightarrow> ('x, 'h, 'c, 'u, 'v, 'g, 'p, 'r) head_turn" where
  "handle_prover_failure he err st =
     (case map_of (bh_prover_jobs st) (pe_job_id err) of
        None \<Rightarrow> leave (HeadPanic (UnwrapFailed ''prover_jobs.get'')) st
      | Some job \<Rightarrow>
          (let w = bj_inputs_with_window job;
               elapsed_sec = he_as_secs_f64 he (he_instant he - bj_start_instant job);
               st = st\<lparr>bh_prover_jobs := AList.delete (pe_job_id err) (bh_prover_jobs st)\<rparr>;
               n_jobs = length (bh_prover_jobs st) in
           trigger_listener_with_notice he (ExtJobFailed
             \<lparr>ef_job_id = pe_job_id err, ef_input_slot = wi_input_slot w,
              ef_input_block_number = wi_input_block_number w,
              ef_input_store_hash = pi_store_hash (wi_proof_inputs w),
              ef_input_queue_cursor = qs_input_cursor (pi_queue_storage (wi_proof_inputs w)),
              ef_expected_output_slot = wi_expected_output_slot w,
              ef_expected_output_block_number = wi_expected_output_block_number w,
              ef_expected_output_queue_cursor = wi_expected_output_queue_cursor w,
              ef_error = job_failed_text err, ef_elapsed_sec = elapsed_sec,
              ef_n_job_in_buffer = of_nat n_jobs\<rparr>) st))"

section \<open>Commands and finality\<close>

definition head_advance ::
    "'r head_env \<Rightarrow> u64 \<Rightarrow> b256 \<Rightarrow> u64 \<Rightarrow> ('x, 'h, 'c, 'u, 'v, 'g) window bridge_head
      \<Rightarrow> ('x, 'h, 'c, 'u, 'v, 'g, 'p, 'r) head_turn" where
  "head_advance he slot store_hash queue_cursor st =
     (let st = st\<lparr>bh_current_slot := slot, bh_store_hash := store_hash, bh_queue_cursor := queue_cursor\<rparr> in
      trigger_listener_with_notice he (ExtHeadAdvanced
        \<lparr>ea_slot = slot, ea_store_hash = store_hash, ea_queue_cursor = queue_cursor\<rparr>) st)"

definition on_beacon_finality_change ::
    "'r head_env \<Rightarrow> ('x, 'h, 'c, 'u, 'v, 'g) dual_inputs \<Rightarrow> ('x, 'h, 'c, 'u, 'v, 'g) window bridge_head
      \<Rightarrow> ('x, 'h, 'c, 'u, 'v, 'g, 'p, 'r) head_turn" where
  "on_beacon_finality_change he event st =
     and_then
       (trigger_listener_with_notice he (ExtFinalityTransitionDetected
          \<lparr>et_block_number = wi_expected_output_block_number (current_window event),
           et_slot = wi_expected_output_slot (current_window event),
           et_input_slot = wi_input_slot (current_window event),
           et_current_window_proof_inputs_with_window = current_window event,
           et_next_window_proof_inputs_with_window = next_window event\<rparr>) st) (\<lambda>st.
     stay (st\<lparr>bh_next_slot := wi_expected_output_slot (current_window event)\<rparr>))"

section \<open>The event loop\<close>

datatype ('x, 'h, 'c, 'u, 'v, 'g, 'p) head_event =
    FinalityInput "('x, 'h, 'c, 'u, 'v, 'g) dual_inputs option"
  | CommandInput "('x, 'h, 'c, 'u, 'v, 'g) window command option"
  | JobResult "(prover_job_error + 'p prover_job_output) option"

definition head_step ::
    "('p \<Rightarrow> bytes) \<Rightarrow> 'r head_env \<Rightarrow> ('x, 'h, 'c, 'u, 'v, 'g) window bridge_head
      \<Rightarrow> ('x, 'h, 'c, 'u, 'v, 'g, 'p) head_event \<Rightarrow> ('x, 'h, 'c, 'u, 'v, 'g, 'p, 'r) head_turn" where
  "head_step public_values he st ev = (case ev of
     FinalityInput (Some event) \<Rightarrow> on_beacon_finality_change he event st
   | FinalityInput None \<Rightarrow> leave (HeadError ''detector dropped the output channel'') st
   | CommandInput (Some (StageTransitionProof w)) \<Rightarrow> stage_transition_proof he w st
   | CommandInput (Some (Advance m)) \<Rightarrow>
       and_then
         (send_on (he_detector_alive he)
            (ToDetectorAdvance \<lparr>fu_slot = am_slot m, fu_store_hash = am_store_hash m, fu_queue_cursor = am_queue_cursor m\<rparr>)
            (HeadError ''detector dropped the advance receiver'') st) (\<lambda>st.
       head_advance he (am_slot m) (am_store_hash m) (am_queue_cursor m) st)
   | CommandInput None \<Rightarrow> leave (HeadError ''command channel closed'') st
   | JobResult (Some (Inr output)) \<Rightarrow>
       handle_prover_success public_values he (pj_job_id output) (pj_proof output) st
   | JobResult (Some (Inl err)) \<Rightarrow> handle_prover_failure he err st
   | JobResult None \<Rightarrow> leave (HeadError ''job result channel closed'') st)"

text \<open>What \<open>run\<close> does before its loop, once the detector has started with latest finality slot \<open>latest\<close>; here a closed
  channel is an \<open>expect\<close>.\<close>

definition expect_turn :: "string \<Rightarrow> ('s, 'o, head_stop) turn \<Rightarrow> ('s, 'o, head_stop) turn" where
  "expect_turn msg t = (case t of
     (s, outs, None) \<Rightarrow> (s, outs, None)
   | (s, outs, Some _) \<Rightarrow> (s, outs, Some (HeadPanic (UnwrapFailed msg))))"

definition head_start ::
    "'r head_env \<Rightarrow> u64 \<Rightarrow> b256 \<Rightarrow> u64 \<Rightarrow> u64 \<Rightarrow> ('x, 'h, 'c, 'u, 'v, 'g) window bridge_head
      \<Rightarrow> ('x, 'h, 'c, 'u, 'v, 'g, 'p, 'r) head_turn" where
  "head_start he current_slot store_hash queue_cursor latest st =
     (let st = st\<lparr>bh_current_slot := current_slot, bh_store_hash := store_hash, bh_queue_cursor := queue_cursor,
                  bh_stage_input_tx := True, bh_next_slot := latest\<rparr> in
      expect_turn ''Failed to send Started event - observer receiver dropped''
        (trigger_listener_with_notice he (ExtStarted
           \<lparr>es_latest_beacon_slot = latest, es_current_slot = bh_current_slot st, es_store_hash = bh_store_hash st,
            es_queue_cursor = bh_queue_cursor st\<rparr>) st))"

section \<open>The system of bridge head and prover workers\<close>

text \<open>What the spawned task sends back: a worker that panics sends nothing.\<close>

fun worker_outcome :: "u64 \<Rightarrow> string fault + 'p prover_job_output \<Rightarrow> (prover_job_error + 'p prover_job_output) option" where
  "worker_outcome job_id (Inr output) = Some (Inr output)"
| "worker_outcome job_id (Inl (Failed e)) = Some (Inl \<lparr>pe_job_id = job_id, pe_error = e\<rparr>)"
| "worker_outcome job_id (Inl (Panicked p)) = None"

text \<open>
  The spawned jobs whose result the loop has not read, the number of jobs staged so far, the windows staged and
  the events emitted. Which proof a worker may return for given inputs is the argument \<open>proves\<close>.
\<close>

record ('x, 'h, 'c, 'u, 'v, 'g, 'p, 'r) head_system =
  hs_head :: "('x, 'h, 'c, 'u, 'v, 'g) window bridge_head"
  hs_running :: "(u64 \<times> ('x, 'h, 'c, 'u, 'v, 'g) proof_inputs) list"
  hs_staged :: "('x, 'h, 'c, 'u, 'v, 'g) window list"
  hs_events :: "(('x, 'h, 'c, 'u, 'v, 'g) window, 'p, 'r) bridge_head_event list"

definition head_deliver ::
    "(('x, 'h, 'c, 'u, 'v, 'g) proof_inputs, ('x, 'h, 'c, 'u, 'v, 'g) window, 'p, 'r) head_message
      \<Rightarrow> ('x, 'h, 'c, 'u, 'v, 'g, 'p, 'r) head_system \<Rightarrow> ('x, 'h, 'c, 'u, 'v, 'g, 'p, 'r) head_system" where
  "head_deliver m s = (case m of
     SpawnJob job_id _ inputs \<Rightarrow> s\<lparr>hs_running := hs_running s @ [(job_id, inputs)]\<rparr>
   | EmitEvent ev \<Rightarrow> s\<lparr>hs_events := hs_events s @ [ev]\<rparr>
   | _ \<Rightarrow> s)"

definition result_job_id :: "prover_job_error + 'p prover_job_output \<Rightarrow> u64" where
  "result_job_id r = (case r of Inl err \<Rightarrow> pe_job_id err | Inr output \<Rightarrow> pj_job_id output)"

inductive head_reach ::
    "('p \<Rightarrow> bytes) \<Rightarrow> (('x, 'h, 'c, 'u, 'v, 'g) proof_inputs \<Rightarrow> 'p \<Rightarrow> bool) \<Rightarrow> (('x, 'h, 'c, 'u, 'v, 'g) window \<Rightarrow> bool)
      \<Rightarrow> ('x, 'h, 'c, 'u, 'v, 'g, 'p, 'r) head_system \<Rightarrow> bool"
  for public_values :: "'p \<Rightarrow> bytes" and proves :: "('x, 'h, 'c, 'u, 'v, 'g) proof_inputs \<Rightarrow> 'p \<Rightarrow> bool"
    and stageable :: "('x, 'h, 'c, 'u, 'v, 'g) window \<Rightarrow> bool" where
  boot: "bridge_head_new env = Inr st0 \<Longrightarrow> head_start he slot h c latest st0 = (st, outs, None) \<Longrightarrow>
    head_reach public_values proves stageable
      (fold head_deliver outs \<lparr>hs_head = st, hs_running = [], hs_staged = [], hs_events = []\<rparr>)"
| finality: "head_reach public_values proves stageable s \<Longrightarrow>
    head_step public_values he (hs_head s) (FinalityInput (Some dual)) = (st, outs, None) \<Longrightarrow>
    head_reach public_values proves stageable (fold head_deliver outs (s\<lparr>hs_head := st\<rparr>))"
| advance: "head_reach public_values proves stageable s \<Longrightarrow>
    head_step public_values he (hs_head s) (CommandInput (Some (Advance m))) = (st, outs, None) \<Longrightarrow>
    head_reach public_values proves stageable (fold head_deliver outs (s\<lparr>hs_head := st\<rparr>))"
| stage: "head_reach public_values proves stageable s \<Longrightarrow> stageable w \<Longrightarrow>
    head_step public_values he (hs_head s) (CommandInput (Some (StageTransitionProof w))) = (st, outs, None) \<Longrightarrow>
    head_reach public_values proves stageable
      (fold head_deliver outs (s\<lparr>hs_head := st, hs_staged := hs_staged s @ [w]\<rparr>))"
| job_result: "head_reach public_values proves stageable s \<Longrightarrow> (result_job_id r, inputs) \<in> set (hs_running s) \<Longrightarrow>
    (\<And>output. r = Inr output \<Longrightarrow> proves inputs (pj_proof output)) \<Longrightarrow>
    head_step public_values he (hs_head s) (JobResult (Some r)) = (st, outs, None) \<Longrightarrow>
    head_reach public_values proves stageable
      (fold head_deliver outs (s\<lparr>hs_head := st, hs_running := filter (\<lambda>(k, _). k \<noteq> result_job_id r) (hs_running s)\<rparr>))"

section \<open>Invariant\<close>

text \<open>The message published for a window from the decoded outputs of its proof.\<close>

definition message_for :: "proof_outputs \<Rightarrow> ('x, 'h, 'c, 'u, 'v, 'g) window \<Rightarrow> ('p, 'r) proof_message \<Rightarrow> bool" where
  "message_for out w pm \<longleftrightarrow>
     pm_input_slot pm = po_input_slot out \<and> pm_input_block_number pm = wi_input_block_number w \<and>
     pm_input_store_hash pm = po_input_store_hash out \<and> pm_input_queue_cursor pm = po_input_queue_cursor out \<and>
     pm_output_slot pm = po_output_slot out \<and> pm_output_block_number pm = po_output_block_number out \<and>
     pm_output_store_hash pm = po_output_store_hash out \<and> pm_output_queue_cursor pm = po_output_queue_cursor out \<and>
     pm_execution_state_root pm = po_execution_state_root out \<and>
     pm_verified_requests_root pm = po_verified_requests_root out \<and>
     pm_next_sync_committee_hash pm = po_next_sync_committee_hash out \<and>
     pm_proof_request_queue_address pm = po_proof_request_queue_address out \<and>
     pm_verified_requests pm = verified_requests (pi_queue_storage (wi_proof_inputs w))"

definition proof_of_window ::
    "('p \<Rightarrow> bytes) \<Rightarrow> (('x, 'h, 'c, 'u, 'v, 'g) proof_inputs \<Rightarrow> 'p \<Rightarrow> bool) \<Rightarrow> ('x, 'h, 'c, 'u, 'v, 'g) window list
      \<Rightarrow> ('p, 'r) proof_message \<Rightarrow> bool" where
  "proof_of_window public_values proves ws pm \<longleftrightarrow>
     (\<exists>w \<in> set ws. \<exists>out. proves (wi_proof_inputs w) (pm_proof pm) \<and>
        proof_outputs_from_bytes (public_values (pm_proof pm)) = Inr out \<and> message_for out w pm)"

definition running_of :: "(u64 \<times> ('x, 'h, 'c, 'u, 'v, 'g) window prover_job) list \<Rightarrow> (u64 \<times> ('x, 'h, 'c, 'u, 'v, 'g) proof_inputs) list" where
  "running_of jobs = map (\<lambda>(k, job). (k, wi_proof_inputs (bj_inputs_with_window job))) jobs"

definition jobs_ok :: "('x, 'h, 'c, 'u, 'v, 'g, 'p, 'r) head_system \<Rightarrow> bool" where
  "jobs_ok s \<longleftrightarrow>
     bh_job_id (hs_head s) = of_nat (length (hs_staged s)) \<and>
     distinct (map fst (bh_prover_jobs (hs_head s))) \<and>
     (\<forall>(k, job) \<in> set (bh_prover_jobs (hs_head s)).
        unat k \<le> length (hs_staged s) \<and> bj_inputs_with_window job \<in> set (hs_staged s)) \<and>
     hs_running s = running_of (bh_prover_jobs (hs_head s))"

definition head_inv ::
    "('p \<Rightarrow> bytes) \<Rightarrow> (('x, 'h, 'c, 'u, 'v, 'g) proof_inputs \<Rightarrow> 'p \<Rightarrow> bool) \<Rightarrow> (('x, 'h, 'c, 'u, 'v, 'g) window \<Rightarrow> bool)
      \<Rightarrow> ('x, 'h, 'c, 'u, 'v, 'g, 'p, 'r) head_system \<Rightarrow> bool" where
  "head_inv public_values proves stageable s \<longleftrightarrow>
     bh_stage_input_tx (hs_head s) \<and> list_all stageable (hs_staged s) \<and>
     (length (hs_staged s) < 2 ^ 64 \<longrightarrow> jobs_ok s \<and>
       (\<forall>pm. ProofEvent pm \<in> set (hs_events s) \<longrightarrow> proof_of_window public_values proves (hs_staged s) pm))"

section \<open>Turns that succeed\<close>

lemma notice_turn:
  "trigger_listener_with_notice he ext st = (st', outs, None) \<longleftrightarrow>
     he_observer_alive he \<and> st' = st \<and> outs = [EmitEvent (NoticeEvent (into_message ext (he_datetime_iso he)))]"
  by (auto simp: trigger_listener_with_notice_def send_on_def)

lemma proof_turn:
  "trigger_listener_with_proof he pm st = (st', outs, None) \<longleftrightarrow>
     he_observer_alive he \<and> st' = st \<and> outs = [EmitEvent (ProofEvent pm)]"
  by (auto simp: trigger_listener_with_proof_def send_on_def)

lemma send_turn: "send_on alive m e st = (st', outs, None) \<longleftrightarrow> alive \<and> st' = st \<and> outs = [m]"
  by (auto simp: send_on_def)

lemma perform_turn: "perform m st = (st', outs, r) \<longleftrightarrow> st' = st \<and> outs = [m] \<and> r = None"
  by (auto simp: perform_def)

lemma leave_turn: "leave e st = (st', outs, r) \<longleftrightarrow> st' = st \<and> outs = [] \<and> r = Some e"
  by (auto simp: leave_def)

lemma choice_turn:
  "(if b then t else t') = (st, outs, r) \<longleftrightarrow> (b \<and> t = (st, outs, r)) \<or> (\<not> b \<and> t' = (st, outs, r))"
  by simp

lemma expect_turn_ok: "expect_turn msg t = (st', outs, None) \<longleftrightarrow> t = (st', outs, None)"
  by (cases t rule: prod_cases3; cases "snd (snd t)") (simp_all add: expect_turn_def)

lemmas turn_ok = expect_turn_ok notice_turn proof_turn send_turn perform_turn leave_turn choice_turn and_then_eq

lemma head_deliver_simps [simp]:
  "head_deliver (SpawnJob k slot i) s = s\<lparr>hs_running := hs_running s @ [(k, i)]\<rparr>"
  "head_deliver (EmitEvent ev) s = s\<lparr>hs_events := hs_events s @ [ev]\<rparr>"
  "head_deliver (ToDetectorStage u) s = s"
  "head_deliver (ToDetectorAdvance u) s = s"
  by (simp_all add: head_deliver_def)

lemma finality_turn:
  assumes "on_beacon_finality_change he dual st = (st', outs, None)"
  shows "\<exists>n. st' = st\<lparr>bh_next_slot := wi_expected_output_slot (current_window dual)\<rparr> \<and> outs = [EmitEvent (NoticeEvent n)]"
  using assms by (auto simp: on_beacon_finality_change_def turn_ok stay_def)

lemma stage_turn:
  assumes "stage_transition_proof he w st = (st', outs, None)"
  shows "\<exists>n u. st' = st\<lparr>bh_job_id := bh_job_id st + 1, bh_prover_jobs := AList.update (bh_job_id st + 1)
       \<lparr>bj_inputs_with_window = w, bj_start_instant = he_instant he\<rparr> (bh_prover_jobs st)\<rparr> \<and>
     outs = [SpawnJob (bh_job_id st + 1) (bh_current_slot st) (wi_proof_inputs w), ToDetectorStage u, EmitEvent (NoticeEvent n)]"
  using assms
  unfolding stage_transition_proof_def Let_def turn_ok by auto

lemma success_turn:
  assumes "handle_prover_success pv he k proof st = (st', outs, None)"
  shows "\<exists>job out n pm. map_of (bh_prover_jobs st) k = Some job \<and>
     proof_outputs_from_bytes (pv proof) = Inr out \<and>
     st' = st\<lparr>bh_prover_jobs := AList.delete k (bh_prover_jobs st)\<rparr> \<and>
     outs = [EmitEvent (NoticeEvent n), EmitEvent (ProofEvent pm)] \<and>
     pm_proof pm = proof \<and> message_for out (bj_inputs_with_window job) pm"
  using assms
  by (auto simp: handle_prover_success_def Let_def turn_ok message_for_def split: option.splits sum.splits)

lemma failure_turn:
  assumes "handle_prover_failure he err st = (st', outs, None)"
  shows "\<exists>n. st' = st\<lparr>bh_prover_jobs := AList.delete (pe_job_id err) (bh_prover_jobs st)\<rparr> \<and>
     outs = [EmitEvent (NoticeEvent n)]"
  using assms by (auto simp: handle_prover_failure_def Let_def turn_ok split: option.splits)

text \<open>Whatever events arrive, the loop keeps its channel to the detector, and a proof it publishes comes with the outputs
  decoded from that proof.\<close>

definition decoded_message :: "('p \<Rightarrow> bytes) \<Rightarrow> ('i, 'w, 'p, 'r) head_message \<Rightarrow> bool" where
  "decoded_message pv m = (case m of
     EmitEvent (ProofEvent pm) \<Rightarrow>
       \<exists>out. proof_outputs_from_bytes (pv (pm_proof pm)) = Inr out \<and>
         pm_input_store_hash pm = po_input_store_hash out \<and> pm_output_slot pm = po_output_slot out \<and>
         pm_output_store_hash pm = po_output_store_hash out \<and> pm_output_queue_cursor pm = po_output_queue_cursor out \<and>
         pm_verified_requests_root pm = po_verified_requests_root out
   | _ \<Rightarrow> True)"

lemma head_handlers_decoded:
  "on_beacon_finality_change he dual st = (st', outs, r) \<Longrightarrow>
     bh_stage_input_tx st' = bh_stage_input_tx st \<and> list_all (decoded_message pv) outs"
  "stage_transition_proof he w st = (st', outs, r) \<Longrightarrow>
     bh_stage_input_tx st' = bh_stage_input_tx st \<and> list_all (decoded_message pv) outs"
  "handle_prover_success pv he k proof st = (st', outs, r) \<Longrightarrow>
     bh_stage_input_tx st' = bh_stage_input_tx st \<and> list_all (decoded_message pv) outs"
  "handle_prover_failure he err st = (st', outs, r) \<Longrightarrow>
     bh_stage_input_tx st' = bh_stage_input_tx st \<and> list_all (decoded_message pv) outs"
  "head_advance he slot h c st = (st', outs, r) \<Longrightarrow>
     bh_stage_input_tx st' = bh_stage_input_tx st \<and> list_all (decoded_message pv) outs"
  by (auto simp: on_beacon_finality_change_def stage_transition_proof_def handle_prover_success_def handle_prover_failure_def
      head_advance_def trigger_listener_with_notice_def trigger_listener_with_proof_def perform_def send_on_def stay_def
      leave_def Let_def decoded_message_def split: option.splits sum.splits if_splits)

interpretation hd_loop: event_loop "head_step pv he" bh_stage_input_tx "\<lambda>_. True" "decoded_message pv" for pv he
proof
  fix st st' ev outs r
  assume inv: "bh_stage_input_tx st" and step: "head_step pv he st ev = (st', outs, r)"
  from step inv have both: "bh_stage_input_tx st' \<and> list_all (decoded_message pv) outs"
    by (auto simp: head_step_def leave_def send_on_def decoded_message_def
        split: head_event.splits option.splits command.splits sum.splits if_splits prod.splits
        dest!: head_handlers_decoded[where pv = pv])
  then show "bh_stage_input_tx st'" ..
  fix m assume "m \<in> set outs"
  with both show "decoded_message pv m" by (simp add: list_all_iff)
qed

lemma head_publishes_decoded:
  assumes "run_loop (head_step pv he) st evs = (st', outs, r)" and "bh_stage_input_tx st"
  shows "bh_stage_input_tx st' \<and> list_all (decoded_message pv) outs"
  by (rule hd_loop.run_keeps[OF assms(2) _ assms(1)]) (simp add: list_all_iff)

section \<open>The job table\<close>

lemma update_fresh: "k \<notin> fst ` set xs \<Longrightarrow> AList.update k v xs = xs @ [(k, v)]"
  by (induction xs) auto

lemma running_of_delete:
  "filter (\<lambda>(k', _). k' \<noteq> k) (running_of jobs) = running_of (AList.delete k jobs)"
  by (induction jobs) (auto simp: running_of_def AList.delete_eq)

lemma length_delete_distinct:
  "distinct (map fst jobs) \<Longrightarrow> (k, v) \<in> set jobs \<Longrightarrow> length (AList.delete k jobs) = length jobs - 1"
proof (induction jobs)
  case (Cons kv jobs)
  have "k \<notin> fst ` set jobs \<Longrightarrow> AList.delete k jobs = jobs" by (simp add: AList.delete_idem)
  moreover have "length jobs \<noteq> 0" if "(k, v) \<in> set jobs" using that by auto
  ultimately show ?case using Cons by (cases kv) (auto simp: image_iff)
qed simp

lemma running_of_lookup:
  assumes "distinct (map fst jobs)" and "(k, inputs) \<in> set (running_of jobs)"
  shows "\<exists>job. map_of jobs k = Some job \<and> (k, job) \<in> set jobs \<and> wi_proof_inputs (bj_inputs_with_window job) = inputs"
proof -
  from assms(2) obtain job where "(k, job) \<in> set jobs" "wi_proof_inputs (bj_inputs_with_window job) = inputs"
    by (auto simp: running_of_def)
  with assms(1) show ?thesis by (auto simp: map_of_is_SomeI)
qed

lemma jobs_ok_stage:
  assumes ok: "jobs_ok s" and n: "Suc (length (hs_staged s)) < 2 ^ 64"
    and head: "bh_job_id st = bh_job_id (hs_head s) + 1"
      "bh_prover_jobs st = AList.update (bh_job_id (hs_head s) + 1) \<lparr>bj_inputs_with_window = w, bj_start_instant = t\<rparr>
         (bh_prover_jobs (hs_head s))"
  shows "jobs_ok (s\<lparr>hs_head := st, hs_staged := hs_staged s @ [w],
    hs_running := hs_running s @ [(bh_job_id (hs_head s) + 1, wi_proof_inputs w)], hs_events := evs\<rparr>)"
proof -
  let ?k = "bh_job_id (hs_head s) + 1 :: u64"
  let ?jobs = "bh_prover_jobs (hs_head s)"
  have k: "?k = of_nat (Suc (length (hs_staged s)))" using ok by (simp add: jobs_ok_def)
  have uk: "unat ?k = Suc (length (hs_staged s))"
    unfolding k using n by (simp add: unat_of_nat del: of_nat_Suc)
  have fresh: "?k \<notin> fst ` set ?jobs"
  proof
    assume "?k \<in> fst ` set ?jobs"
    with ok have "unat ?k \<le> length (hs_staged s)" by (auto simp: jobs_ok_def)
    with uk show False by simp
  qed
  have jobs: "bh_prover_jobs st = ?jobs @ [(?k, \<lparr>bj_inputs_with_window = w, bj_start_instant = t\<rparr>)]"
    using head(2) update_fresh[OF fresh] by simp
  have bound: "unat k' \<le> Suc (length (hs_staged s)) \<and> bj_inputs_with_window job \<in> set (hs_staged s)"
    if "(k', job) \<in> set ?jobs" for k' job using ok that by (fastforce simp: jobs_ok_def)
  show ?thesis
    using ok fresh k uk bound unfolding jobs_ok_def
    by (auto simp: jobs head(1) running_of_def)
qed

lemma jobs_ok_done:
  assumes ok: "jobs_ok s" and head: "st = hs_head s\<lparr>bh_prover_jobs := AList.delete k (bh_prover_jobs (hs_head s))\<rparr>"
  shows "jobs_ok (s\<lparr>hs_head := st, hs_running := filter (\<lambda>(k', _). k' \<noteq> k) (hs_running s), hs_events := evs\<rparr>)"
  using ok unfolding jobs_ok_def head
  by (auto simp: running_of_delete AList.distinct_delete) (auto simp: AList.delete_eq)

lemma jobs_ok_frame:
  "jobs_ok s \<Longrightarrow> bh_job_id st = bh_job_id (hs_head s) \<Longrightarrow> bh_prover_jobs st = bh_prover_jobs (hs_head s) \<Longrightarrow>
   jobs_ok (s\<lparr>hs_head := st, hs_events := evs\<rparr>)"
  by (simp add: jobs_ok_def)


section \<open>Every reachable state is well formed\<close>

lemma advance_turn:
  assumes "head_step pv he st (CommandInput (Some (Advance m))) = (st', outs, None)"
  shows "\<exists>n u. st' = st\<lparr>bh_current_slot := am_slot m, bh_store_hash := am_store_hash m, bh_queue_cursor := am_queue_cursor m\<rparr> \<and>
     outs = [ToDetectorAdvance u, EmitEvent (NoticeEvent n)]"
  using assms unfolding head_step_def head_advance_def Let_def by (simp add: turn_ok)

lemma start_turn:
  assumes "head_start he slot h c latest st = (st', outs, None)"
  shows "\<exists>n. st' = st\<lparr>bh_current_slot := slot, bh_store_hash := h, bh_queue_cursor := c, bh_stage_input_tx := True,
       bh_next_slot := latest\<rparr> \<and> outs = [EmitEvent (NoticeEvent n)]"
  using assms unfolding head_start_def Let_def by (auto simp: turn_ok)

lemma bridge_head_new_ok:
  assumes "bridge_head_new env = Inr st"
  shows "bh_job_id st = 0" "bh_prover_jobs st = []"
  using assms by (auto simp: bridge_head_new_def bind_res_def split: sum.splits)

lemma head_inv_boot:
  assumes "bridge_head_new env = Inr st0" and "head_start he slot h c latest st0 = (st, outs, None)"
  shows "head_inv pv proves stageable
    (fold head_deliver outs \<lparr>hs_head = st, hs_running = [], hs_staged = [], hs_events = []\<rparr>)"
  using start_turn[OF assms(2)] bridge_head_new_ok[OF assms(1)]
  by (auto simp: head_inv_def jobs_ok_def running_of_def)

lemma head_inv_notice:
  assumes inv: "head_inv pv proves stageable s"
    and st: "bh_stage_input_tx st = bh_stage_input_tx (hs_head s)" "bh_job_id st = bh_job_id (hs_head s)"
      "bh_prover_jobs st = bh_prover_jobs (hs_head s)"
  shows "head_inv pv proves stageable (s\<lparr>hs_head := st, hs_events := hs_events s @ [NoticeEvent n]\<rparr>)"
  using inv st jobs_ok_frame[OF _ st(2,3)] by (auto simp: head_inv_def)

lemma proof_of_window_more:
  "proof_of_window pv proves ws pm \<Longrightarrow> proof_of_window pv proves (ws @ [w]) pm"
  by (auto simp: proof_of_window_def)

lemma head_inv_stage:
  assumes inv: "head_inv pv proves stageable s" and w: "stageable w"
    and turn: "stage_transition_proof he w (hs_head s) = (st, outs, None)"
  shows "head_inv pv proves stageable (fold head_deliver outs (s\<lparr>hs_head := st, hs_staged := hs_staged s @ [w]\<rparr>))"
proof -
  let ?k = "bh_job_id (hs_head s) + 1"
  from stage_turn[OF turn] obtain n u where
    st: "st = hs_head s\<lparr>bh_job_id := ?k, bh_prover_jobs := AList.update ?k
       \<lparr>bj_inputs_with_window = w, bj_start_instant = he_instant he\<rparr> (bh_prover_jobs (hs_head s))\<rparr>" and
    outs: "outs = [SpawnJob ?k (bh_current_slot (hs_head s)) (wi_proof_inputs w), ToDetectorStage u, EmitEvent (NoticeEvent n)]"
    by (elim exE conjE) (rule that)
  have ok: "jobs_ok (s\<lparr>hs_head := st, hs_staged := hs_staged s @ [w],
      hs_running := hs_running s @ [(?k, wi_proof_inputs w)], hs_events := evs\<rparr>)"
    if "Suc (length (hs_staged s)) < 2 ^ 64" for evs
    using inv that by (intro jobs_ok_stage[where t = "he_instant he"]) (simp_all add: head_inv_def st)
  show ?thesis
    using inv w ok by (auto simp: head_inv_def outs st intro!: proof_of_window_more)
qed

lemma head_inv_done:
  assumes inv: "head_inv pv proves stageable s"
    and st: "st = hs_head s\<lparr>bh_prover_jobs := AList.delete k (bh_prover_jobs (hs_head s))\<rparr>"
    and evs: "\<And>pm. ProofEvent pm \<in> set evs \<Longrightarrow> length (hs_staged s) < 2 ^ 64 \<Longrightarrow>
      proof_of_window pv proves (hs_staged s) pm"
  shows "head_inv pv proves stageable
    (s\<lparr>hs_head := st, hs_running := filter (\<lambda>(k', _). k' \<noteq> k) (hs_running s), hs_events := hs_events s @ evs\<rparr>)"
  using inv jobs_ok_done[OF _ st] evs unfolding head_inv_def by (auto simp: st)

lemma head_inv_success:
  assumes inv: "head_inv pv proves stageable s" and run: "(k, inputs) \<in> set (hs_running s)"
    and proves: "proves inputs proof"
    and turn: "handle_prover_success pv he k proof (hs_head s) = (st, outs, None)"
  shows "head_inv pv proves stageable (fold head_deliver outs
    (s\<lparr>hs_head := st, hs_running := filter (\<lambda>(k', _). k' \<noteq> k) (hs_running s)\<rparr>))"
proof -
  from success_turn[OF turn] obtain job out n pm where
    job: "map_of (bh_prover_jobs (hs_head s)) k = Some job" and
    out: "proof_outputs_from_bytes (pv proof) = Inr out" and
    st: "st = hs_head s\<lparr>bh_prover_jobs := AList.delete k (bh_prover_jobs (hs_head s))\<rparr>" and
    outs: "outs = [EmitEvent (NoticeEvent n), EmitEvent (ProofEvent pm)]" and
    pm: "pm_proof pm = proof" "message_for out (bj_inputs_with_window job) pm"
    by (elim exE conjE) (rule that)
  have "proof_of_window pv proves (hs_staged s) pm" if n: "length (hs_staged s) < 2 ^ 64"
  proof -
    from inv n have ok: "jobs_ok s" by (simp add: head_inv_def)
    with run have "wi_proof_inputs (bj_inputs_with_window job) = inputs"
      using running_of_lookup[of "bh_prover_jobs (hs_head s)" k inputs] job by (auto simp: jobs_ok_def)
    moreover have "bj_inputs_with_window job \<in> set (hs_staged s)"
      using ok map_of_SomeD[OF job] by (auto simp: jobs_ok_def)
    ultimately show ?thesis using proves out pm by (auto simp: proof_of_window_def)
  qed
  then show ?thesis
    using head_inv_done[OF inv st, of "[NoticeEvent n, ProofEvent pm]"] by (simp add: outs)
qed

lemma head_inv_failure:
  assumes inv: "head_inv pv proves stageable s"
    and turn: "handle_prover_failure he err (hs_head s) = (st, outs, None)"
  shows "head_inv pv proves stageable (fold head_deliver outs
    (s\<lparr>hs_head := st, hs_running := filter (\<lambda>(k', _). k' \<noteq> pe_job_id err) (hs_running s)\<rparr>))"
  using failure_turn[OF turn] head_inv_done[OF inv, of st "pe_job_id err" "[NoticeEvent n]" for n] by auto

lemma head_reach_inv: "head_reach pv proves stageable s \<Longrightarrow> head_inv pv proves stageable s"
proof (induction rule: head_reach.induct)
  case (boot env st0 he slot h c latest st outs)
  then show ?case by (rule head_inv_boot)
next
  case (finality s he dual st outs)
  from finality.hyps(2) have "on_beacon_finality_change he dual (hs_head s) = (st, outs, None)"
    by (simp add: head_step_def)
  from finality_turn[OF this] head_inv_notice[OF finality.IH] show ?case by auto
next
  case (advance s he m st outs)
  from advance_turn[OF advance.hyps(2)] head_inv_notice[OF advance.IH] show ?case by auto
next
  case (stage s w he st outs)
  from stage.hyps(3) have "stage_transition_proof he w (hs_head s) = (st, outs, None)" by (simp add: head_step_def)
  from head_inv_stage[OF stage.IH stage.hyps(2) this] show ?case .
next
  case (job_result s r inputs he st outs)
  show ?case
  proof (cases r)
    case (Inl err)
    with job_result.hyps show ?thesis
      using head_inv_failure[OF job_result.IH, of he err] by (simp add: head_step_def result_job_id_def)
  next
    case (Inr res)
    with job_result.hyps show ?thesis
      using head_inv_success[OF job_result.IH, of "pj_job_id res" inputs "pj_proof res" he]
      by (simp add: head_step_def result_job_id_def)
  qed
qed


section \<open>Enabled events\<close>

text \<open>What the channels can deliver: anything from the detector and the commander, results of outstanding jobs only.\<close>

definition deliverable ::
    "('x, 'h, 'c, 'u, 'v, 'g, 'p, 'r) head_system \<Rightarrow> ('x, 'h, 'c, 'u, 'v, 'g, 'p) head_event \<Rightarrow> bool" where
  "deliverable s ev \<longleftrightarrow> (case ev of JobResult (Some r) \<Rightarrow> result_job_id r \<in> fst ` set (hs_running s) | _ \<Rightarrow> True)"

lemma outstanding_job:
  assumes "jobs_ok s" and "k \<in> fst ` set (hs_running s)"
  shows "\<exists>job. map_of (bh_prover_jobs (hs_head s)) k = Some job"
  using assms running_of_lookup[of "bh_prover_jobs (hs_head s)" k] by (fastforce simp: jobs_ok_def)

lemma stops_simps:
  "trigger_listener_with_notice he ext st = (st', outs, Some e) \<Longrightarrow> \<exists>msg. e = HeadError msg"
  "trigger_listener_with_proof he pm st = (st', outs, Some e) \<Longrightarrow> \<exists>msg. e = HeadError msg"
  "send_on alive m (HeadError x) st = (st', outs, Some e) \<Longrightarrow> e = HeadError x"
  by (auto simp: trigger_listener_with_notice_def trigger_listener_with_proof_def send_on_def split: if_splits)

lemma head_step_stops:
  assumes inv: "head_inv pv proves stageable s" and n: "length (hs_staged s) < 2 ^ 64"
    and ev: "deliverable s ev" and step: "head_step pv he (hs_head s) ev = (st, outs, Some e)"
  shows "\<exists>msg. e = HeadError msg"
proof -
  from inv n have tx: "bh_stage_input_tx (hs_head s)" and ok: "jobs_ok s" by (auto simp: head_inv_def)
  show ?thesis
  proof (cases ev)
    case (FinalityInput m)
    with step show ?thesis
      by (cases m) (auto simp: head_step_def on_beacon_finality_change_def and_then_eq stay_def leave_turn dest: stops_simps)
  next
    case (CommandInput m)
    with step tx show ?thesis
      by (cases m; cases "the m")
        (auto simp: head_step_def stage_transition_proof_def head_advance_def Let_def leave_turn perform_turn and_then_eq
          dest: stops_simps simp del: turn_simps)
  next
    case (JobResult m)
    show ?thesis
    proof (cases m)
      case None
      with JobResult step show ?thesis by (auto simp: head_step_def leave_turn)
    next
      case (Some r)
      with JobResult ev have "result_job_id r \<in> fst ` set (hs_running s)" by (simp add: deliverable_def)
      from outstanding_job[OF ok this] obtain job where "map_of (bh_prover_jobs (hs_head s)) (result_job_id r) = Some job" ..
      with JobResult Some step show ?thesis
        by (cases r) (auto simp: head_step_def handle_prover_failure_def handle_prover_success_def result_job_id_def
            Let_def leave_turn and_then_eq dest: stops_simps simp del: turn_simps split: sum.splits)
    qed
  qed
qed


section \<open>A run that publishes a proof\<close>

definition sample_head_env :: "nat head_env" where
  "sample_head_env = \<lparr>he_instant = 5, he_datetime_iso = ''2025-01-01'', he_as_secs_f64 = (\<lambda>d. d),
     he_detector_alive = True, he_observer_alive = True\<rparr>"

lemma sample_head_env_sel [simp]:
  "he_detector_alive sample_head_env" "he_observer_alive sample_head_env" "he_instant sample_head_env = 5"
  by (simp_all add: sample_head_env_def)

lemmas head_run_defs = head_step_def stage_transition_proof_def handle_prover_success_def handle_prover_failure_def
  trigger_listener_with_notice_def trigger_listener_with_proof_def head_start_def expect_turn_def perform_def Let_def

definition sample_head :: "u64 \<Rightarrow> b256 \<Rightarrow> u64 \<Rightarrow> 'w bridge_head" where
  "sample_head slot h c = \<lparr>bh_current_slot = slot, bh_next_slot = slot, bh_job_id = 0, bh_prover_jobs = [],
     bh_stage_input_tx = True, bh_store_hash = h, bh_queue_cursor = c\<rparr>"

lemma head_boots:
  fixes pv :: "'p \<Rightarrow> bytes" and proves :: "('x, 'h, 'c, 'u, 'v, 'g) proof_inputs \<Rightarrow> 'p \<Rightarrow> bool"
  shows "\<exists>n. head_reach pv proves stageable
     \<lparr>hs_head = sample_head slot h c, hs_running = [], hs_staged = [], hs_events = [NoticeEvent (n :: (_, nat) notice)]\<rparr>"
proof -
  let ?st0 = "\<lparr>bh_current_slot = 0, bh_next_slot = 0, bh_job_id = 0, bh_prover_jobs = [], bh_stage_input_tx = False,
    bh_store_hash = 0, bh_queue_cursor = 0\<rparr>"
  have new: "bridge_head_new (\<lambda>_. Some ''set'') = Inr ?st0"
    by (simp add: bridge_head_new_def validate_env_def required_env_def)
  obtain n where start:
    "(head_start sample_head_env slot h c slot ?st0 :: ('x, 'h, 'c, 'u, 'v, 'g, 'p, nat) head_turn) = (sample_head slot h c, [EmitEvent (NoticeEvent n)], None)"
    by (simp add: head_run_defs sample_head_def)
  from head_reach.boot[OF new start, of pv proves stageable] show ?thesis by auto
qed

lemma head_stages:
  assumes "stageable w"
  shows "\<exists>n n'. head_reach pv proves stageable
    \<lparr>hs_head = (sample_head slot h c)\<lparr>bh_job_id := 1, bh_prover_jobs := [(1, \<lparr>bj_inputs_with_window = w, bj_start_instant = 5\<rparr>)]\<rparr>,
     hs_running = [(1, wi_proof_inputs w)], hs_staged = [w],
     hs_events = [NoticeEvent (n :: (_, nat) notice), NoticeEvent n']\<rparr>"
proof -
  obtain n where boot: "head_reach pv proves stageable
     \<lparr>hs_head = sample_head slot h c, hs_running = [], hs_staged = [], hs_events = [NoticeEvent (n :: (_, nat) notice)]\<rparr>"
    (is "head_reach _ _ _ ?s") using head_boots by blast
  obtain n' outs where step: "head_step pv sample_head_env (hs_head ?s) (CommandInput (Some (StageTransitionProof w))) =
      ((sample_head slot h c)\<lparr>bh_job_id := 1, bh_prover_jobs := [(1, \<lparr>bj_inputs_with_window = w, bj_start_instant = 5\<rparr>)]\<rparr>,
       [SpawnJob 1 slot (wi_proof_inputs w), outs, EmitEvent (NoticeEvent n')], None)" and outs: "\<exists>u. outs = ToDetectorStage u"
    by (simp add: head_run_defs sample_head_def)
  from outs obtain u where "outs = ToDetectorStage u" ..
  with head_reach.stage[OF boot assms step] show ?thesis by (intro exI[of _ n] exI[of _ n']) simp
qed

lemma head_publishes:
  assumes "stageable w" and "proves (wi_proof_inputs w) p" and "proof_outputs_from_bytes (pv p) = Inr out"
  shows "\<exists>(s :: (_, _, _, _, _, _, _, nat) head_system) pm. head_reach pv proves stageable s \<and> hs_staged s = [w] \<and>
    hs_running s = [] \<and> ProofEvent pm \<in> set (hs_events s) \<and> pm_proof pm = p"
proof -
  obtain n n' where s: "head_reach pv proves stageable
    \<lparr>hs_head = (sample_head 0 0 0)\<lparr>bh_job_id := 1, bh_prover_jobs := [(1, \<lparr>bj_inputs_with_window = w, bj_start_instant = 5\<rparr>)]\<rparr>,
     hs_running = [(1, wi_proof_inputs w)], hs_staged = [w],
     hs_events = [NoticeEvent (n :: (_, nat) notice), NoticeEvent n']\<rparr>"
    (is "head_reach _ _ _ ?s") using head_stages[of stageable w, OF assms(1)] by blast
  let ?r = "Inr \<lparr>pj_job_id = 1, pj_input_head = 0, pj_proof = p\<rparr> :: prover_job_error + _ prover_job_output"
  have run: "(result_job_id ?r, wi_proof_inputs w) \<in> set (hs_running ?s)" by (simp add: result_job_id_def)
  obtain n'' pm where step: "head_step pv sample_head_env (hs_head ?s) (JobResult (Some ?r)) =
      ((sample_head 0 0 0)\<lparr>bh_job_id := 1\<rparr>, [EmitEvent (NoticeEvent n''), EmitEvent (ProofEvent pm)], None)"
      and pm: "pm_proof pm = p"
    using assms(3) by (simp add: head_run_defs sample_head_def)
  from head_reach.job_result[OF s run _ step] assms(2) pm show ?thesis
    by (intro exI[of _ "fold head_deliver [EmitEvent (NoticeEvent n''), EmitEvent (ProofEvent pm)] (?s\<lparr>hs_head :=
      (sample_head 0 0 0)\<lparr>bh_job_id := 1\<rparr>, hs_running := filter (\<lambda>(k, _). k \<noteq> result_job_id ?r) (hs_running ?s)\<rparr>)"]
      exI[of _ pm]) (auto simp: result_job_id_def)
qed


lemma published_message:
  assumes "head_reach pv proves stageable s" and "length (hs_staged s) < 2 ^ 64" and "ProofEvent pm \<in> set (hs_events s)"
  shows "\<exists>w out. w \<in> set (hs_staged s) \<and> stageable w \<and> proves (wi_proof_inputs w) (pm_proof pm) \<and>
    proof_outputs_from_bytes (pv (pm_proof pm)) = Inr out \<and> message_for out w pm"
proof -
  from head_reach_inv[OF assms(1)] assms(2,3) have "proof_of_window pv proves (hs_staged s) pm" "list_all stageable (hs_staged s)"
    by (auto simp: head_inv_def)
  then show ?thesis unfolding proof_of_window_def list_all_iff by blast
qed

lemma outstanding_distinct: "jobs_ok s \<Longrightarrow> distinct (map fst (hs_running s))"
  by (simp add: jobs_ok_def running_of_def comp_def case_prod_beta)

section \<open>Properties\<close>

text \<open>Published proofs belong to staged windows. In every history of finality changes, advances, staged windows and
  worker results, in any order, every proof message sent to the observer carries a proof that a worker
  produced for a window that was staged, the outputs decoded from that very proof, and the requests of that
  window: results of concurrent jobs are never mixed up.\<close>

theorem published_proofs_match_windows:
  assumes "head_reach pv proves stageable s" and "length (hs_staged s) < 2 ^ 64" and "ProofEvent pm \<in> set (hs_events s)"
  shows "\<exists>w out. w \<in> set (hs_staged s) \<and> stageable w \<and> proves (wi_proof_inputs w) (pm_proof pm) \<and>
    proof_outputs_from_bytes (pv (pm_proof pm)) = Inr out \<and> message_for out w pm"
  using assms by (rule published_message)

theorem published_proofs_match_windows_witness:
  "\<exists>(s :: (unit, unit, u8, u64, u64, unit, bytes, nat) head_system) pm w out.
     head_reach (sdk_public_values (sample_sdk (sample_inputs 64 [70] 96))) (\<lambda>i p. p = proof_outputs_to_bytes out) (\<lambda>_. True) s \<and>
     w \<in> set (hs_staged s) \<and> ProofEvent pm \<in> set (hs_events s) \<and> message_for out w pm \<and>
     pm_output_store_hash pm = sample_hash 96"
proof -
  obtain out :: proof_outputs where o: "po_output_store_hash out = sample_hash 96" using sample_run[of 64 70 96] by auto
  let ?p = "proof_outputs_to_bytes out" and ?pv = "sdk_public_values (sample_sdk (sample_inputs 64 [70] 96))"
  have dec: "proof_outputs_from_bytes (?pv ?p) = Inr out" using po_codec.dec_enc by simp
  obtain s :: "(unit, unit, u8, u64, u64, unit, bytes, nat) head_system" and pm w where
    r: "head_reach ?pv (\<lambda>i p. p = ?p) (\<lambda>_. True) s" and st: "hs_staged s = [w]" and ev: "ProofEvent pm \<in> set (hs_events s)"
    using head_publishes[of "\<lambda>_. True" _ "\<lambda>i p. p = ?p" ?p ?pv out, OF TrueI refl dec] by blast
  have n: "length (hs_staged s) < 2 ^ 64" by (simp add: st)
  from published_proofs_match_windows[OF r n ev] dec have "\<exists>w. w \<in> set (hs_staged s) \<and> message_for out w pm" by auto
  then obtain w' where w': "w' \<in> set (hs_staged s)" "message_for out w' pm" by blast
  then have "pm_output_store_hash pm = sample_hash 96" by (simp add: message_for_def o)
  with r ev w' show ?thesis by (intro exI[of _ s] exI[of _ pm] exI[of _ w'] exI[of _ out]) simp
qed

text \<open>C19: The bridge head never panics. In every reachable state, whatever the channels deliver (results only of jobs that
  were spawned and not reported yet), no handler unwraps a missing job or the missing detector channel: the loop
  only ends with an error, when a channel is closed or public values do not decode.\<close>

theorem head_never_panics:
  assumes "head_reach pv proves stageable s" and "length (hs_staged s) < 2 ^ 64" and "deliverable s ev"
  shows "snd (snd (head_step pv he (hs_head s) ev)) \<noteq> Some (HeadPanic p)"
proof
  assume "snd (snd (head_step pv he (hs_head s) ev)) = Some (HeadPanic p)"
  then have "head_step pv he (hs_head s) ev =
      (fst (head_step pv he (hs_head s) ev), fst (snd (head_step pv he (hs_head s) ev)), Some (HeadPanic p))"
    by (simp add: prod_eq_iff)
  from head_step_stops[OF head_reach_inv[OF assms(1)] assms(2,3) this] show False by simp
qed

theorem head_never_panics_witness:
  "\<exists>(s :: (unit, unit, u8, u64, u64, unit, bytes, nat) head_system) p.
     head_reach (\<lambda>b. b) (\<lambda>i p. True) (\<lambda>_. True) s \<and> hs_running s \<noteq> [] \<and>
     snd (snd (head_step (\<lambda>b. b) sample_head_env (hs_head s) (JobResult (Some (Inl \<lparr>pe_job_id = 1, pe_error = ''oom''\<rparr>))))) \<noteq>
       Some (HeadPanic p)"
proof -
  obtain s :: "(unit, unit, u8, u64, u64, unit, bytes, nat) head_system" and w
    where s: "head_reach (\<lambda>b. b) (\<lambda>i p. True) (\<lambda>_. True) s" "hs_running s = [(1, w)]" "length (hs_staged s) = 1"
    using head_stages[of "\<lambda>_. True" _ "\<lambda>b. b" "\<lambda>i p. True"] by fastforce
  have n: "length (hs_staged s) < 2 ^ 64" using s(3) by simp
  have d: "deliverable s (JobResult (Some (Inl \<lparr>pe_job_id = 1, pe_error = ''oom''\<rparr>)))"
    using s(2) by (simp add: deliverable_def result_job_id_def)
  from head_never_panics[OF s(1) n d, of sample_head_env "UnwrapFailed ''prover_jobs.get''"] s(1,2) show ?thesis
    by (intro exI[of _ s] exI[of _ "UnwrapFailed ''prover_jobs.get''"]) simp
qed

text \<open>The job table is the set of outstanding jobs. In every reachable state the ids of outstanding worker tasks are
  distinct and the table holds exactly the inputs each of them was spawned with; and a reported failure removes
  its job and tells the observer how many others are outstanding, so that zero means that nothing is being proved.\<close>

theorem job_failure_reported:
  assumes "head_reach pv proves stageable s" and "length (hs_staged s) < 2 ^ 64"
    and "(pe_job_id err, inputs) \<in> set (hs_running s)" and "he_observer_alive he"
  shows "distinct (map fst (hs_running s)) \<and> hs_running s = running_of (bh_prover_jobs (hs_head s)) \<and>
    (\<exists>st ext. head_step pv he (hs_head s) (JobResult (Some (Inl err))) =
        (st, [EmitEvent (NoticeEvent (into_message (ExtJobFailed ext) (he_datetime_iso he)))], None) \<and>
      ef_job_id ext = pe_job_id err \<and> ef_input_store_hash ext = pi_store_hash inputs \<and>
      ef_input_queue_cursor ext = qs_input_cursor (pi_queue_storage inputs) \<and>
      ef_n_job_in_buffer ext = of_nat (length (hs_running s) - 1) \<and>
      running_of (bh_prover_jobs st) = filter (\<lambda>(k, _). k \<noteq> pe_job_id err) (hs_running s))"
proof -
  from head_reach_inv[OF assms(1)] assms(2) have ok: "jobs_ok s" by (simp add: head_inv_def)
  note run = ok[unfolded jobs_ok_def]
  from run assms(3) obtain job where job: "map_of (bh_prover_jobs (hs_head s)) (pe_job_id err) = Some job"
    and mem: "(pe_job_id err, job) \<in> set (bh_prover_jobs (hs_head s))"
    and inp: "wi_proof_inputs (bj_inputs_with_window job) = inputs"
    using running_of_lookup[of "bh_prover_jobs (hs_head s)" "pe_job_id err" inputs] by auto
  have len: "length (AList.delete (pe_job_id err) (bh_prover_jobs (hs_head s))) = length (hs_running s) - 1"
    using run mem by (simp add: length_delete_distinct running_of_def)
  let ?w = "bj_inputs_with_window job"
  let ?ext = "\<lparr>ef_job_id = pe_job_id err, ef_input_slot = wi_input_slot ?w, ef_input_block_number = wi_input_block_number ?w,
     ef_input_store_hash = pi_store_hash inputs, ef_input_queue_cursor = qs_input_cursor (pi_queue_storage inputs),
     ef_expected_output_slot = wi_expected_output_slot ?w, ef_expected_output_block_number = wi_expected_output_block_number ?w,
     ef_expected_output_queue_cursor = wi_expected_output_queue_cursor ?w, ef_error = job_failed_text err,
     ef_elapsed_sec = he_as_secs_f64 he (he_instant he - bj_start_instant job),
     ef_n_job_in_buffer = of_nat (length (hs_running s) - 1)\<rparr>"
  have "head_step pv he (hs_head s) (JobResult (Some (Inl err))) =
      (hs_head s\<lparr>bh_prover_jobs := AList.delete (pe_job_id err) (bh_prover_jobs (hs_head s))\<rparr>,
       [EmitEvent (NoticeEvent (into_message (ExtJobFailed ?ext) (he_datetime_iso he)))], None)"
    using job inp len assms(4) by (simp add: head_step_def handle_prover_failure_def trigger_listener_with_notice_def Let_def)
  with run outstanding_distinct[OF ok] show ?thesis
    by (intro conjI exI[of _ ?ext] exI) (assumption | simp add: running_of_delete)+
qed

theorem job_failure_reported_witness:
  "\<exists>(s :: (unit, unit, u8, u64, u64, unit, bytes, nat) head_system) st ext.
     head_reach (\<lambda>b. b) (\<lambda>i p. True) (\<lambda>_. True) s \<and>
     head_step (\<lambda>b. b) sample_head_env (hs_head s) (JobResult (Some (Inl \<lparr>pe_job_id = 1, pe_error = ''oom''\<rparr>))) =
       (st, [EmitEvent (NoticeEvent (into_message (ExtJobFailed ext) (he_datetime_iso sample_head_env)))], None) \<and>
     ef_n_job_in_buffer ext = 0"
proof -
  obtain s :: "(unit, unit, u8, u64, u64, unit, bytes, nat) head_system" and w
    where s: "head_reach (\<lambda>b. b) (\<lambda>i p. True) (\<lambda>_. True) s" "hs_running s = [(1, w)]" "length (hs_staged s) = 1"
    using head_stages[of "\<lambda>_. True" _ "\<lambda>b. b" "\<lambda>i p. True"] by fastforce
  from job_failure_reported[OF s(1), of "\<lparr>pe_job_id = 1, pe_error = ''oom''\<rparr>" w sample_head_env] s show ?thesis by auto
qed

end
