(* ===== verification/Nori_Published.thy ===== *)
theory Nori_Published
  imports Nori_Bridge_Head
begin

text \<open>
  The requests published beside a proof (\<open>verified_requests\<close>, \<open>nori/src/bridge_head/api.rs\<close>) against the root
  the guest commits to (\<open>verify_queue\<close>, \<open>nori-program/src/mpt.rs\<close>): the destination chain is given the list and
  rebuilds the root from it. The head looks a value up by the first match, the guest by the last insertion into
  a map; the two agree because the host (\<open>prepare_queue_storage\<close>) lists every target and every key once.
\<close>

definition published_leaf :: "('f, 's) guest_env \<Rightarrow> verified_request \<Rightarrow> string + 'f" where
  "published_leaf E r = hash_request_leaf (env_mina E) (vr_target r) (vr_collection_keys_count r)
     (fst (vr_collection_keys r)) (snd (vr_collection_keys r)) (vr_value r)"

section \<open>Targets and keys occur once\<close>

definition listed_once :: "target_storage_proof list \<Rightarrow> bool" where
  "listed_once ts \<longleftrightarrow> distinct (map tp_target_address ts) \<and> (\<forall>t \<in> set ts. distinct (map ts_key (tp_slots t)))"

lemma traverse_io_results:
  assumes "fst (traverse_io f xs w) = Inr ys" and "\<And>x w y. fst (f x w) = Inr y \<Longrightarrow> P x y"
  shows "list_all2 P xs ys"
  using assms(1)
proof (induction xs arbitrary: w ys)
  case (Cons x xs)
  then obtain y w' ys' w'' where "f x w = (Inr y, w')" "traverse_io f xs w' = (Inr ys', w'')" "ys = y # ys'"
    by (auto simp: bind_io_Inr lift_io_apply)
  with Cons.IH[of w' ys'] assms(2)[of x w y] show ?case by simp
qed (simp add: lift_io_apply)

lemma target_slots_keys:
  "traverse_res (target_slot proved) keys = Inr slots \<Longrightarrow> map ts_key slots = keys"
  by (induction keys arbitrary: slots) (auto simp: bind_res_eq_Inr target_slot_def)

lemma prepare_target_shape:
  "fst (prepare_target E R root block limit at w) = Inr t \<Longrightarrow>
   tp_target_address t = fst at \<and> map ts_key (tp_slots t) = snd at"
  by (cases at) (auto simp: prepare_target_def bind_io_Inr lift_io_apply bind_res_eq_Inr target_slots_keys)

lemma prepared_shapes:
  assumes "list_all2 (\<lambda>at t. tp_target_address t = fst at \<and> map ts_key (tp_slots t) = snd at) ats ts"
  shows "map tp_target_address ts = map fst ats \<and> map (\<lambda>t. map ts_key (tp_slots t)) ts = map snd ats"
  using assms by (induction rule: list_all2_induct) auto

lemma slots_by_target_once:
  assumes "list_all2 (\<lambda>at t. tp_target_address t = fst at \<and> map ts_key (tp_slots t) = snd at)
    (complete_in order (slots_by_target es)) ts"
  shows "listed_once ts"
proof -
  have inv: "slots_inv es (slots_by_target es)" by (rule slots_by_target_inv)
  have "distinct (map fst (complete_in order (slots_by_target es)))"
    using inv by (simp add: map_complete_in slots_inv_def distinct_complete_in)
  moreover have "distinct (map ts_key (tp_slots t))" if "t \<in> set ts" for t
  proof -
    from that have "map ts_key (tp_slots t) \<in> set (map (\<lambda>t. map ts_key (tp_slots t)) ts)" by simp
    then have "map ts_key (tp_slots t) \<in> snd ` set (slots_by_target es)"
      using prepared_shapes[OF assms] by simp
    then obtain a ks where aks: "(a, ks) \<in> set (slots_by_target es)" and t: "map ts_key (tp_slots t) = ks" by auto
    from aks inv have "map_of (slots_by_target es) a = Some ks" by (simp add: slots_inv_def)
    with inv t show ?thesis by (simp add: slots_inv_def)
  qed
  ultimately show ?thesis using prepared_shapes[OF assms] by (simp add: listed_once_def)
qed

lemma prepared_once:
  assumes "fst (prepare_queue_storage E R order queue cursor block root limit w) = Inr q"
  shows "listed_once (qs_targets q)"
proof -
  from assms obtain es w' where
    "fst (traverse_io (prepare_target E R root block limit) (complete_in order (slots_by_target es)) w') = Inr (qs_targets q)"
    by (auto simp: prepare_queue_storage_def bind_io_Inr lift_io_apply Let_def split: if_splits) (metis fst_conv)
  from traverse_io_results[OF this prepare_target_shape] show ?thesis by (rule slots_by_target_once)
qed

section \<open>The published value is the verified value\<close>

lemma verified_slots_supplied:
  assumes "fold_res (verify_target E root) ts (Map.empty, Map.empty) = Inr maps" and "snd maps (a, k) = Some s"
  shows "\<exists>t \<in> set ts. tp_target_address t = a \<and> s \<in> set (tp_slots t) \<and> ts_key s = k"
proof -
  let ?I = "\<lambda>(ts :: target_storage_proof list) (maps :: target_maps). \<forall>a k s. snd maps (a, k) = Some s \<longrightarrow>
    (\<exists>t \<in> set ts. tp_target_address t = a \<and> s \<in> set (tp_slots t) \<and> ts_key s = k)"
  have "?I ts maps"
  proof (rule fold_res_invariant[where I = ?I, OF assms(1)])
    fix ys t s u
    assume I: "?I ys s" and step: "verify_target E root s t = Inr u"
    from step have "snd u = insert_slots (tp_target_address t) (tp_slots t) (snd s)"
      by (cases s) (auto simp: verify_target_def bind_res_eq_Inr)
    with I show "?I (ys @ [t]) u"
      by (auto simp: insert_slots_lookup find_Some_iff split: if_splits) (metis length_rev nth_mem set_rev)
  qed simp
  with assms(2) show ?thesis by blast
qed

lemma find_first:
  assumes "distinct (map f xs)" and "x \<in> set xs"
  shows "find (\<lambda>y. f y = f x) xs = Some x"
  using find_distinct[of f "rev xs" x] assms by (simp add: rev_map[symmetric])

lemma published_value_verified:
  assumes "listed_once ts" and "t \<in> set ts" "tp_target_address t = qe_target e" and "s \<in> set (tp_slots t)" "ts_key s = qe_slot_key e"
  shows "published_value ts e = ts_value s"
  using assms find_first[of tp_target_address ts t] find_first[of ts_key "tp_slots t" s]
  by (simp add: published_value_def listed_once_def)

lemma published_leaf_verified:
  assumes once: "listed_once (qs_targets q)"
    and maps: "fold_res (verify_target E root) (qs_targets q) (Map.empty, Map.empty) = Inr maps"
    and leaf: "queue_leaf E maps e = Inr l"
  shows "published_leaf E \<lparr>vr_target = qe_target e, vr_collection_keys_count = qe_collection_keys_count e,
      vr_collection_keys = qe_collection_keys e, vr_value = published_value (qs_targets q) e\<rparr> = Inr l"
proof -
  from leaf obtain s :: target_slot_proof where s: "snd maps (qe_target e, qe_slot_key e) = Some s"
    and l: "hash_request_leaf (env_mina E) (qe_target e) (qe_collection_keys_count e)
      (fst (qe_collection_keys e)) (snd (qe_collection_keys e)) (ts_value s) = Inr l"
    by (cases maps) (auto simp: queue_leaf_def bind_res_eq_Inr)
  from verified_slots_supplied[OF maps s] published_value_verified[OF once]
  have "published_value (qs_targets q) e = ts_value s" by blast
  with l show ?thesis by (simp add: published_leaf_def)
qed

lemma published_leaves:
  assumes "listed_once (qs_targets q)" and "verify_queue E root q = Inr (cursor', requests)"
  shows "\<exists>leaves. traverse_res (published_leaf E) (verified_requests q) = Inr leaves \<and>
    requests_root E leaves = Inr requests"
  using assms(2)
proof (rule verify_queue_stages)
  fix maps leaves
  assume maps: "fold_res (verify_target E root) (qs_targets q) (Map.empty, Map.empty) = Inr maps"
    and leaves: "traverse_res (queue_leaf E maps) (qs_entries q) = Inr leaves"
    and r: "requests_root E leaves = Inr requests"
  from leaves have "traverse_res (published_leaf E) (verified_requests q) = Inr leaves"
    unfolding traverse_res_eq_Inr verified_requests_def list_all2_map1
    by (rule list_all2_mono) (rule published_leaf_verified[OF assms(1) maps])
  with r show ?thesis by blast
qed

section \<open>Properties\<close>

text \<open>C8: The requests published beside a proof rebuild the committed root. Whatever the execution provider answers,
  when the host assembles a queue witness and the guest accepts it, hashing the list the bridge
  head publishes, in order, gives exactly the leaves whose Merkle root the guest committed to.\<close>

theorem published_requests_rebuild_root:
  assumes "fst (prepare_queue_storage E R order queue cursor block root limit w) = Inr q"
    and "verify_queue E root' q = Inr (cursor', requests)"
  shows "\<exists>leaves. traverse_res (published_leaf E) (verified_requests q) = Inr leaves \<and>
    requests_root E leaves = Inr requests"
  using assms by (intro published_leaves prepared_once)

theorem published_requests_rebuild_root_witness:
  "\<exists>q w' requests leaves. prepare_queue_storage sample_env sample_rpc [] 7 0 5 1 100 () = (Inr q, w') \<and>
    verify_queue sample_env 1 q = Inr (0 + queue_batch (queue_head_of sample_view 7) 0, requests) \<and>
    traverse_res (published_leaf sample_env) (verified_requests q) = Inr leaves \<and>
    requests_root sample_env leaves = Inr requests"
proof -
  have "honest_provider sample_env sample_rpc 5 1 7 0 sample_view"
    by (simp add: honest_provider_def sample_rpc_follows sample_view_verifies sample_queue_well_formed)
  from honest_queue_prepared[OF this sample_env_field_laws, of "[]" 100 "()"]
  obtain q w' r where q: "prepare_queue_storage sample_env sample_rpc [] 7 0 5 1 100 () = (Inr q, w')"
    and v: "verify_queue sample_env 1 q = Inr (0 + queue_batch (queue_head_of sample_view 7) 0, r)"
    by auto
  from q have "fst (prepare_queue_storage sample_env sample_rpc [] 7 0 5 1 100 ()) = Inr q" by simp
  from published_requests_rebuild_root[OF this v] q v show ?thesis by blast
qed

end
