(* ===== verification/Nori_Checkpoint.thy ===== *)
theory Nori_Checkpoint
  imports Nori_Notices Nori_Consensus_Rpc Nori_Text
begin

text \<open>
  The checkpoint file (\<open>nori/src/bridge_head/checkpoint.rs\<close>), the proof files (\<open>nori/src/utils.rs\<close>) and the
  choice between a warm and a cold start (\<open>nori/bin/nori_bridge_head.rs\<close>).

  A disk is its files and directories together with which of them can be created; reading and writing whole files
  is modelled, permissions and partial writes are the two predicates. The text form of JSON is the argument
  \<open>json_text\<close>. A failed \<open>expect\<close> or \<open>unwrap\<close> is a panic.
\<close>

section \<open>Disk\<close>

record disk =
  dk_files :: "string \<rightharpoonup> bytes"
  dk_dirs :: "string set"
  dk_can_create :: "string \<Rightarrow> bool"
  dk_can_write :: "string \<Rightarrow> bool"

text \<open>\<open>Path::parent\<close> of a relative path with at least one separator.\<close>

definition parent_dir :: "string \<Rightarrow> string" where
  "parent_dir path = rev (drop 1 (dropWhile (\<lambda>c. c \<noteq> CHR ''/'') (rev path)))"

definition create_dir_all :: "string \<Rightarrow> disk \<Rightarrow> string + disk" where
  "create_dir_all dir d = (if dk_can_create d dir then Inr (d\<lparr>dk_dirs := insert dir (dk_dirs d)\<rparr>) else Inl ''create_dir_all'')"

definition write_file :: "string \<Rightarrow> bytes \<Rightarrow> disk \<Rightarrow> string + disk" where
  "write_file path bs d =
     (if parent_dir path \<in> dk_dirs d \<and> dk_can_write d path
      then Inr (d\<lparr>dk_files := (dk_files d)(path \<mapsto> bs)\<rparr>) else Inl ''write'')"

text \<open>\<open>serde_json::to_string\<close> and \<open>serde_json::from_slice\<close> between JSON values and text.\<close>

record 'r json_text =
  jt_to_string :: "'r json \<Rightarrow> bytes"
  jt_from_slice :: "bytes \<Rightarrow> string + 'r json"

definition expect :: "string \<Rightarrow> 'e + 'a \<Rightarrow> panic + 'a" where
  "expect msg r = map_err (\<lambda>_. UnwrapFailed msg) r"

section \<open>The checkpoint\<close>

definition NB_CHECKPOINT_FILE :: string where
  "NB_CHECKPOINT_FILE = ''./checkpoint/nb_checkpoint.json''"

record nori_bridge_checkpoint =
  cp_slot :: u64
  cp_store_hash :: b256
  cp_queue_cursor :: u64

definition enc_checkpoint :: "('w, 'r) codec \<Rightarrow> nori_bridge_checkpoint \<Rightarrow> 'r json" where
  "enc_checkpoint K cp = JObject [(''slot'', enc_u64 (cp_slot cp)), (''store_hash'', enc_b256 K (cp_store_hash cp)),
     (''queue_cursor'', enc_u64 (cp_queue_cursor cp))]"

text \<open>A field marked \<open>#[serde(default)]\<close>.\<close>

definition field_or :: "'a \<Rightarrow> string \<Rightarrow> ('r json \<Rightarrow> string + 'a) \<Rightarrow> (string \<times> 'r json) list \<Rightarrow> string + 'a" where
  "field_or dflt name dec obj = (case map_of obj name of None \<Rightarrow> Inr dflt | Some v \<Rightarrow> dec v)"

definition dec_checkpoint :: "('w, 'r) codec \<Rightarrow> 'r json \<Rightarrow> string + nori_bridge_checkpoint" where
  "dec_checkpoint K j =
     bind_res (as_object j) (\<lambda>obj.
     bind_res (field ''slot'' dec_u64 obj) (\<lambda>slot.
     bind_res (field ''store_hash'' (dec_b256 K) obj) (\<lambda>store_hash.
     bind_res (field_or 0 ''queue_cursor'' dec_u64 obj) (\<lambda>queue_cursor.
     Inr \<lparr>cp_slot = slot, cp_store_hash = store_hash, cp_queue_cursor = queue_cursor\<rparr>))))"

definition nb_checkpoint_exists :: "disk \<Rightarrow> bool" where
  "nb_checkpoint_exists d \<longleftrightarrow> dk_files d NB_CHECKPOINT_FILE \<noteq> None"

definition load_nb_checkpoint :: "('w, 'r) codec \<Rightarrow> 'r json_text \<Rightarrow> disk \<Rightarrow> panic + nori_bridge_checkpoint" where
  "load_nb_checkpoint K T d =
     bind_res (expect ''Failed to open nori checkpoint file.'' (ok_or () (dk_files d NB_CHECKPOINT_FILE))) (\<lambda>serialized.
     expect ''Failed to deserialize nori checkpoint.'' (bind_res (jt_from_slice T serialized) (dec_checkpoint K)))"

definition save_nb_checkpoint ::
    "('w, 'r) codec \<Rightarrow> 'r json_text \<Rightarrow> u64 \<Rightarrow> b256 \<Rightarrow> u64 \<Rightarrow> disk \<Rightarrow> panic + disk" where
  "save_nb_checkpoint K T slot store_hash queue_cursor d =
     bind_res (expect ''Failed to create checkpoint directory.'' (create_dir_all (parent_dir NB_CHECKPOINT_FILE) d)) (\<lambda>d.
     let checkpoint = \<lparr>cp_slot = slot, cp_store_hash = store_hash, cp_queue_cursor = queue_cursor\<rparr>;
         serialized = jt_to_string T (enc_checkpoint K checkpoint) in
     expect ''Failed to write to checkpoint file'' (write_file NB_CHECKPOINT_FILE serialized d))"

section \<open>Start\<close>

text \<open>The slot, store hash and queue cursor \<open>main\<close> runs the bridge head from. The cold start queries the consensus
  providers named in the environment.\<close>

definition start_point ::
    "('w, 'r) codec \<Rightarrow> 'r json_text \<Rightarrow> disk \<Rightarrow> (string \<Rightarrow> string + 'p) \<Rightarrow> (string \<Rightarrow> string + 'q) \<Rightarrow> (string \<Rightarrow> string + address)
      \<Rightarrow> ('p, 'b, 'x, 'h, 'c, 'u, 'v, 'g) beacon \<Rightarrow> ('x, 'h, 'c, 'u, 'v, 'g) helios \<Rightarrow> 'p consensus_net \<Rightarrow> env
      \<Rightarrow> panic + u64 \<times> b256 \<times> u64" where
  "start_point K T d parse_url parse_provider parse_address B H CN env =
     (if nb_checkpoint_exists d
      then bind_res (load_nb_checkpoint K T d) (\<lambda>nb_checkpoint.
           Inr (cp_slot nb_checkpoint, cp_store_hash nb_checkpoint, cp_queue_cursor nb_checkpoint))
      else bind_res (expect ''from_env'' (consensus_proxy_from_env parse_url parse_provider parse_address env)) (\<lambda>proxy.
           bind_res (expect ''get_latest_finality_slot_and_store_hash''
             (get_latest_finality_slot_and_store_hash B H env CN proxy)) (\<lambda>(current_slot, store_hash).
           Inr (current_slot, store_hash, 0))))"

section \<open>Proof files\<close>

definition proof_file_name :: "env \<Rightarrow> u64 \<Rightarrow> string \<Rightarrow> string" where
  "proof_file_name env slot sp1_version =
     (let if_mock = if (case env ''SP1_PROVER'' of None \<Rightarrow> '''' | Some v \<Rightarrow> v) = ''mock'' then ''mock-'' else ''''
      in if_mock @ show_nat (unat slot) @ ''-'' @ sp1_version @ ''.json'')"

text \<open>Both writers: an unusable directory is an error, a failed serialization or write a panic.\<close>

definition write_proof_file :: "string \<Rightarrow> env \<Rightarrow> u64 \<Rightarrow> string \<Rightarrow> string + bytes \<Rightarrow> disk \<Rightarrow> string fault + disk" where
  "write_proof_file dir env slot sp1_version text d =
     bind_res (map_err Failed (create_dir_all dir d)) (\<lambda>d.
     map_err Panicked
       (bind_res (expect ''serde_json::to_string'' text) (\<lambda>bs.
        expect ''std::fs::write'' (write_file (dir @ ''/'' @ proof_file_name env slot sp1_version) bs d))))"

definition handle_nori_proof ::
    "env \<Rightarrow> ('p \<Rightarrow> string) \<Rightarrow> ('p \<Rightarrow> string + bytes) \<Rightarrow> 'p \<Rightarrow> u64 \<Rightarrow> disk \<Rightarrow> string fault + disk" where
  "handle_nori_proof env sp1_version to_string proof latest_block d =
     write_proof_file ''./sp1-helios-proofs'' env latest_block (sp1_version proof) (to_string proof) d"

section \<open>Lemmas\<close>

lemma expect_simps [simp, res_simps]:
  "expect msg (Inr x) = Inr x"
  "expect msg (Inl e) = Inl (UnwrapFailed msg)"
  "expect msg r = Inr x \<longleftrightarrow> r = Inr x"
  by (simp_all add: expect_def)

lemma checkpoint_dir: "parent_dir NB_CHECKPOINT_FILE = ''./checkpoint''"
  by (simp add: parent_dir_def NB_CHECKPOINT_FILE_def)

lemma field_or_simps [codec_simps]:
  "field_or dflt name dec ((name, v) # obj) = dec v"
  "name \<noteq> name' \<Longrightarrow> field_or dflt name dec ((name', v) # obj) = field_or dflt name dec obj"
  "field_or dflt name dec [] = Inr dflt"
  by (simp_all add: field_or_def)

lemma dec_enc_checkpoint:
  "codec_laws K F \<Longrightarrow> dec_checkpoint K (enc_checkpoint K cp) = Inr cp"
  by (simp add: enc_checkpoint_def dec_checkpoint_def codec_simps codec_laws_def)

text \<open>What the file format promises for checkpoints.\<close>

definition text_laws :: "('w, 'r) codec \<Rightarrow> 'r json_text \<Rightarrow> bool" where
  "text_laws K T \<longleftrightarrow> codec_laws K {} \<and> (\<forall>cp. jt_from_slice T (jt_to_string T (enc_checkpoint K cp)) = Inr (enc_checkpoint K cp))"

lemma save_load_checkpoint:
  assumes "text_laws K T" and "save_nb_checkpoint K T slot h c d = Inr d'"
  shows "load_nb_checkpoint K T d' = Inr \<lparr>cp_slot = slot, cp_store_hash = h, cp_queue_cursor = c\<rparr>"
    and "nb_checkpoint_exists d'"
  using assms dec_enc_checkpoint[of K "{}"]
  by (auto simp: save_nb_checkpoint_def load_nb_checkpoint_def nb_checkpoint_exists_def bind_res_eq_Inr write_file_def
      text_laws_def Let_def split: if_splits)

text \<open>The disk makes the next start begin at a given head, whatever the providers would answer.\<close>

definition resumes_at :: "('w, 'r) codec \<Rightarrow> 'r json_text \<Rightarrow> disk \<Rightarrow> u64 \<times> b256 \<times> u64 \<Rightarrow> bool" where
  "resumes_at K T d t = (case t of (slot, h, c) \<Rightarrow> nb_checkpoint_exists d \<and>
     load_nb_checkpoint K T d = Inr \<lparr>cp_slot = slot, cp_store_hash = h, cp_queue_cursor = c\<rparr>)"

lemma resumes_start_point: "resumes_at K T d t \<Longrightarrow> start_point K T d pu pp pa B H CN env = Inr t"
  by (cases t) (simp add: resumes_at_def start_point_def)

lemma resumes_saved:
  assumes "text_laws K T" and "save_nb_checkpoint K T slot h c d = Inr d'"
  shows "resumes_at K T d' (slot, h, c)"
  using save_load_checkpoint[OF assms] by (simp add: resumes_at_def)

lemma start_point_saved:
  assumes "text_laws K T" and "save_nb_checkpoint K T slot h c d = Inr d'"
  shows "start_point K T d' pu pp pa B H CN env = Inr (slot, h, c)"
  using save_load_checkpoint[OF assms] by (simp add: start_point_def)


section \<open>A concrete instance\<close>

text \<open>A text format for checkpoints: the three numbers at fixed width.\<close>

fun sample_to_string :: "nat json \<Rightarrow> bytes" where
  "sample_to_string (JObject [(_, JNumber slot), (_, JNumber h), (_, JNumber c)]) =
     to_be_bytes 8 (of_nat slot :: u64) @ to_be_bytes 32 (of_nat h :: b256) @ to_be_bytes 8 (of_nat c :: u64)"
| "sample_to_string _ = []"

definition sample_from_slice :: "bytes \<Rightarrow> string + nat json" where
  "sample_from_slice bs =
     (if length bs \<noteq> 48 then Inl ''unexpected length''
      else Inr (JObject [(''slot'', JNumber (unat (from_be_bytes (take 8 bs) :: u64))),
        (''store_hash'', JNumber (unat (from_be_bytes (take 32 (drop 8 bs)) :: b256))),
        (''queue_cursor'', JNumber (unat (from_be_bytes (drop 40 bs) :: u64)))]))"

definition sample_text :: "nat json_text" where
  "sample_text = \<lparr>jt_to_string = sample_to_string, jt_from_slice = sample_from_slice\<rparr>"

lemma sample_text_laws: "text_laws sample_codec sample_text"
proof -
  have "codec_laws sample_codec {}" using sample_codec_laws by (simp add: codec_laws_def)
  moreover have "sample_from_slice (sample_to_string (enc_checkpoint sample_codec cp)) = Inr (enc_checkpoint sample_codec cp)" for cp
    by (simp add: enc_checkpoint_def sample_codec_def enc_u64_def sample_from_slice_def)
  ultimately show ?thesis by (simp add: text_laws_def sample_text_def)
qed

definition sample_disk :: disk where
  "sample_disk = \<lparr>dk_files = Map.empty, dk_dirs = {}, dk_can_create = (\<lambda>_. True), dk_can_write = (\<lambda>_. True)\<rparr>"

lemma sample_disk_saves: "\<exists>d'. save_nb_checkpoint sample_codec sample_text slot h c sample_disk = Inr d'"
  by (simp add: save_nb_checkpoint_def create_dir_all_def write_file_def sample_disk_def)

section \<open>Properties\<close>

text \<open>C31: Checkpoints survive a restart. A saved checkpoint is what the next start runs from, whatever was on the disk
  before and whatever the providers would answer; every other file is untouched; and a
  checkpoint written before the proof request queue existed, without \<open>queue_cursor\<close>, loads with cursor zero.\<close>

theorem checkpoint_round_trip:
  assumes "text_laws K T" and "save_nb_checkpoint K T slot h c d = Inr d'"
  shows "load_nb_checkpoint K T d' = Inr \<lparr>cp_slot = slot, cp_store_hash = h, cp_queue_cursor = c\<rparr> \<and>
    start_point K T d' parse_url parse_provider parse_address B H CN env = Inr (slot, h, c) \<and>
    (\<forall>path. path \<noteq> NB_CHECKPOINT_FILE \<longrightarrow> dk_files d' path = dk_files d path) \<and>
    dec_checkpoint K (JObject [(''slot'', enc_u64 slot), (''store_hash'', enc_b256 K h)]) =
      Inr \<lparr>cp_slot = slot, cp_store_hash = h, cp_queue_cursor = 0\<rparr>"
proof (intro conjI)
  show "\<forall>path. path \<noteq> NB_CHECKPOINT_FILE \<longrightarrow> dk_files d' path = dk_files d path"
    using assms(2) by (auto simp: save_nb_checkpoint_def bind_res_eq_Inr create_dir_all_def write_file_def Let_def split: if_splits)
  show "dec_checkpoint K (JObject [(''slot'', enc_u64 slot), (''store_hash'', enc_b256 K h)]) =
      Inr \<lparr>cp_slot = slot, cp_store_hash = h, cp_queue_cursor = 0\<rparr>"
    using assms(1) by (simp add: dec_checkpoint_def codec_simps text_laws_def codec_laws_def)
qed (rule save_load_checkpoint[OF assms] start_point_saved[OF assms])+

theorem checkpoint_round_trip_witness:
  "\<exists>d'. save_nb_checkpoint sample_codec sample_text 96 (sample_hash 96) 1 sample_disk = Inr d' \<and>
     load_nb_checkpoint sample_codec sample_text d' =
       Inr \<lparr>cp_slot = 96, cp_store_hash = sample_hash 96, cp_queue_cursor = 1\<rparr>"
proof -
  obtain d' where d': "save_nb_checkpoint sample_codec sample_text 96 (sample_hash 96) 1 sample_disk = Inr d'"
    using sample_disk_saves by blast
  from checkpoint_round_trip[OF sample_text_laws d'] d' show ?thesis by blast
qed

text \<open>Proof files do not collide. For one setting of the prover, the name of a proof file determines the input slot
  and the SP1 version of the proof, so only a proof from the same input slot replaces a file.\<close>

theorem proof_file_names_distinct:
  "proof_file_name env slot version = proof_file_name env slot' version' \<longleftrightarrow> slot = slot' \<and> version = version'"
proof
  assume eq: "proof_file_name env slot version = proof_file_name env slot' version'"
  then have "show_nat (unat slot) @ CHR ''-'' # (version @ ''.json'') = show_nat (unat slot') @ CHR ''-'' # (version' @ ''.json'')"
    by (simp add: proof_file_name_def Let_def)
  then show "slot = slot' \<and> version = version'" by (simp add: dec_word.field_eq is_digit_def)
qed simp

end
