(* ===== verification/Nori_Observer.thy ===== *)
theory Nori_Observer
  imports Nori_Checkpoint Nori_Bridge_Head
begin

text \<open>
  The reference observer (\<open>nori/src/bridge_head/observer.rs\<close>): it decides when windows are staged, settles the
  head after a proof, and writes proofs and the checkpoint. The state is the observer and the disk; a
  message is a command sent to the bridge head. \<open>panic_more\<close> ends the process (\<open>ObserverExit\<close>), other panics end
  the task. Serializing a notice for the log is not modelled (it cannot fail the handler).
\<close>

section \<open>State\<close>

record 'w observer =
  ob_started :: bool
  ob_current_slot :: u64
  ob_store_hash :: b256
  ob_queue_cursor :: u64
  ob_stage_transition_proof :: bool
  ob_latest_current_window :: "'w option"
  ob_latest_next_window :: "'w option"

definition observer_new :: "'w observer" where
  "observer_new = \<lparr>ob_started = False, ob_current_slot = 0, ob_store_hash = 0, ob_queue_cursor = 0,
     ob_stage_transition_proof = False, ob_latest_current_window = None, ob_latest_next_window = None\<rparr>"

datatype observer_stop = ObserverExit string | ObserverPanic panic

text \<open>What the observer needs of its surroundings: the environment, whether the head still listens, the version and
  the JSON text of proofs and proof messages, and the checkpoint format.\<close>

record ('w, 'p, 'r) observer_env =
  oe_env :: env
  oe_head_alive :: bool
  oe_sp1_version :: "'p \<Rightarrow> string"
  oe_proof_text :: "'p \<Rightarrow> string + bytes"
  oe_message_text :: "('p, 'r) proof_message \<Rightarrow> string + bytes"
  oe_codec :: "('w, 'r) codec"
  oe_json_text :: "'r json_text"

type_synonym 'w observer_state = "'w observer \<times> disk"

type_synonym 'w observer_turn = "('w observer_state, 'w command, observer_stop) turn"

text \<open>An operation on the disk inside a handler.\<close>

definition on_disk :: "string \<Rightarrow> (disk \<Rightarrow> string fault + disk) \<Rightarrow> 'w observer_state \<Rightarrow> 'w observer_turn" where
  "on_disk msg f st = (case st of (ob, d) \<Rightarrow> (case f d of
     Inr d' \<Rightarrow> stay (ob, d')
   | Inl (Failed _) \<Rightarrow> leave (ObserverExit msg) st
   | Inl (Panicked p) \<Rightarrow> leave (ObserverPanic p) st))"

text \<open>A command sent through the handle; the process ends when the channel is closed.\<close>

definition send_command :: "unit + 'w command \<Rightarrow> 'w observer_state \<Rightarrow> 'w observer_turn" where
  "send_command r st = (case r of
     Inr c \<Rightarrow> perform c st
   | Inl _ \<Rightarrow> leave (ObserverExit ''Bridge head command channel closed'') st)"

section \<open>Handlers\<close>

definition handle_nori_proof_message ::
    "env \<Rightarrow> ('p \<Rightarrow> string) \<Rightarrow> (('p, 'r) proof_message \<Rightarrow> string + bytes) \<Rightarrow> ('p, 'r) proof_message \<Rightarrow> disk \<Rightarrow> string fault + disk" where
  "handle_nori_proof_message env sp1_version to_string m d =
     write_proof_file ''./sp1-helios-proof-messages'' env (pm_input_slot m) (sp1_version (pm_proof m)) (to_string m) d"

definition observer_advance ::
    "('w, 'p, 'r) observer_env \<Rightarrow> u64 \<Rightarrow> b256 \<Rightarrow> u64 \<Rightarrow> 'w observer_state \<Rightarrow> 'w observer_turn" where
  "observer_advance oe slot store_hash queue_cursor st =
     (case st of (ob, d) \<Rightarrow>
      let ob = ob\<lparr>ob_current_slot := slot, ob_store_hash := store_hash, ob_queue_cursor := queue_cursor\<rparr> in
      and_then (on_disk '''' (\<lambda>d. map_err Panicked (save_nb_checkpoint (oe_codec oe) (oe_json_text oe)
          (ob_current_slot ob) (ob_store_hash ob) (ob_queue_cursor ob) d)) (ob, d)) (\<lambda>st.
      send_command (handle_advance (oe_head_alive oe) slot store_hash queue_cursor) st))"

definition on_transition_proof_succeeded ::
    "(('x, 'h, 'c, 'u, 'v, 'g) window, 'p, 'r) observer_env \<Rightarrow> ('p, 'r) proof_message
      \<Rightarrow> ('x, 'h, 'c, 'u, 'v, 'g) window observer_state \<Rightarrow> ('x, 'h, 'c, 'u, 'v, 'g) window observer_turn" where
  "on_transition_proof_succeeded oe proof_data st =
     and_then (on_disk ''Could not save new Sp1 proof to disk!''
       (handle_nori_proof (oe_env oe) (oe_sp1_version oe) (oe_proof_text oe) (pm_proof proof_data) (pm_input_slot proof_data)) st) (\<lambda>st.
     and_then (on_disk ''Could not save new Sp1 proof message to disk!''
       (handle_nori_proof_message (oe_env oe) (oe_sp1_version oe) (oe_message_text oe) proof_data) st) (\<lambda>st.
     and_then (observer_advance oe (pm_output_slot proof_data) (pm_output_store_hash proof_data)
       (pm_output_queue_cursor proof_data) st) (\<lambda>(ob, d).
     case ob_latest_next_window ob of
       Some next \<Rightarrow>
         if wi_input_slot next = pm_output_slot proof_data
         then send_command (handle_stage_transition_proof (oe_head_alive oe) next) (ob, d)
         else stay (ob\<lparr>ob_stage_transition_proof := True\<rparr>, d)
     | None \<Rightarrow> stay (ob\<lparr>ob_stage_transition_proof := True\<rparr>, d))))"

definition on_bridge_head_transition_notice ::
    "('w, 'p, 'r) observer_env \<Rightarrow> ('w, 'r) notice \<Rightarrow> 'w observer_state \<Rightarrow> 'w observer_turn" where
  "on_bridge_head_transition_notice oe notice_data st =
     (case st of (ob, d) \<Rightarrow> (case notice_data of
        Started m \<Rightarrow>
          stay (ob\<lparr>ob_started := True, ob_current_slot := es_current_slot (extension m),
                   ob_store_hash := es_store_hash (extension m), ob_stage_transition_proof := True\<rparr>, d)
      | JobFailed m \<Rightarrow>
          if ef_n_job_in_buffer (extension m) = 0
          then (case ob_latest_current_window ob of
                  Some w \<Rightarrow> send_command (handle_stage_transition_proof (oe_head_alive oe) w) st
                | None \<Rightarrow> leave (ObserverExit
                    ''Tried to redo a job but latest_validated_proof_input_with_window was not defined'') st)
          else stay st
      | FinalityTransitionDetected m \<Rightarrow>
          (let ob = ob\<lparr>ob_latest_current_window := Some (et_current_window_proof_inputs_with_window (extension m)),
                      ob_latest_next_window := et_next_window_proof_inputs_with_window (extension m)\<rparr> in
           if ob_stage_transition_proof ob
           then and_then (send_command (handle_stage_transition_proof (oe_head_alive oe)
                  (et_current_window_proof_inputs_with_window (extension m))) (ob, d)) (\<lambda>(ob, d).
                stay (ob\<lparr>ob_stage_transition_proof := False\<rparr>, d))
           else stay (ob, d))
      | _ \<Rightarrow> stay st))"

definition observer_step ::
    "(('x, 'h, 'c, 'u, 'v, 'g) window, 'p, 'r) observer_env \<Rightarrow> ('x, 'h, 'c, 'u, 'v, 'g) window observer_state
      \<Rightarrow> (('x, 'h, 'c, 'u, 'v, 'g) window, 'p, 'r) bridge_head_event option \<Rightarrow> ('x, 'h, 'c, 'u, 'v, 'g) window observer_turn" where
  "observer_step oe st ev = (case ev of
     Some (ProofEvent m) \<Rightarrow> on_transition_proof_succeeded oe m st
   | Some (NoticeEvent n) \<Rightarrow> on_bridge_head_transition_notice oe n st
   | None \<Rightarrow> leave (ObserverExit ''Event receiver for BridgeHead dropped'') st)"


section \<open>Which windows are staged\<close>

text \<open>For a property of windows: the cached windows have it, a finality notice brings such windows, and a
  command only stages such windows.\<close>

definition caches :: "('w \<Rightarrow> bool) \<Rightarrow> 'w observer_state \<Rightarrow> bool" where
  "caches P st \<longleftrightarrow> pred_option P (ob_latest_current_window (fst st)) \<and> pred_option P (ob_latest_next_window (fst st))"

definition offers :: "('w \<Rightarrow> bool) \<Rightarrow> ('w, 'p, 'r) bridge_head_event option \<Rightarrow> bool" where
  "offers P ev = (case ev of
     Some (NoticeEvent (FinalityTransitionDetected m)) \<Rightarrow>
       P (et_current_window_proof_inputs_with_window (extension m)) \<and>
       pred_option P (et_next_window_proof_inputs_with_window (extension m))
   | _ \<Rightarrow> True)"

definition stages :: "('w \<Rightarrow> bool) \<Rightarrow> 'w command \<Rightarrow> bool" where
  "stages P c = (case c of StageTransitionProof w \<Rightarrow> P w | Advance _ \<Rightarrow> True)"

lemma on_disk_eq:
  "on_disk msg f st = (st', outs, r) \<longleftrightarrow> outs = [] \<and> fst st' = fst st \<and>
     (case f (snd st) of
        Inr d \<Rightarrow> r = None \<and> snd st' = d
      | Inl (Failed _) \<Rightarrow> r = Some (ObserverExit msg) \<and> snd st' = snd st
      | Inl (Panicked p) \<Rightarrow> r = Some (ObserverPanic p) \<and> snd st' = snd st)"
  by (cases st; cases st'; auto simp: on_disk_def stay_def leave_def split: sum.splits fault.splits)

lemma send_command_eq:
  "send_command r st = (st', outs, stop) \<longleftrightarrow> st' = st \<and>
     (case r of Inr c \<Rightarrow> outs = [c] \<and> stop = None
      | Inl _ \<Rightarrow> outs = [] \<and> stop = Some (ObserverExit ''Bridge head command channel closed''))"
  by (cases r) (auto simp: send_command_def perform_def leave_def)

lemma stay_eq: "stay st = (st', outs, r) \<longleftrightarrow> st' = st \<and> outs = [] \<and> r = None"
  by (auto simp: stay_def)

lemma handles_simps [simp]:
  "handle_advance True slot h c = Inr (Advance \<lparr>am_slot = slot, am_store_hash = h, am_queue_cursor = c\<rparr>)"
  "handle_stage_transition_proof True w = Inr (StageTransitionProof w)"
  "handle_advance False slot h c = Inl ()"
  "handle_stage_transition_proof False w = Inl ()"
  by (simp_all add: handle_advance_def handle_stage_transition_proof_def)

text \<open>What saving and advancing do: the advance is sent only when the checkpoint is on disk.\<close>

lemma observer_advance_eq:
  "observer_advance oe slot h c (ob, d) =
     (let ob = ob\<lparr>ob_current_slot := slot, ob_store_hash := h, ob_queue_cursor := c\<rparr> in
      case save_nb_checkpoint (oe_codec oe) (oe_json_text oe) slot h c d of
        Inl p \<Rightarrow> ((ob, d), [], Some (ObserverPanic p))
      | Inr d' \<Rightarrow>
          if oe_head_alive oe then ((ob, d'), [Advance \<lparr>am_slot = slot, am_store_hash = h, am_queue_cursor = c\<rparr>], None)
          else ((ob, d'), [], Some (ObserverExit ''Bridge head command channel closed'')))"
  by (cases "oe_head_alive oe")
    (simp_all add: observer_advance_def on_disk_def send_command_def perform_def stay_def leave_def Let_def split: sum.splits)

lemma observer_advance_turn:
  assumes "observer_advance oe slot h c (ob, d) = (st', outs, r)"
  shows "fst st' = ob\<lparr>ob_current_slot := slot, ob_store_hash := h, ob_queue_cursor := c\<rparr>"
    and "r = None \<Longrightarrow> outs = [Advance \<lparr>am_slot = slot, am_store_hash = h, am_queue_cursor = c\<rparr>] \<and>
      save_nb_checkpoint (oe_codec oe) (oe_json_text oe) slot h c d = Inr (snd st')"
    and "r \<noteq> None \<Longrightarrow> outs = []"
  using assms by (auto simp: observer_advance_eq Let_def split: sum.splits if_splits)

text \<open>A handled proof: the files are written, the checkpoint saved and the advance sent; then the next
  window is staged if it continues the proof, and otherwise the next finality is awaited.\<close>

lemma proof_handled:
  assumes "on_transition_proof_succeeded oe m (ob, d) = (st', outs, None)"
  shows "\<exists>d2. save_nb_checkpoint (oe_codec oe) (oe_json_text oe) (pm_output_slot m) (pm_output_store_hash m)
       (pm_output_queue_cursor m) d2 = Inr (snd st') \<and>
     (let ob' = ob\<lparr>ob_current_slot := pm_output_slot m, ob_store_hash := pm_output_store_hash m,
                  ob_queue_cursor := pm_output_queue_cursor m\<rparr>;
          adv = Advance \<lparr>am_slot = pm_output_slot m, am_store_hash = pm_output_store_hash m,
                         am_queue_cursor = pm_output_queue_cursor m\<rparr> in
      (\<exists>w. ob_latest_next_window ob = Some w \<and> wi_input_slot w = pm_output_slot m \<and>
         fst st' = ob' \<and> outs = [adv, StageTransitionProof w]) \<or>
      ((\<forall>w. ob_latest_next_window ob = Some w \<longrightarrow> wi_input_slot w \<noteq> pm_output_slot m) \<and>
         fst st' = ob'\<lparr>ob_stage_transition_proof := True\<rparr> \<and> outs = [adv]))"
proof -
  let ?ob = "ob\<lparr>ob_current_slot := pm_output_slot m, ob_store_hash := pm_output_store_hash m,
    ob_queue_cursor := pm_output_queue_cursor m\<rparr>"
  from assms obtain d1 d2 st3 o3 o4 where
    adv: "observer_advance oe (pm_output_slot m) (pm_output_store_hash m) (pm_output_queue_cursor m) (ob, d2) = (st3, o3, None)"
    and rest: "(case st3 of (ob, d) \<Rightarrow> (case ob_latest_next_window ob of
       Some next \<Rightarrow>
         if wi_input_slot next = pm_output_slot m
         then send_command (handle_stage_transition_proof (oe_head_alive oe) next) (ob, d)
         else stay (ob\<lparr>ob_stage_transition_proof := True\<rparr>, d)
     | None \<Rightarrow> stay (ob\<lparr>ob_stage_transition_proof := True\<rparr>, d))) = (st', o4, None)"
    and outs: "outs = o3 @ o4"
    unfolding on_transition_proof_succeeded_def and_then_eq on_disk_eq
    by (elim disjE exE conjE) (auto split: sum.splits fault.splits)
  note a = observer_advance_turn(1)[OF adv] observer_advance_turn(2)[OF adv refl]
  have "oe_head_alive oe" using adv by (auto simp: observer_advance_eq Let_def split: sum.splits if_splits)
  with rest a outs show ?thesis
    by (intro exI[of _ d2]) (cases st3; auto simp: send_command_eq stay_eq Let_def split: option.splits if_splits)
qed


lemma handled_resumes:
  assumes "observer_step oe (ob, d) (Some (ProofEvent m)) = (st', outs, None)" and "text_laws (oe_codec oe) (oe_json_text oe)"
  shows "resumes_at (oe_codec oe) (oe_json_text oe) (snd st')
    (pm_output_slot m, pm_output_store_hash m, pm_output_queue_cursor m)"
proof -
  from assms(1) have "on_transition_proof_succeeded oe m (ob, d) = (st', outs, None)" by (simp add: observer_step_def)
  from proof_handled[OF this] resumes_saved[OF assms(2)] show ?thesis by blast
qed

lemma handled_start:
  assumes "observer_step oe (ob, d) (Some (ProofEvent m)) = (st', outs, None)" and "text_laws (oe_codec oe) (oe_json_text oe)"
  shows "start_point (oe_codec oe) (oe_json_text oe) (snd st') pu pp pa B H CN env =
    Inr (pm_output_slot m, pm_output_store_hash m, pm_output_queue_cursor m)"
  by (rule resumes_start_point[OF handled_resumes[OF assms]])

lemma handled_turn:
  assumes "observer_step oe (ob, d) (Some (ProofEvent m)) = (st', outs, None)"
  shows "ob_current_slot (fst st') = pm_output_slot m \<and> ob_store_hash (fst st') = pm_output_store_hash m \<and>
    ob_queue_cursor (fst st') = pm_output_queue_cursor m \<and>
    (\<exists>rest. outs = Advance \<lparr>am_slot = pm_output_slot m, am_store_hash = pm_output_store_hash m,
         am_queue_cursor = pm_output_queue_cursor m\<rparr> # rest \<and>
       (rest = [] \<and> ob_stage_transition_proof (fst st') \<or>
        (\<exists>w. rest = [StageTransitionProof w] \<and> wi_input_slot w = pm_output_slot m \<and> ob_latest_next_window ob = Some w)))"
proof -
  from assms(1) have "on_transition_proof_succeeded oe m (ob, d) = (st', outs, None)" by (simp add: observer_step_def)
  from proof_handled[OF this] show ?thesis by (auto simp: Let_def)
qed

definition keeps_windows ::
    "('x, 'h, 'c, 'u, 'v, 'g) window observer_state \<Rightarrow> ('x, 'h, 'c, 'u, 'v, 'g) window observer_turn \<Rightarrow> bool" where
  "keeps_windows st t \<longleftrightarrow>
     ob_latest_current_window (fst (fst t)) = ob_latest_current_window (fst st) \<and>
     ob_latest_next_window (fst (fst t)) = ob_latest_next_window (fst st) \<and>
     (\<forall>w. StageTransitionProof w \<in> set (fst (snd t)) \<longrightarrow> ob_latest_next_window (fst st) = Some w)"

lemma keeps_and_then:
  assumes "keeps_windows st t" and "\<And>st1. keeps_windows st1 (f st1)"
  shows "keeps_windows st (and_then t f)"
  using assms(1) assms(2)[of "fst t"]
  by (cases t; cases "snd (snd t)") (auto simp: keeps_windows_def split: prod.splits)

lemma keeps_on_disk: "keeps_windows st (on_disk msg f st)"
  by (cases st; auto simp: on_disk_def keeps_windows_def stay_def leave_def split: sum.splits fault.splits)

lemma keeps_advance: "keeps_windows st (observer_advance oe slot h c st)"
  by (cases st; auto simp: observer_advance_eq keeps_windows_def Let_def split: sum.splits)

lemma proof_keeps_windows: "keeps_windows st (on_transition_proof_succeeded oe m st)"
proof -
  have staging: "keeps_windows st (case st of (ob, d) \<Rightarrow> (case ob_latest_next_window ob of
       Some next \<Rightarrow>
         if wi_input_slot next = pm_output_slot m
         then send_command (handle_stage_transition_proof (oe_head_alive oe) next) (ob, d)
         else stay (ob\<lparr>ob_stage_transition_proof := True\<rparr>, d)
     | None \<Rightarrow> stay (ob\<lparr>ob_stage_transition_proof := True\<rparr>, d)))" for st
    by (cases st; cases "oe_head_alive oe")
      (auto simp: keeps_windows_def send_command_def perform_def stay_def leave_def split: option.splits)
  show ?thesis
    unfolding on_transition_proof_succeeded_def
    by (intro keeps_and_then keeps_on_disk keeps_advance staging)
qed

lemma notice_windows:
  assumes "on_bridge_head_transition_notice oe n st = (st', outs, r)"
  shows "ob_latest_current_window (fst st') = (case n of
       FinalityTransitionDetected m \<Rightarrow> Some (et_current_window_proof_inputs_with_window (extension m))
     | _ \<Rightarrow> ob_latest_current_window (fst st))"
    and "ob_latest_next_window (fst st') = (case n of
       FinalityTransitionDetected m \<Rightarrow> et_next_window_proof_inputs_with_window (extension m)
     | _ \<Rightarrow> ob_latest_next_window (fst st))"
    and "StageTransitionProof w \<in> set outs \<Longrightarrow> ob_latest_current_window (fst st') = Some w"
  using assms
  by (cases st; cases "oe_head_alive oe"; cases n;
      auto simp: on_bridge_head_transition_notice_def send_command_eq stay_eq leave_turn and_then_eq Let_def
        split: if_splits option.splits simp del: turn_simps)+


interpretation obs: event_loop "observer_step oe" "caches P" "offers P" "stages P" for oe P
proof
  fix st ev st' outs r
  assume st: "caches P st" and ev: "offers P ev" and step: "observer_step oe st ev = (st', outs, r)"
  have "caches P st' \<and> (\<forall>w. StageTransitionProof w \<in> set outs \<longrightarrow> P w)"
  proof (cases ev)
    case None
    with step st show ?thesis by (auto simp: observer_step_def leave_turn)
  next
    case (Some e)
    show ?thesis
    proof (cases e)
      case (ProofEvent m)
      with Some step st proof_keeps_windows[of st oe m] show ?thesis
        by (auto simp: observer_step_def keeps_windows_def caches_def)
    next
      case (NoticeEvent n)
      with Some step have "on_bridge_head_transition_notice oe n st = (st', outs, r)" by (simp add: observer_step_def)
      from notice_windows[OF this] st ev Some NoticeEvent have "caches P st'"
        by (cases n) (auto simp: caches_def offers_def)
      with notice_windows(3)[OF \<open>on_bridge_head_transition_notice oe n st = (st', outs, r)\<close>] show ?thesis
        by (auto simp: caches_def)
    qed
  qed
  then show "caches P st'" and "\<And>m. m \<in> set outs \<Longrightarrow> stages P m"
    by (auto simp: stages_def split: command.splits)
qed

text \<open>The windows a notice offered during a history of events.\<close>

definition offered_in :: "('w, 'p, 'r) bridge_head_event option list \<Rightarrow> 'w \<Rightarrow> bool" where
  "offered_in evs w \<longleftrightarrow> (\<exists>m. Some (NoticeEvent (FinalityTransitionDetected m)) \<in> set evs \<and>
     (w = et_current_window_proof_inputs_with_window (extension m) \<or>
      et_next_window_proof_inputs_with_window (extension m) = Some w))"

lemma offers_offered: "ev \<in> set evs \<Longrightarrow> offers (offered_in evs) ev"
  by (cases ev) (auto simp: offers_def offered_in_def option.pred_set split: bridge_head_event.splits notice.splits)

lemma staged_offered:
  assumes "run_loop (observer_step oe) (observer_new, d) evs = (st, outs, r)"
  shows "list_all (stages (offered_in evs)) outs"
proof -
  have "caches (offered_in evs) (observer_new, d)" by (simp add: caches_def observer_new_def)
  moreover have "list_all (offers (offered_in evs)) evs" by (simp add: list_all_iff offers_offered)
  ultimately show ?thesis using obs.run_keeps[OF _ _ assms] by blast
qed

section \<open>A retry always has its inputs\<close>

definition retry_ready :: "'w observer_state \<Rightarrow> 'w command list \<Rightarrow> bool" where
  "retry_ready st outs \<longleftrightarrow>
     (ob_latest_next_window (fst st) \<noteq> None \<longrightarrow> ob_latest_current_window (fst st) \<noteq> None) \<and>
     ((\<exists>w. StageTransitionProof w \<in> set outs) \<longrightarrow> ob_latest_current_window (fst st) \<noteq> None)"

lemma retry_ready_step:
  assumes "retry_ready st outs" and "observer_step oe st ev = (st', outs', r)"
  shows "retry_ready st' (outs @ outs')"
proof (cases ev)
  case None
  with assms show ?thesis by (auto simp: observer_step_def leave_turn)
next
  case (Some e)
  show ?thesis
  proof (cases e)
    case (ProofEvent m)
    with Some assms proof_keeps_windows[of st oe m] show ?thesis
      by (auto simp: observer_step_def keeps_windows_def retry_ready_def)
  next
    case (NoticeEvent n)
    with Some assms(2) have n: "on_bridge_head_transition_notice oe n st = (st', outs', r)" by (simp add: observer_step_def)
    from notice_windows(1,2)[OF n] assms(1) notice_windows(3)[OF n] show ?thesis
      unfolding retry_ready_def by (cases n) auto
  qed
qed

lemma retry_ready_run:
  assumes "run_loop (observer_step oe) st evs = (st', outs', r)" and "retry_ready st outs"
  shows "retry_ready st' (outs @ outs')"
  using assms
proof (induction evs arbitrary: st outs outs')
  case (Cons ev evs)
  from Cons.prems(1) consider
    s1 o1 o2 where "observer_step oe st ev = (s1, o1, None)" "run_loop (observer_step oe) s1 evs = (st', o2, r)" "outs' = o1 @ o2" |
    e where "observer_step oe st ev = (st', outs', Some e)"
    by (auto simp: and_then_eq)
  then show ?case
  proof cases
    case 1
    from Cons.IH[OF 1(2) retry_ready_step[OF Cons.prems(2) 1(1)]] 1(3) show ?thesis by simp
  next
    case 2
    from retry_ready_step[OF Cons.prems(2) 2] show ?thesis .
  qed
qed (simp add: stay_def)


section \<open>Concrete histories\<close>

definition sample_observer_env :: "(('x, 'h, 'c, 'u, 'v, 'g) window, bytes, nat) observer_env" where
  "sample_observer_env = \<lparr>oe_env = (\<lambda>_. None), oe_head_alive = True, oe_sp1_version = (\<lambda>_. ''v5''),
     oe_proof_text = Inr, oe_message_text = (\<lambda>m. Inr (pm_proof m)),
     oe_codec = \<lparr>enc_b256 = enc_b256 sample_codec, dec_b256 = dec_b256 sample_codec, enc_address = enc_address sample_codec,
       dec_address = dec_address sample_codec, enc_requests = enc_requests sample_codec,
       dec_requests = dec_requests sample_codec, enc_f64 = enc_f64 sample_codec, dec_f64 = dec_f64 sample_codec,
       dec_window = (\<lambda>_. Inl ''invalid type'')\<rparr>,
     oe_json_text = sample_text\<rparr>"

lemma sample_observer_env_sel [simp]:
  "oe_head_alive sample_observer_env" "oe_env sample_observer_env = (\<lambda>_. None)"
  "oe_sp1_version sample_observer_env p = ''v5''" "oe_proof_text sample_observer_env p = Inr p"
  "oe_message_text sample_observer_env m = Inr (pm_proof m)" "oe_json_text sample_observer_env = sample_text"
  by (simp_all add: sample_observer_env_def)

lemma sample_observer_laws: "text_laws (oe_codec sample_observer_env) sample_text"
  using sample_text_laws
  by (simp add: text_laws_def codec_laws_def enc_checkpoint_def) (simp add: sample_observer_env_def)

definition accepting :: "disk \<Rightarrow> bool" where
  "accepting d \<longleftrightarrow> (\<forall>path. dk_can_create d path) \<and> (\<forall>path. dk_can_write d path)"

lemma accepting_sample: "accepting sample_disk"
  by (simp add: accepting_def sample_disk_def)

lemma accepting_save: "accepting d \<Longrightarrow> \<exists>d'. save_nb_checkpoint K T slot h c d = Inr d' \<and> accepting d'"
  by (auto simp: save_nb_checkpoint_def create_dir_all_def write_file_def accepting_def)

lemma parent_of_file: "CHR ''/'' \<notin> set name \<Longrightarrow> parent_dir (dir @ ''/'' @ name) = dir"
proof -
  assume "CHR ''/'' \<notin> set name"
  then have "dropWhile (\<lambda>c. c \<noteq> CHR ''/'') (rev name @ CHR ''/'' # rev dir) = CHR ''/'' # rev dir"
    by (subst dropWhile_append2) auto
  then show ?thesis by (simp add: parent_dir_def)
qed

lemma show_nat_no_slash: "CHR ''/'' \<notin> set (show_nat n)"
  using show_nat_digits[of "CHR ''/''" n] by (auto simp: is_digit_def)

lemma accepting_proof_file:
  "accepting d \<Longrightarrow> CHR ''/'' \<notin> set v \<Longrightarrow> \<exists>d'. write_proof_file dir env slot v (Inr bs) d = Inr d' \<and> accepting d'"
  using parent_of_file[of "proof_file_name env slot v" dir] show_nat_no_slash
  by (auto simp: write_proof_file_def create_dir_all_def write_file_def accepting_def proof_file_name_def)


lemma and_then_ok: "t = (s, outs, None) \<Longrightarrow> f s = (s', outs', r) \<Longrightarrow> and_then t f = (s', outs @ outs', r)"
  by simp

lemma proof_handled_live:
  assumes d: "accepting d" and alive: "oe_head_alive oe" and v: "CHR ''/'' \<notin> set (oe_sp1_version oe (pm_proof m))"
    and texts: "oe_proof_text oe (pm_proof m) = Inr bs" "oe_message_text oe m = Inr bs'"
  shows "\<exists>st' outs. on_transition_proof_succeeded oe m (ob, d) = (st', outs, None)"
proof -
  let ?ob = "ob\<lparr>ob_current_slot := pm_output_slot m, ob_store_hash := pm_output_store_hash m,
    ob_queue_cursor := pm_output_queue_cursor m\<rparr>"
  obtain d1 where d1: "handle_nori_proof (oe_env oe) (oe_sp1_version oe) (oe_proof_text oe) (pm_proof m) (pm_input_slot m) d = Inr d1"
    "accepting d1"
    using accepting_proof_file[OF d v, of "''./sp1-helios-proofs''" "oe_env oe" "pm_input_slot m" bs] texts(1)
    by (auto simp: handle_nori_proof_def)
  obtain d2 where d2: "handle_nori_proof_message (oe_env oe) (oe_sp1_version oe) (oe_message_text oe) m d1 = Inr d2" "accepting d2"
    using accepting_proof_file[OF d1(2) v, of "''./sp1-helios-proof-messages''" "oe_env oe" "pm_input_slot m" bs'] texts(2)
    by (auto simp: handle_nori_proof_message_def)
  obtain d3 where "save_nb_checkpoint (oe_codec oe) (oe_json_text oe) (pm_output_slot m) (pm_output_store_hash m)
      (pm_output_queue_cursor m) d2 = Inr d3"
    using accepting_save[OF d2(2)] by blast
  then have adv: "observer_advance oe (pm_output_slot m) (pm_output_store_hash m) (pm_output_queue_cursor m) (ob, d2) =
      ((?ob, d3), [Advance \<lparr>am_slot = pm_output_slot m, am_store_hash = pm_output_store_hash m,
         am_queue_cursor = pm_output_queue_cursor m\<rparr>], None)"
    using alive by (simp add: observer_advance_eq Let_def)
  show ?thesis
    unfolding on_transition_proof_succeeded_def
    using d1(1) d2(1) adv alive
    by (cases "ob_latest_next_window ob") (auto simp: on_disk_def stay_def send_command_def perform_def)
qed

definition sample_message :: "(bytes, nat) proof_message" where
  "sample_message = \<lparr>pm_input_slot = 64, pm_input_block_number = 164, pm_input_store_hash = sample_hash 64,
     pm_input_queue_cursor = 0, pm_output_slot = 96, pm_output_block_number = 196, pm_output_store_hash = sample_hash 96,
     pm_output_queue_cursor = 1, pm_proof = [1], pm_execution_state_root = 1, pm_verified_requests_root = 2,
     pm_next_sync_committee_hash = 3, pm_proof_request_queue_address = 7, pm_verified_requests = [], pm_elapsed_sec = 0\<rparr>"

lemma sample_message_handled:
  "\<exists>st' outs. observer_step sample_observer_env (ob, sample_disk) (Some (ProofEvent sample_message)) = (st', outs, None)"
  using proof_handled_live[OF accepting_sample, of sample_observer_env sample_message] by (fastforce simp: observer_step_def)

definition started_notice :: "u64 \<Rightarrow> b256 \<Rightarrow> u64 \<Rightarrow> ('w, 'r) notice" where
  "started_notice slot h c = into_message (ExtStarted \<lparr>es_latest_beacon_slot = slot, es_current_slot = slot,
     es_store_hash = h, es_queue_cursor = c\<rparr>) ''2025-01-01''"

definition finality_notice ::
    "('x, 'h, 'c, 'u, 'v, 'g) window \<Rightarrow> ('x, 'h, 'c, 'u, 'v, 'g) window option \<Rightarrow> (('x, 'h, 'c, 'u, 'v, 'g) window, 'r) notice" where
  "finality_notice w nw = into_message (ExtFinalityTransitionDetected
     \<lparr>et_block_number = wi_expected_output_block_number w, et_slot = wi_expected_output_slot w,
      et_input_slot = wi_input_slot w, et_current_window_proof_inputs_with_window = w,
      et_next_window_proof_inputs_with_window = nw\<rparr>) ''2025-01-01''"

lemma first_finality_staged:
  "run_loop (observer_step sample_observer_env) (observer_new, d)
     [Some (NoticeEvent (started_notice slot h c)), Some (NoticeEvent (finality_notice w nw))] =
   ((observer_new\<lparr>ob_started := True, ob_current_slot := slot, ob_store_hash := h,
       ob_latest_current_window := Some w, ob_latest_next_window := nw\<rparr>, d), [StageTransitionProof w], None)"
  by (simp add: observer_step_def on_bridge_head_transition_notice_def started_notice_def finality_notice_def message_new_def
      stay_def send_command_def perform_def observer_new_def)

text \<open>The retry is not bound to the settled head. If the next window was staged right after a proof and that job
  fails before another finality notice, the window staged again is the one already proved, from
  before the settled head.\<close>

lemma retry_restages_proved_window:
  fixes m :: "(bytes, nat) proof_message"
  assumes "wi_input_slot w2 = pm_output_slot m" and "wi_input_slot w1 < pm_output_slot m" and "accepting d"
    and "ef_n_job_in_buffer (extension f) = 0"
  shows "\<exists>st adv. run_loop (observer_step sample_observer_env) (observer_new, d)
      [Some (NoticeEvent (started_notice slot h c)), Some (NoticeEvent (finality_notice w1 (Some w2))),
       Some (ProofEvent m), Some (NoticeEvent (JobFailed f))] =
      (st, [StageTransitionProof w1, Advance adv, StageTransitionProof w2, StageTransitionProof w1], None) \<and>
    wi_input_slot w1 < ob_current_slot (fst st)"
proof -
  let ?ob = "observer_new\<lparr>ob_started := True, ob_current_slot := slot, ob_store_hash := h,
    ob_latest_current_window := Some w1, ob_latest_next_window := Some w2\<rparr>"
  obtain st outs where t: "on_transition_proof_succeeded sample_observer_env m (?ob, d) = (st, outs, None)"
    using proof_handled_live[OF assms(3), of sample_observer_env m] by fastforce
  have hist: "run_loop (observer_step sample_observer_env) (observer_new, d)
     [Some (NoticeEvent (started_notice slot h c)), Some (NoticeEvent (finality_notice w1 (Some w2)))] =
     ((?ob, d), [StageTransitionProof w1], None)" by (rule first_finality_staged)
  from proof_handled[OF t] assms(1) have st: "ob_latest_current_window (fst st) = Some w1" "ob_current_slot (fst st) = pm_output_slot m"
    and outs: "\<exists>adv. outs = [Advance adv, StageTransitionProof w2]"
    by (auto simp: Let_def)
  have "run_loop (observer_step sample_observer_env) (observer_new, d)
      ([Some (NoticeEvent (started_notice slot h c)), Some (NoticeEvent (finality_notice w1 (Some w2)))] @
       [Some (ProofEvent m), Some (NoticeEvent (JobFailed f))]) =
      (st, [StageTransitionProof w1] @ outs @ [StageTransitionProof w1], None)"
    unfolding run_loop_append hist
    using t st(1) assms(4)
    by (cases st) (simp add: observer_step_def on_bridge_head_transition_notice_def send_command_def perform_def stay_def)
  with outs st(2) assms(2) show ?thesis by fastforce
qed

section \<open>Properties\<close>

text \<open>The observer only stages windows it was offered. In every history of events from its start, whatever fails on
  the way, each window the observer asks the bridge head to prove was the current or the next
  window of a finality notice it received.\<close>

theorem observer_stages_offered:
  assumes "run_loop (observer_step oe) (observer_new, d) evs = (st, outs, r)" and "StageTransitionProof w \<in> set outs"
  shows "offered_in evs w"
  using staged_offered[OF assms(1)] assms(2) by (auto simp: list_all_iff stages_def)

theorem observer_stages_offered_witness:
  "\<exists>w :: (unit, unit, u8, u64, u64, unit) window.
     offered_in [Some (NoticeEvent (started_notice 64 (sample_hash 64) 0)), Some (NoticeEvent (finality_notice w None :: (_, nat) notice))
       :: (_, bytes, nat) bridge_head_event option] w"
  using observer_stages_offered[OF first_finality_staged] by fastforce

text \<open>A settled head is durable. When the observer has handled a proof, a restart runs from the output slot, store
  hash and queue cursor of that proof; the bridge head is told to advance to exactly these; and at most one window
  is staged, only if it starts at the proof's output slot, while otherwise the next finality will be staged.\<close>

theorem settled_head_durable:
  assumes "observer_step oe (ob, d) (Some (ProofEvent m)) = (st', outs, None)" and "text_laws (oe_codec oe) (oe_json_text oe)"
  shows "start_point (oe_codec oe) (oe_json_text oe) (snd st') pu pp pa B H CN env =
      Inr (pm_output_slot m, pm_output_store_hash m, pm_output_queue_cursor m) \<and>
    ob_current_slot (fst st') = pm_output_slot m \<and> ob_store_hash (fst st') = pm_output_store_hash m \<and>
    ob_queue_cursor (fst st') = pm_output_queue_cursor m \<and>
    (\<exists>rest. outs = Advance \<lparr>am_slot = pm_output_slot m, am_store_hash = pm_output_store_hash m,
         am_queue_cursor = pm_output_queue_cursor m\<rparr> # rest \<and>
       (rest = [] \<and> ob_stage_transition_proof (fst st') \<or>
        (\<exists>w. rest = [StageTransitionProof w] \<and> wi_input_slot w = pm_output_slot m \<and> ob_latest_next_window ob = Some w)))"
  using handled_start[OF assms] handled_turn[OF assms(1)] by blast

theorem settled_head_durable_witness:
  "\<exists>(ob :: (unit, unit, u8, u64, u64, unit) window observer) m st' outs.
     observer_step sample_observer_env (ob, sample_disk) (Some (ProofEvent m)) = (st', outs, None) \<and>
     pm_output_slot m = 96 \<and> ob_current_slot (fst st') = 96"
proof -
  let ?ob = "observer_new :: (unit, unit, u8, u64, u64, unit) window observer"
  let ?m = sample_message
  obtain st' outs where t: "observer_step sample_observer_env (?ob, sample_disk) (Some (ProofEvent ?m)) = (st', outs, None)"
    using sample_message_handled by blast
  have laws: "text_laws (oe_codec sample_observer_env) (oe_json_text sample_observer_env)" using sample_observer_laws by simp
  from settled_head_durable[OF t laws, THEN conjunct2, THEN conjunct1] have "ob_current_slot (fst st') = 96"
    by (simp add: sample_message_def)
  with t show ?thesis by (intro exI[of _ ?ob] exI[of _ ?m] exI[of _ st'] exI[of _ outs]) (simp add: sample_message_def)
qed




end
