(* ===== verification/Nori_Boot.thy ===== *)
theory Nori_Boot
  imports Nori_Observer
begin

text \<open>
  The start of the process (\<open>nori/bin/nori_bridge_head.rs\<close> and the beginning of \<open>BridgeHead::run\<close> in
  \<open>nori/src/bridge_head/api.rs\<close>): where to start from, the bridge head, the observer, the prover configuration, the
  consensus proxy and the detector. \<open>Failed\<close> is \<open>panic_more\<close>, which ends the process. Parsers of other crates,
  the beacon nodes and the network are arguments.
\<close>

section \<open>Starting\<close>

record ('a, 'b, 'p) parsers =
  ps_is_private_key :: "string \<Rightarrow> bool"
  ps_is_url :: "string \<Rightarrow> bool"
  ps_address :: "string \<Rightarrow> string + address"
  ps_consensus_url :: "string \<Rightarrow> string + 'p"
  ps_execution_url :: "string \<Rightarrow> string + 'a"
  ps_f64 :: "string \<Rightarrow> string + 'b"

text \<open>\<open>run\<close> up to its loop: the configuration, the proxy, the interval, the detector and the first turn of the head.\<close>

definition head_run_start ::
    "('a, 'r, 'p) parsers \<Rightarrow> ('p, 'b, 'x, 'h, 'c, 'u, 'v, 'g) beacon \<Rightarrow> 'p consensus_net \<Rightarrow> 'r head_env \<Rightarrow> env
      \<Rightarrow> u64 \<Rightarrow> b256 \<Rightarrow> u64 \<Rightarrow> detector_update option \<Rightarrow> ('x, 'h, 'c, 'u, 'v, 'g) window bridge_head
      \<Rightarrow> panic + prover_config \<times> ('p, 'a) consensus_proxy \<times> 'r \<times> detector \<times> ('x, 'h, 'c, 'u, 'v, 'g, 'q, 'r) head_turn" where
  "head_run_start ps B CN he env current_slot store_hash queue_cursor inflight st =
     bind_res (expect ''Failed to load a valid Sp1 config from env''
       (prover_config_from_env (ps_is_private_key ps) (ps_is_url ps) (ps_address ps) env)) (\<lambda>sp1_config.
     bind_res (expect ''try_from_env''
       (consensus_proxy_from_env (ps_consensus_url ps) (ps_execution_url ps) (ps_address ps) env)) (\<lambda>proxy.
     bind_res (start_detector (ps_f64 ps) B env CN proxy current_slot store_hash queue_cursor inflight)
       (\<lambda>(interval, init_latest_beacon_slot, detector).
     Inr (sp1_config, proxy, interval, detector,
          head_start he current_slot store_hash queue_cursor init_latest_beacon_slot st))))"

text \<open>\<open>main\<close>: the observer and the bridge head are spawned as tasks; no job is in flight.\<close>

definition bridge_main ::
    "(('x, 'h, 'c, 'u, 'v, 'g) window, 'r) codec \<Rightarrow> 'r json_text \<Rightarrow> ('a, 'r, 'p) parsers
      \<Rightarrow> ('p, 'b, 'x, 'h, 'c, 'u, 'v, 'g) beacon \<Rightarrow> ('x, 'h, 'c, 'u, 'v, 'g) helios \<Rightarrow> 'p consensus_net \<Rightarrow> 'r head_env \<Rightarrow> env
      \<Rightarrow> disk \<Rightarrow> string fault + ('x, 'h, 'c, 'u, 'v, 'g) window observer \<times> detector \<times> ('x, 'h, 'c, 'u, 'v, 'g, 'q, 'r) head_turn" where
  "bridge_main K T ps B H CN he env d =
     bind_res (map_err Panicked
       (start_point K T d (ps_consensus_url ps) (ps_execution_url ps) (ps_address ps) B H CN env))
       (\<lambda>(current_slot, store_hash, queue_cursor).
     bind_res (map_err Failed (bridge_head_new env)) (\<lambda>bridge_head.
     bind_res (map_err Panicked (head_run_start ps B CN he env current_slot store_hash queue_cursor None bridge_head))
       (\<lambda>(_, _, _, detector, turn).
     Inr (observer_new, detector, turn))))"

section \<open>Lemmas\<close>

lemma head_start_values:
  assumes "head_start he slot h c latest st = (st', outs, r)"
  shows "bh_current_slot st' = slot \<and> bh_store_hash st' = h \<and> bh_queue_cursor st' = c \<and> bh_stage_input_tx st' \<and>
    (r = None \<longrightarrow> outs = [EmitEvent (NoticeEvent (into_message (ExtStarted
       \<lparr>es_latest_beacon_slot = latest, es_current_slot = slot, es_store_hash = h, es_queue_cursor = c\<rparr>) (he_datetime_iso he)))])"
  using assms by (cases "he_observer_alive he")
    (auto simp: head_start_def expect_turn_def trigger_listener_with_notice_def send_on_def Let_def)

lemma bridge_main_values:
  assumes "bridge_main K T ps B H CN he env d = Inr (ob, det, turn)"
    and "start_point K T d (ps_consensus_url ps) (ps_execution_url ps) (ps_address ps) B H CN env = Inr (slot, h, c)"
  shows "ob = observer_new \<and> det = detector_init slot h c None \<and> (\<exists>latest st. turn = head_start he slot h c latest st)"
  using assms
  by (auto simp: bridge_main_def head_run_start_def start_detector_def bind_res_eq_Inr) (intro exI, erule sym)


section \<open>A concrete start\<close>

definition boot_env :: env where
  "boot_env = [''NORI_SOURCE_CHAIN_ID'' \<mapsto> ''1'', ''NORI_SOURCE_EXECUTION_HTTP_RPCS'' \<mapsto> ''a'',
     ''NORI_SOURCE_CONSENSUS_HTTP_RPCS'' \<mapsto> ''a'', ''NORI_PROOF_QUEUE_ADDRESS'' \<mapsto> ''7'',
     ''SP1_PROVER'' \<mapsto> ''mock'', ''SP1_PROOF_TYPE'' \<mapsto> ''plonk'']"

definition sample_parsers :: "(nat, nat, nat) parsers" where
  "sample_parsers = \<lparr>ps_is_private_key = (\<lambda>_. True), ps_is_url = (\<lambda>_. True), ps_address = (\<lambda>_. Inr 7),
     ps_consensus_url = (\<lambda>_. Inr 0), ps_execution_url = (\<lambda>_. Inr 0), ps_f64 = (\<lambda>_. Inr 10)\<rparr>"

lemma boot_config: "is_ok (prover_config_from_env k u a boot_env)"
  by (simp add: prover_config_from_env_def read_proof_type_def boot_env_def)

lemma boot_proxy:
  "\<exists>p. consensus_proxy_from_env (\<lambda>_. Inr 0) (\<lambda>_. Inr (0 :: nat)) (\<lambda>_. Inr 7) boot_env = Inr p \<and> cp_all_providers_urls p = [0 :: nat]"
  by (simp add: consensus_proxy_from_env_def execution_proxy_from_env_def boot_env_def var_opt_def url_list_def trim_def
      is_space_def get_proof_queue_address_def)

lemma boot_detector:
  assumes "cp_all_providers_urls p = [0]"
  shows "get_latest_finality_slot sample_beacon boot_env sample_cnet p = Inr 96"
proof -
  have net: "source_network unset sample_beacon boot_env = Inr (1, 0, ())" for unset
    by (simp add: source_network_def boot_env_def sample_beacon_def parse_u64_def parse_uint_def Let_def)
  have "bind_res (get_latest_checkpoint sample_beacon boot_env) (\<lambda>checkpoint.
      bind_res (bootstrap_from_checkpoint sample_beacon boot_env 0 checkpoint) (\<lambda>client.
      client_latest_finality_slot sample_beacon client)) = Inr 96"
    unfolding get_latest_checkpoint_def bootstrap_from_checkpoint_def client_new_def client_latest_finality_slot_def
      get_latest_finality_update_def net by (simp add: sample_beacon_def)
  then show ?thesis
    unfolding get_latest_finality_slot_def assms
    by (simp add: multiplex_def complete_in_def completion_order_def consensus_reply_def sample_cnet_def)
qed

lemma boot_main:
  assumes "start_point K T d (\<lambda>_. Inr 0) (\<lambda>_. Inr (0 :: nat)) (\<lambda>_. Inr 7) sample_beacon sample_helios sample_cnet boot_env = Inr (slot, h, c)"
  shows "is_ok (bridge_main K T sample_parsers sample_beacon sample_helios sample_cnet sample_head_env boot_env d)"
proof -
  obtain cfg where cfg: "prover_config_from_env (\<lambda>_. True) (\<lambda>_. True) (\<lambda>_. Inr 7) boot_env = Inr cfg"
    using boot_config[of "\<lambda>_. True" "\<lambda>_. True" "\<lambda>_. Inr 7"] by (auto simp: is_ok_iff)
  obtain p where p: "consensus_proxy_from_env (\<lambda>_. Inr 0) (\<lambda>_. Inr (0 :: nat)) (\<lambda>_. Inr 7) boot_env = Inr p"
    "cp_all_providers_urls p = [0 :: nat]" using boot_proxy by blast
  have new: "is_ok (bridge_head_new boot_env :: string + (unit, unit, u8, u64, u64, unit) window bridge_head)"
    by (simp add: bridge_head_new_def validate_env_def required_env_def boot_env_def)
  then show ?thesis
    using assms cfg p(1) boot_detector[OF p(2)]
    by (auto simp: is_ok_iff bridge_main_def head_run_start_def start_detector_def sample_parsers_def split: prod.splits)
      (metis prod_cases3)
qed

section \<open>Properties\<close>

text \<open>C13: A restart resumes the settled head. When the observer has handled a proof and the process is started again on
  the same disk, then, if it starts at all, the bridge head and the detector run from the output slot, store
  hash and queue cursor of that proof, with nothing in flight, and the first notice announces exactly these.\<close>

theorem restart_resumes_settled_head:
  assumes "observer_step oe (ob, d) (Some (ProofEvent m)) = (st, cmds, None)" and "text_laws (oe_codec oe) (oe_json_text oe)"
    and "bridge_main (oe_codec oe) (oe_json_text oe) ps B H CN he env (snd st) = Inr (ob', det, bh, outs, r)"
  shows "det = detector_init (pm_output_slot m) (pm_output_store_hash m) (pm_output_queue_cursor m) None \<and>
    bh_current_slot bh = pm_output_slot m \<and> bh_store_hash bh = pm_output_store_hash m \<and>
    bh_queue_cursor bh = pm_output_queue_cursor m \<and>
    (r = None \<longrightarrow> (\<exists>latest. outs = [EmitEvent (NoticeEvent (into_message (ExtStarted
       \<lparr>es_latest_beacon_slot = latest, es_current_slot = pm_output_slot m, es_store_hash = pm_output_store_hash m,
        es_queue_cursor = pm_output_queue_cursor m\<rparr>) (he_datetime_iso he)))]))"
proof -
  from bridge_main_values[OF assms(3) handled_start[OF assms(1,2)]] obtain latest st0 where
    det: "det = detector_init (pm_output_slot m) (pm_output_store_hash m) (pm_output_queue_cursor m) None" and
    turn: "head_start he (pm_output_slot m) (pm_output_store_hash m) (pm_output_queue_cursor m) latest st0 = (bh, outs, r)"
    by auto
  from head_start_values[OF turn] det show ?thesis by blast
qed

theorem restart_resumes_settled_head_witness:
  "\<exists>(ob :: (unit, unit, u8, u64, u64, unit) window observer) st cmds ob' bh (outs :: (_, _, bytes, nat) head_message list) r.
     observer_step sample_observer_env (ob, sample_disk) (Some (ProofEvent sample_message)) = (st, cmds, None) \<and>
     bridge_main (oe_codec sample_observer_env) sample_text sample_parsers sample_beacon sample_helios sample_cnet
       sample_head_env boot_env (snd st) = Inr (ob', detector_init 96 (sample_hash 96) 1 None, bh, outs, r) \<and>
     bh_current_slot bh = 96"
proof -
  let ?ob = "observer_new :: (unit, unit, u8, u64, u64, unit) window observer"
  obtain st cmds where t: "observer_step sample_observer_env (?ob, sample_disk) (Some (ProofEvent sample_message)) = (st, cmds, None)"
    using sample_message_handled by blast
  have laws: "text_laws (oe_codec sample_observer_env) (oe_json_text sample_observer_env)" using sample_observer_laws by simp
  obtain ob' det bh and outs :: "(_, _, bytes, nat) head_message list" and r where
    main: "bridge_main (oe_codec sample_observer_env) sample_text sample_parsers sample_beacon sample_helios
      sample_cnet sample_head_env boot_env (snd st) = Inr (ob', det, bh, outs, r)"
    using boot_main[OF handled_start[OF t laws], unfolded sample_observer_env_sel] by (auto simp: is_ok_iff)
  from restart_resumes_settled_head[OF t laws, unfolded sample_observer_env_sel, OF main] main t show ?thesis
    by (intro exI[of _ ?ob] exI[of _ st] exI[of _ cmds] exI[of _ ob'] exI[of _ bh] exI[of _ outs] exI[of _ r])
      (simp add: sample_message_def)
qed

end
