(* ===== verification/Nori_System.thy ===== *)
theory Nori_System
  imports Nori_Boot
begin

text \<open>
  The whole process: the detector with its validation worker, the bridge head with its prover tasks and the observer,
  joined by their channels (\<open>nori/src/bridge_head\<close>). Every actor takes a turn when a message waits for it; turns,
  ticks and worker results come in any order. Channels are unbounded queues here; \<open>Nori_Bounded\<close> shows
  that the process with the capacities of the code refines this one. A process that ends (a turn that leaves its loop) has no further states.
\<close>

section \<open>State\<close>

record ('x, 'h, 'c, 'u, 'v, 'g, 'p, 'r) bridge_system =
  sy_detector :: "('x, 'h, 'c, 'u, 'v, 'g) detector_system"
  sy_head :: "('x, 'h, 'c, 'u, 'v, 'g, 'p, 'r) head_system"
  sy_observer :: "('x, 'h, 'c, 'u, 'v, 'g) window observer_state"
  sy_finality :: "('x, 'h, 'c, 'u, 'v, 'g) dual_inputs list"
  sy_stage :: "detector_update list"
  sy_advance :: "detector_update list"
  sy_commands :: "('x, 'h, 'c, 'u, 'v, 'g) window command list"
  sy_events :: "(('x, 'h, 'c, 'u, 'v, 'g) window, 'p, 'r) bridge_head_event list"

text \<open>What a turn of the bridge head puts on the channels, and what a turn of the detector puts on its output channel.\<close>

definition routed_stage :: "('i, 'w, 'p, 'r) head_message list \<Rightarrow> detector_update list" where
  "routed_stage outs = concat (map (\<lambda>m. case m of ToDetectorStage u \<Rightarrow> [u] | _ \<Rightarrow> []) outs)"

definition routed_advance :: "('i, 'w, 'p, 'r) head_message list \<Rightarrow> detector_update list" where
  "routed_advance outs = concat (map (\<lambda>m. case m of ToDetectorAdvance u \<Rightarrow> [u] | _ \<Rightarrow> []) outs)"

definition routed_events :: "('i, 'w, 'p, 'r) head_message list \<Rightarrow> ('w, 'p, 'r) bridge_head_event list" where
  "routed_events outs = concat (map (\<lambda>m. case m of EmitEvent ev \<Rightarrow> [ev] | _ \<Rightarrow> []) outs)"

definition routed_windows :: "('x, 'h, 'c, 'u, 'v, 'g) detector_message list \<Rightarrow> ('x, 'h, 'c, 'u, 'v, 'g) dual_inputs list" where
  "routed_windows outs = concat (map (\<lambda>m. case m of FinalityOutput dual \<Rightarrow> [dual] | StartJob _ \<Rightarrow> []) outs)"

definition head_turn_done ::
    "('x, 'h, 'c, 'u, 'v, 'g, 'p, 'r) head_system
      \<Rightarrow> (('x, 'h, 'c, 'u, 'v, 'g) proof_inputs, ('x, 'h, 'c, 'u, 'v, 'g) window, 'p, 'r) head_message list
      \<Rightarrow> ('x, 'h, 'c, 'u, 'v, 'g, 'p, 'r) bridge_system \<Rightarrow> ('x, 'h, 'c, 'u, 'v, 'g, 'p, 'r) bridge_system" where
  "head_turn_done hs outs s = s\<lparr>sy_head := fold head_deliver outs hs, sy_stage := sy_stage s @ routed_stage outs,
     sy_advance := sy_advance s @ routed_advance outs, sy_events := sy_events s @ routed_events outs\<rparr>"

definition detector_turn_done ::
    "('x, 'h, 'c, 'u, 'v, 'g) detector_system \<Rightarrow> ('x, 'h, 'c, 'u, 'v, 'g) detector_message list
      \<Rightarrow> ('x, 'h, 'c, 'u, 'v, 'g, 'p, 'r) bridge_system \<Rightarrow> ('x, 'h, 'c, 'u, 'v, 'g, 'p, 'r) bridge_system" where
  "detector_turn_done ds outs s = s\<lparr>sy_detector := fold (deliver (ds_detector (sy_detector s))) outs ds,
     sy_finality := sy_finality s @ routed_windows outs\<rparr>"

section \<open>Reachable states\<close>

inductive bridge_reach ::
    "('p \<Rightarrow> bytes) \<Rightarrow> (('x, 'h, 'c, 'u, 'v, 'g) proof_inputs \<Rightarrow> 'p \<Rightarrow> bool) \<Rightarrow> ('x, 'h, 'c, 'u, 'v, 'g) preparation set
      \<Rightarrow> (('x, 'h, 'c, 'u, 'v, 'g) window, 'p, 'r) observer_env \<Rightarrow> disk
      \<Rightarrow> u64 \<times> b256 \<times> u64 \<Rightarrow> ('x, 'h, 'c, 'u, 'v, 'g, 'p, 'r) bridge_system \<Rightarrow> bool"
  for public_values :: "'p \<Rightarrow> bytes" and proves :: "('x, 'h, 'c, 'u, 'v, 'g) proof_inputs \<Rightarrow> 'p \<Rightarrow> bool"
    and answers :: "('x, 'h, 'c, 'u, 'v, 'g) preparation set"
    and oe :: "(('x, 'h, 'c, 'u, 'v, 'g) window, 'p, 'r) observer_env" and disk0 :: disk and start :: "u64 \<times> b256 \<times> u64" where
  boot: "bridge_head_new env = Inr st0 \<Longrightarrow> start = (slot, h, c) \<Longrightarrow>
    head_start he slot h c latest st0 = (st, outs, None) \<Longrightarrow>
    bridge_reach public_values proves answers oe disk0 start
      (head_turn_done \<lparr>hs_head = st, hs_running = [], hs_staged = [], hs_events = []\<rparr> outs
        \<lparr>sy_detector = detector_boot (detector_init slot h c None),
         sy_head = \<lparr>hs_head = st, hs_running = [], hs_staged = [], hs_events = []\<rparr>, sy_observer = (observer_new, disk0),
         sy_finality = [], sy_stage = [], sy_advance = [], sy_commands = [], sy_events = []\<rparr>)"
| tick: "bridge_reach public_values proves answers oe disk0 start s \<Longrightarrow>
    detector_step True True (ds_detector (sy_detector s)) PollTick = (d', outs, None) \<Longrightarrow>
    bridge_reach public_values proves answers oe disk0 start (detector_turn_done (sy_detector s\<lparr>ds_detector := d'\<rparr>) outs s)"
| detector_stage: "bridge_reach public_values proves answers oe disk0 start s \<Longrightarrow> sy_stage s = u # us \<Longrightarrow>
    detector_step True True (ds_detector (sy_detector s)) (StageInput (Some u)) = (d', outs, None) \<Longrightarrow>
    bridge_reach public_values proves answers oe disk0 start
      (detector_turn_done (sy_detector s\<lparr>ds_detector := d'\<rparr>) outs (s\<lparr>sy_stage := us\<rparr>))"
| detector_advance: "bridge_reach public_values proves answers oe disk0 start s \<Longrightarrow> sy_advance s = u # us \<Longrightarrow>
    detector_step True True (ds_detector (sy_detector s)) (AdvanceInput (Some u)) = (d', outs, None) \<Longrightarrow>
    bridge_reach public_values proves answers oe disk0 start
      (detector_turn_done (sy_detector s\<lparr>ds_detector := d'\<rparr>) outs (s\<lparr>sy_advance := us\<rparr>))"
| detector_result: "bridge_reach public_values proves answers oe disk0 start s \<Longrightarrow> ds_result_chan (sy_detector s) = Some r \<Longrightarrow>
    detector_step True True (ds_detector (sy_detector s)) (ValidationResult (Some r)) = (d', outs, None) \<Longrightarrow>
    bridge_reach public_values proves answers oe disk0 start
      (detector_turn_done (sy_detector s\<lparr>ds_detector := d', ds_result_chan := None\<rparr>) outs s)"
| take_job: "bridge_reach public_values proves answers oe disk0 start s \<Longrightarrow> ds_job_chan (sy_detector s) = Some j \<Longrightarrow>
    ds_working (sy_detector s) = None \<Longrightarrow>
    bridge_reach public_values proves answers oe disk0 start
      (s\<lparr>sy_detector := sy_detector s\<lparr>ds_job_chan := None, ds_working := Some j\<rparr>\<rparr>)"
| finish_job: "bridge_reach public_values proves answers oe disk0 start s \<Longrightarrow> ds_working (sy_detector s) = Some j \<Longrightarrow>
    ds_result_chan (sy_detector s) = None \<Longrightarrow> p \<in> answers \<Longrightarrow> q \<in> answers \<Longrightarrow>
    worker_result (run_validation_job p q j) = Some r \<Longrightarrow>
    bridge_reach public_values proves answers oe disk0 start
      (s\<lparr>sy_detector := sy_detector s\<lparr>ds_working := None, ds_result_chan := Some r\<rparr>\<rparr>)"
| head_finality: "bridge_reach public_values proves answers oe disk0 start s \<Longrightarrow> sy_finality s = dual # duals \<Longrightarrow>
    head_step public_values he (hs_head (sy_head s)) (FinalityInput (Some dual)) = (st, outs, None) \<Longrightarrow>
    bridge_reach public_values proves answers oe disk0 start
      (head_turn_done (sy_head s\<lparr>hs_head := st\<rparr>) outs (s\<lparr>sy_finality := duals\<rparr>))"
| head_stages: "bridge_reach public_values proves answers oe disk0 start s \<Longrightarrow> sy_commands s = StageTransitionProof w # cs \<Longrightarrow>
    head_step public_values he (hs_head (sy_head s)) (CommandInput (Some (StageTransitionProof w))) = (st, outs, None) \<Longrightarrow>
    bridge_reach public_values proves answers oe disk0 start
      (head_turn_done (sy_head s\<lparr>hs_head := st, hs_staged := hs_staged (sy_head s) @ [w]\<rparr>) outs (s\<lparr>sy_commands := cs\<rparr>))"
| head_advances: "bridge_reach public_values proves answers oe disk0 start s \<Longrightarrow> sy_commands s = Advance m # cs \<Longrightarrow>
    head_step public_values he (hs_head (sy_head s)) (CommandInput (Some (Advance m))) = (st, outs, None) \<Longrightarrow>
    bridge_reach public_values proves answers oe disk0 start
      (head_turn_done (sy_head s\<lparr>hs_head := st\<rparr>) outs (s\<lparr>sy_commands := cs\<rparr>))"
| head_job_result: "bridge_reach public_values proves answers oe disk0 start s \<Longrightarrow>
    (result_job_id r, inputs) \<in> set (hs_running (sy_head s)) \<Longrightarrow>
    (\<And>res. r = Inr res \<Longrightarrow> proves inputs (pj_proof res)) \<Longrightarrow>
    head_step public_values he (hs_head (sy_head s)) (JobResult (Some r)) = (st, outs, None) \<Longrightarrow>
    bridge_reach public_values proves answers oe disk0 start
      (head_turn_done (sy_head s\<lparr>hs_head := st,
         hs_running := filter (\<lambda>(k, _). k \<noteq> result_job_id r) (hs_running (sy_head s))\<rparr>) outs s)"
| observes: "bridge_reach public_values proves answers oe disk0 start s \<Longrightarrow> sy_events s = ev # evs \<Longrightarrow>
    observer_step oe (sy_observer s) (Some ev) = (ob, cmds, None) \<Longrightarrow>
    bridge_reach public_values proves answers oe disk0 start
      (s\<lparr>sy_observer := ob, sy_commands := sy_commands s @ cmds, sy_events := evs\<rparr>)"


section \<open>Channels\<close>

lemma routed_simps [simp]:
  "routed_stage [] = []" "routed_advance [] = []" "routed_events [] = []" "routed_windows [] = []"
  "routed_advance (SpawnJob k slot i # outs) = routed_advance outs"
  "routed_advance (ToDetectorStage u # outs) = routed_advance outs"
  "routed_advance (ToDetectorAdvance u # outs) = u # routed_advance outs"
  "routed_advance (EmitEvent ev # outs) = routed_advance outs"
  "routed_events (SpawnJob k slot i # outs) = routed_events outs"
  "routed_events (ToDetectorStage u # outs) = routed_events outs"
  "routed_events (ToDetectorAdvance u # outs) = routed_events outs"
  "routed_events (EmitEvent ev # outs) = ev # routed_events outs"
  "routed_windows (StartJob j # douts) = routed_windows douts"
  "routed_windows (FinalityOutput dual # douts) = dual # routed_windows douts"
  by (simp_all add: routed_stage_def routed_advance_def routed_events_def routed_windows_def)

lemma events_delivered: "hs_events (fold head_deliver outs hs) = hs_events hs @ routed_events outs"
  by (induction outs arbitrary: hs) (simp_all add: head_deliver_def routed_events_def split: head_message.splits)

lemma staged_delivered: "hs_staged (fold head_deliver outs hs) = hs_staged hs"
  by (induction outs arbitrary: hs) (simp_all add: head_deliver_def split: head_message.splits)

lemma head_delivered: "hs_head (fold head_deliver outs hs) = hs_head hs"
  by (induction outs arbitrary: hs) (simp_all add: head_deliver_def split: head_message.splits)

lemma detector_delivered: "ds_detector (fold (deliver d) outs ds) = ds_detector ds"
  by (induction outs arbitrary: ds) (simp_all add: deliver_def split: detector_message.splits)

lemma emitted_delivered: "snd ` set (ds_emitted (fold (deliver d) outs ds)) = snd ` set (ds_emitted ds) \<union> set (routed_windows outs)"
  by (induction outs arbitrary: ds) (auto simp: deliver_def routed_windows_def split: detector_message.splits)

section \<open>The settled head\<close>

definition head_triple :: "'w bridge_head \<Rightarrow> u64 \<times> b256 \<times> u64" where
  "head_triple st = (bh_current_slot st, bh_store_hash st, bh_queue_cursor st)"

definition detector_triple :: "detector \<Rightarrow> u64 \<times> b256 \<times> u64" where
  "detector_triple d = (d_slot d, d_store_hash d, d_queue_cursor d)"

definition update_triple :: "detector_update \<Rightarrow> u64 \<times> b256 \<times> u64" where
  "update_triple u = (fu_slot u, fu_store_hash u, fu_queue_cursor u)"

definition advance_triple :: "advance_message \<Rightarrow> u64 \<times> b256 \<times> u64" where
  "advance_triple m = (am_slot m, am_store_hash m, am_queue_cursor m)"

definition proof_triple :: "('p, 'r) proof_message \<Rightarrow> u64 \<times> b256 \<times> u64" where
  "proof_triple pm = (pm_output_slot pm, pm_output_store_hash pm, pm_output_queue_cursor pm)"

lemmas triple_defs = head_triple_def detector_triple_def update_triple_def advance_triple_def proof_triple_def

text \<open>A head that is where the process started or the output of a proof published since.\<close>

definition settled ::
    "u64 \<times> b256 \<times> u64 \<Rightarrow> (('x, 'h, 'c, 'u, 'v, 'g) window, 'p, 'r) bridge_head_event list \<Rightarrow> u64 \<times> b256 \<times> u64 \<Rightarrow> bool" where
  "settled start evs t \<longleftrightarrow> t = start \<or> (\<exists>pm. ProofEvent pm \<in> set evs \<and> t = proof_triple pm)"

lemma settled_more: "settled start evs t \<Longrightarrow> settled start (evs @ evs') t"
  by (auto simp: settled_def)

lemma detector_turn_triple:
  assumes "detector_step True True d ev = (d', outs, None)"
  shows "detector_triple d' = (case ev of AdvanceInput (Some u) \<Rightarrow> update_triple u | _ \<Rightarrow> detector_triple d)"
  using assms
  by (cases ev) (auto simp: detector_turn_defs triple_defs split: option.splits sum.splits if_splits)

text \<open>The five turns of the bridge head that do not leave the loop.\<close>

lemma head_step_cases:
  assumes "head_step pv he st ev = (st', outs, None)"
  obtains (finality) dual where "ev = FinalityInput (Some dual)" "on_beacon_finality_change he dual st = (st', outs, None)"
  | (stage) w where "ev = CommandInput (Some (StageTransitionProof w))" "stage_transition_proof he w st = (st', outs, None)"
  | (advance) m where "ev = CommandInput (Some (Advance m))"
  | (success) res where "ev = JobResult (Some (Inr res))"
      "handle_prover_success pv he (pj_job_id res) (pj_proof res) st = (st', outs, None)"
  | (failure) err where "ev = JobResult (Some (Inl err))" "handle_prover_failure he err st = (st', outs, None)"
  using assms
  by (auto simp: head_step_def leave_turn split: head_event.splits option.splits command.splits sum.splits)

lemma head_turn_triple:
  assumes "head_step pv he st ev = (st', outs, None)"
  shows "head_triple st' = (case ev of CommandInput (Some (Advance m)) \<Rightarrow> advance_triple m | _ \<Rightarrow> head_triple st) \<and>
    map update_triple (routed_advance outs) = (case ev of CommandInput (Some (Advance m)) \<Rightarrow> [advance_triple m] | _ \<Rightarrow> [])"
  using assms
proof (cases rule: head_step_cases)
  case (finality dual)
  with finality_turn[OF finality(2)] show ?thesis by (auto simp: triple_defs)
next
  case (stage w)
  with stage_turn[OF stage(2)] show ?thesis by (auto simp: triple_defs)
next
  case (advance m)
  with assms show ?thesis by (simp add: head_step_def head_advance_def turn_ok Let_def) (auto simp: triple_defs)
next
  case (success res)
  with success_turn[OF success(2)] show ?thesis by (auto simp: triple_defs)
next
  case (failure err)
  with failure_turn[OF failure(2)] show ?thesis by (auto simp: triple_defs)
qed

lemma head_turn_offers:
  assumes "head_step pv he st ev = (st', outs, None)"
    and "\<And>dual. ev = FinalityInput (Some dual) \<Longrightarrow> P (current_window dual) \<and> pred_option P (next_window dual)"
  shows "\<forall>e \<in> set (routed_events outs). offers P (Some e)"
  using assms(1)
proof (cases rule: head_step_cases)
  case (finality dual)
  with assms(2)[OF finality(1)] show ?thesis
    by (auto simp: on_beacon_finality_change_def turn_ok stay_def offers_def message_new_def)
next
  case (stage w)
  then show ?thesis unfolding stage_transition_proof_def Let_def turn_ok by (auto simp: offers_def)
next
  case (advance m)
  with assms(1) show ?thesis by (auto simp: head_step_def head_advance_def turn_ok Let_def offers_def)
next
  case (success res)
  then show ?thesis
    by (auto simp: handle_prover_success_def Let_def turn_ok offers_def split: option.splits sum.splits)
next
  case (failure err)
  then show ?thesis by (auto simp: handle_prover_failure_def Let_def turn_ok offers_def split: option.splits)
qed

lemma observer_turn_advance:
  assumes "observer_step oe st (Some ev) = (st', cmds, None)" and "Advance m \<in> set cmds"
  shows "\<exists>pm. ev = ProofEvent pm \<and> advance_triple m = proof_triple pm"
proof (cases ev)
  case (ProofEvent pm)
  with assms handled_turn[of oe "fst st" "snd st" pm st' cmds] show ?thesis by (auto simp: triple_defs)
next
  case (NoticeEvent n)
  with assms show ?thesis
    by (cases st; cases "oe_head_alive oe"; cases n)
      (auto simp: observer_step_def on_bridge_head_transition_notice_def send_command_eq stay_eq leave_turn and_then_eq Let_def
        split: if_splits option.splits simp del: turn_simps)
qed

section \<open>Projections\<close>

text \<open>A run of the process is a run of the detector (and of the bridge head, see \<open>Nori_Chain\<close>).\<close>

lemma turn_done_sel [simp]:
  "sy_detector (detector_turn_done ds outs s) = fold (deliver (ds_detector (sy_detector s))) outs ds"
  "sy_finality (detector_turn_done ds outs s) = sy_finality s @ routed_windows outs"
  "sy_head (detector_turn_done ds outs s) = sy_head s" "sy_observer (detector_turn_done ds outs s) = sy_observer s"
  "sy_stage (detector_turn_done ds outs s) = sy_stage s" "sy_advance (detector_turn_done ds outs s) = sy_advance s"
  "sy_commands (detector_turn_done ds outs s) = sy_commands s" "sy_events (detector_turn_done ds outs s) = sy_events s"
  "sy_head (head_turn_done hs mouts s) = fold head_deliver mouts hs" "sy_detector (head_turn_done hs mouts s) = sy_detector s"
  "sy_observer (head_turn_done hs mouts s) = sy_observer s" "sy_finality (head_turn_done hs mouts s) = sy_finality s"
  "sy_stage (head_turn_done hs mouts s) = sy_stage s @ routed_stage mouts"
  "sy_advance (head_turn_done hs mouts s) = sy_advance s @ routed_advance mouts"
  "sy_commands (head_turn_done hs mouts s) = sy_commands s"
  "sy_events (head_turn_done hs mouts s) = sy_events s @ routed_events mouts"
  by (simp_all add: detector_turn_done_def head_turn_done_def)

lemma system_detector:
  assumes "bridge_reach pv proves answers oe disk0 start s" and "start = (slot, h, c)"
  shows "detector_reach answers (detector_init slot h c None) (sy_detector s)"
  using assms(1)
proof induction
  case boot
  with assms(2) show ?case by (simp add: detector_reach.boot)
next
  case (tick s d' outs)
  from detector_reach.input[OF tick.IH _ tick.hyps(2)] show ?case by simp
next
  case (detector_stage s u us d' outs)
  from detector_reach.input[OF detector_stage.IH _ detector_stage.hyps(3), of u] show ?case by simp
next
  case (detector_advance s u us d' outs)
  from detector_reach.input[OF detector_advance.IH _ detector_advance.hyps(3), of u] show ?case by simp
next
  case (detector_result s r d' outs)
  from detector_reach.result[OF detector_result.IH detector_result.hyps(2,3)] show ?case by simp
qed (simp_all add: detector_reach.take_job detector_reach.finish_job)

lemma system_finality:
  assumes "bridge_reach pv proves answers oe disk0 start s"
  shows "set (sy_finality s) \<subseteq> snd ` set (ds_emitted (sy_detector s))"
  using assms by induction (auto simp: emitted_delivered)

section \<open>Every head in the system is settled\<close>

definition all_settled ::
    "u64 \<times> b256 \<times> u64 \<Rightarrow> ('x, 'h, 'c, 'u, 'v, 'g, 'p, 'r) bridge_system \<Rightarrow> bool" where
  "all_settled start s \<longleftrightarrow>
     (let ok = settled start (hs_events (sy_head s)) in
      set (sy_events s) \<subseteq> set (hs_events (sy_head s)) \<and>
      ok (head_triple (hs_head (sy_head s))) \<and> ok (detector_triple (ds_detector (sy_detector s))) \<and>
      (\<forall>u \<in> set (sy_advance s). ok (update_triple u)) \<and> (\<forall>m. Advance m \<in> set (sy_commands s) \<longrightarrow> ok (advance_triple m)))"

lemma settled_head_turn:
  assumes "all_settled start s" and "head_step pv he (hs_head (sy_head s)) ev = (st, outs, None)"
    and "sy_commands s = old @ sy_commands s1" and "\<And>m. ev = CommandInput (Some (Advance m)) \<Longrightarrow> Advance m \<in> set old"
    and "hs_head hs = st" "hs_events hs = hs_events (sy_head s)"
    and "sy_events s1 = sy_events s" "sy_advance s1 = sy_advance s" "sy_detector s1 = sy_detector s"
  shows "all_settled start (head_turn_done hs outs s1)"
proof -
  let ?ok = "settled start (hs_events (sy_head s))"
  have adv: "?ok (advance_triple m)" if "ev = CommandInput (Some (Advance m))" for m
    using assms(1,3) assms(4)[OF that] by (auto simp: all_settled_def Let_def)
  from assms(1) have old: "?ok (head_triple (hs_head (sy_head s)))" by (simp add: all_settled_def Let_def)
  note t = head_turn_triple[OF assms(2)]
  from t adv old have "?ok (head_triple st)" by (auto split: head_event.splits option.splits command.splits)
  moreover from t adv have "\<forall>x \<in> set (map update_triple (routed_advance outs)). ?ok x"
    by (auto split: head_event.splits option.splits command.splits simp del: set_map)
  ultimately show ?thesis using assms(1,3,5-9)
    by (auto simp: all_settled_def Let_def head_delivered events_delivered intro: settled_more)
qed

lemma settled_detector_turn:
  assumes "all_settled start s" and "detector_step True True (ds_detector (sy_detector s)) ev = (d', outs, None)"
    and "sy_advance s = old @ sy_advance s1" and "\<And>u. ev = AdvanceInput (Some u) \<Longrightarrow> u \<in> set old"
    and "ds_detector ds = d'" "sy_events s1 = sy_events s" "sy_commands s1 = sy_commands s" "sy_head s1 = sy_head s"
  shows "all_settled start (detector_turn_done ds outs s1)"
proof -
  have "settled start (hs_events (sy_head s)) (detector_triple d')"
    using assms(1,3,4) detector_turn_triple[OF assms(2)]
    by (auto simp: all_settled_def Let_def split: detector_event.splits option.splits)
  with assms(1,3,5-8) show ?thesis by (auto simp: all_settled_def Let_def detector_delivered)
qed

lemma system_settled:
  assumes "bridge_reach pv proves answers oe disk0 start s"
  shows "all_settled start s"
  using assms
proof induction
  case (boot env st0 slot h c he latest st outs)
  from start_turn[OF boot(3)] obtain n where outs: "outs = [EmitEvent (NoticeEvent n)]" and "head_triple st = start"
    by (auto simp: boot(2) triple_defs)
  then show ?case by (simp add: all_settled_def settled_def boot(2) triple_defs detector_boot_def detector_init_def)
next
  case (tick s d' outs)
  from settled_detector_turn[OF tick.IH tick.hyps(2), of "[]"] show ?case by simp
next
  case (detector_stage s u us d' outs)
  from settled_detector_turn[OF detector_stage.IH detector_stage.hyps(3), of "[]"] show ?case by simp
next
  case (detector_advance s u us d' outs)
  from settled_detector_turn[OF detector_advance.IH detector_advance.hyps(3), of "[u]"] detector_advance.hyps(2) show ?case by simp
next
  case (detector_result s r d' outs)
  from settled_detector_turn[OF detector_result.IH detector_result.hyps(3), of "[]"] show ?case by simp
next
  case (head_finality s dual duals he st outs)
  from settled_head_turn[OF head_finality.IH head_finality.hyps(3), of "[]"] show ?case by simp
next
  case (head_stages s w cs he st outs)
  from settled_head_turn[OF head_stages.IH head_stages.hyps(3), of "[_]"] head_stages.hyps(2) show ?case by simp
next
  case (head_advances s m cs he st outs)
  from settled_head_turn[OF head_advances.IH head_advances.hyps(3), of "[Advance m]"] head_advances.hyps(2) show ?case by simp
next
  case (head_job_result s r inputs he st outs)
  from settled_head_turn[OF head_job_result.IH head_job_result.hyps(4), of "[]"] show ?case by simp
next
  case (observes s ev evs ob cmds)
  from observes.IH observes.hyps(2) have "ev \<in> set (hs_events (sy_head s))" by (auto simp: all_settled_def Let_def)
  then have "settled start (hs_events (sy_head s)) (advance_triple m)" if "Advance m \<in> set cmds" for m
    using observer_turn_advance[OF observes.hyps(3) that] by (auto simp: settled_def)
  with observes.IH observes.hyps(2) show ?case by (auto simp: all_settled_def Let_def)
qed (simp_all add: all_settled_def)

text \<open>Every window the detector hands over was prepared when the detector held a settled head.\<close>

lemma emitted_log: "ds_emitted (fold (deliver d) outs ds) = ds_emitted ds @ map (Pair d) (routed_windows outs)"
  by (induction outs arbitrary: ds) (simp_all add: deliver_def routed_windows_def split: detector_message.splits)

lemma all_settled_detector:
  "all_settled start s \<Longrightarrow> settled start (hs_events (sy_head s)) (detector_triple (ds_detector (sy_detector s)))"
  by (simp add: all_settled_def Let_def)

lemma system_emitted:
  assumes "bridge_reach pv proves answers oe disk0 start s"
  shows "\<forall>(d, dual) \<in> set (ds_emitted (sy_detector s)). settled start (hs_events (sy_head s)) (detector_triple d)"
  using assms
proof induction
  case (boot env st0 slot h c he latest st outs)
  then show ?case by (simp add: detector_boot_def)
qed (auto simp: emitted_log events_delivered intro: settled_more system_settled[THEN all_settled_detector])

section \<open>The disk\<close>

text \<open>What a restart would read: what the process itself started from, or the output of a published proof.\<close>

lemma notice_disk:
  "on_bridge_head_transition_notice oe n st = (st', cmds, r) \<Longrightarrow> snd st' = snd st"
  by (cases st; cases "oe_head_alive oe"; cases n;
      auto simp: on_bridge_head_transition_notice_def send_command_eq stay_eq leave_turn and_then_eq Let_def
        split: if_splits option.splits simp del: turn_simps)

lemma system_disk:
  assumes "bridge_reach pv proves answers oe disk0 start s" and "text_laws (oe_codec oe) (oe_json_text oe)"
  shows "snd (sy_observer s) = disk0 \<or> (\<exists>pm. ProofEvent pm \<in> set (hs_events (sy_head s)) \<and>
    resumes_at (oe_codec oe) (oe_json_text oe) (snd (sy_observer s)) (proof_triple pm))"
  using assms(1)
proof induction
  case (observes s ev evs ob cmds)
  show ?case
  proof (cases ev)
    case (ProofEvent pm)
    from system_settled[OF observes.hyps(1)] observes.hyps(2) ProofEvent have "ProofEvent pm \<in> set (hs_events (sy_head s))"
      by (auto simp: all_settled_def Let_def)
    moreover from observes.hyps(3) ProofEvent
    have step: "observer_step oe (fst (sy_observer s), snd (sy_observer s)) (Some (ProofEvent pm)) = (ob, cmds, None)" by simp
    ultimately show ?thesis
      by (intro disjI2 exI[of _ pm]) (simp add: proof_triple_def handled_resumes[OF step assms(2)])
  next
    case (NoticeEvent n)
    with observes.hyps(3) have "snd ob = snd (sy_observer s)" by (auto simp: observer_step_def dest: notice_disk)
    with observes.IH show ?thesis by simp
  qed
qed (auto simp: events_delivered)

end
