(* ===== verification/Nori_Chain.thy ===== *)
theory Nori_Chain
  imports Nori_System
begin

text \<open>
  Where proofs start. Every window on its way through the process of \<open>Nori_System\<close> was prepared from a settled head or from
  the expected output of a window staged before, so the published proofs hang together. The anchors grow during a run,
  so the invariant is stated for every set \<open>A\<close> of heads that contains the anchors of the state reached.
\<close>

section \<open>Anchors\<close>

definition expected_triple :: "('x, 'h, 'c, 'u, 'v, 'g) window \<Rightarrow> u64 \<times> b256 \<times> u64" where
  "expected_triple w = (wi_expected_output_slot w, wi_expected_output_store_hash w, batch_end w)"

definition anchored ::
    "u64 \<times> b256 \<times> u64 \<Rightarrow> ('x, 'h, 'c, 'u, 'v, 'g, 'p, 'r) bridge_system \<Rightarrow> u64 \<times> b256 \<times> u64 \<Rightarrow> bool" where
  "anchored start s t \<longleftrightarrow> settled start (hs_events (sy_head s)) t \<or> t \<in> expected_triple ` set (hs_staged (sy_head s))"

definition prepared_at ::
    "('x, 'h, 'c, 'u, 'v, 'g) preparation set \<Rightarrow> (u64 \<times> b256 \<times> u64 \<Rightarrow> bool) \<Rightarrow> ('x, 'h, 'c, 'u, 'v, 'g) window \<Rightarrow> bool" where
  "prepared_at answers A w \<longleftrightarrow> (\<exists>p \<in> answers. \<exists>slot h c. p slot h c True = Inr w \<and> A (slot, h, c))"

lemma prepared_atI: "p \<in> answers \<Longrightarrow> p slot h c True = Inr w \<Longrightarrow> A (slot, h, c) \<Longrightarrow> prepared_at answers A w"
  by (auto simp: prepared_at_def)

text \<open>What is under way: staged updates and the detector's next expected output are anchors, and what goes between the
  bridge head and the observer concerns windows prepared at anchors.\<close>

definition links :: "(u64 \<times> b256 \<times> u64 \<Rightarrow> bool) \<Rightarrow> ('x, 'h, 'c, 'u, 'v, 'g, 'p, 'r) bridge_system \<Rightarrow> bool" where
  "links A s \<longleftrightarrow> (\<forall>u \<in> set (sy_stage s). A (update_triple u)) \<and>
     pred_option (A \<circ> update_triple) (d_next_expected_output (ds_detector (sy_detector s))) \<and>
     (\<forall>(d, dual) \<in> set (ds_emitted (sy_detector s)). A (detector_triple d) \<and> pred_option (A \<circ> update_triple) (d_next_expected_output d))"

definition traffic :: "(('x, 'h, 'c, 'u, 'v, 'g) window \<Rightarrow> bool) \<Rightarrow> ('x, 'h, 'c, 'u, 'v, 'g, 'p, 'r) bridge_system \<Rightarrow> bool" where
  "traffic P s \<longleftrightarrow> (\<forall>ev \<in> set (sy_events s). offers P (Some ev)) \<and> caches P (sy_observer s) \<and>
     (\<forall>c \<in> set (sy_commands s). stages P c)"

section \<open>Turns\<close>

lemma detector_turn_next:
  assumes "detector_step True True d ev = (d', outs, None)"
  shows "d_next_expected_output d' = None \<or> d_next_expected_output d' = d_next_expected_output d \<or>
    (\<exists>u. ev = StageInput (Some u) \<and> d_next_expected_output d' = Some u)"
  using assms
  by (cases ev) (auto simp: detector_turn_defs split: option.splits sum.splits if_splits)

lemma head_turn_stage:
  assumes "head_step pv he st ev = (st', outs, None)"
  shows "map update_triple (routed_stage outs) =
    (case ev of CommandInput (Some (StageTransitionProof w)) \<Rightarrow> [expected_triple w] | _ \<Rightarrow> [])"
  using assms
proof (cases rule: head_step_cases)
  case (finality dual)
  with finality_turn[OF finality(2)] show ?thesis by (auto simp: routed_stage_def)
next
  case (stage w)
  then show ?thesis
    unfolding stage_transition_proof_def Let_def turn_ok
    by (auto simp: routed_stage_def update_triple_def expected_triple_def)
next
  case (advance m)
  with assms advance_turn[of pv he st m st' outs] show ?thesis by (auto simp: routed_stage_def)
next
  case (success res)
  with success_turn[OF success(2)] show ?thesis by (auto simp: routed_stage_def)
next
  case (failure err)
  with failure_turn[OF failure(2)] show ?thesis by (auto simp: routed_stage_def)
qed

lemma traffic_head_turn:
  assumes "traffic P s" and "head_step pv he st ev = (st', outs, None)"
    and "\<And>dual. ev = FinalityInput (Some dual) \<Longrightarrow> P (current_window dual) \<and> pred_option P (next_window dual)"
    and "sy_events s1 = sy_events s" "sy_observer s1 = sy_observer s" "sy_commands s = old @ sy_commands s1"
  shows "traffic P (head_turn_done hs outs s1)"
  using head_turn_offers[OF assms(2,3)] assms(1,4-6) by (auto simp: traffic_def)

lemma links_head_turn:
  assumes "links A s" and "head_step pv he st ev = (st', outs, None)"
    and "\<And>w. ev = CommandInput (Some (StageTransitionProof w)) \<Longrightarrow> A (expected_triple w)"
    and "sy_stage s1 = sy_stage s" "sy_detector s1 = sy_detector s"
  shows "links A (head_turn_done hs outs s1)"
proof -
  from head_turn_stage[OF assms(2)] assms(3) have "\<forall>t \<in> set (map update_triple (routed_stage outs)). A t"
    by (auto split: head_event.splits option.splits command.splits simp del: set_map)
  with assms(1,4,5) show ?thesis by (auto simp: links_def)
qed

lemma links_detector_turn:
  assumes "links A s" and "detector_step True True (ds_detector (sy_detector s)) ev = (d', outs, None)"
    and "sy_stage s = old @ sy_stage s1" and "\<And>u. ev = StageInput (Some u) \<Longrightarrow> u \<in> set old"
    and "A (detector_triple (ds_detector (sy_detector s)))"
    and "ds_detector ds = d'" "ds_emitted ds = ds_emitted (sy_detector s)" "sy_detector s1 = sy_detector s"
  shows "links A (detector_turn_done ds outs s1)"
proof -
  have "pred_option (A \<circ> update_triple) (d_next_expected_output d')"
    using detector_turn_next[OF assms(2)] assms(1,3,4) by (auto simp: links_def)
  with assms(1,3,5-8) show ?thesis by (auto simp: links_def detector_delivered emitted_log)
qed

text \<open>A window on its way to the bridge head was prepared at an anchor.\<close>

lemma finality_anchored:
  assumes "bridge_reach pv proves answers oe disk0 start s" and "links A s" and "dual \<in> set (sy_finality s)"
  shows "prepared_at answers A (current_window dual) \<and> pred_option (prepared_at answers A) (next_window dual)"
proof -
  obtain slot h c where start: "start = (slot, h, c)" by (cases start)
  from system_finality[OF assms(1)] assms(3) obtain d where d: "(d, dual) \<in> set (ds_emitted (sy_detector s))" by auto
  with detector_inv_reach[OF system_detector[OF assms(1) start]] have "prepared_by answers (job_of d) dual"
    by (auto simp: detector_inv_def emission_ok_def)
  moreover from assms(2) d have "A (d_slot d, d_store_hash d, d_queue_cursor d)"
    "\<And>u. d_next_expected_output d = Some u \<Longrightarrow> A (fu_slot u, fu_store_hash u, fu_queue_cursor u)"
    by (fastforce simp: links_def triple_defs)+
  ultimately show ?thesis
    by (auto simp: prepared_by_def job_of_def filtered_next_def option.pred_set intro: prepared_atI split: option.splits if_splits)
qed

section \<open>The invariant\<close>

lemma anchored_grows:
  assumes "anchored start (head_turn_done hs outs s1) \<le> A" and "hs_events hs = hs_events (sy_head s)"
    and "hs_staged hs = hs_staged (sy_head s) @ ws"
  shows "anchored start s \<le> A"
proof -
  have "anchored start s t \<Longrightarrow> anchored start (head_turn_done hs outs s1) t" for t
    using assms(2,3) by (auto simp: anchored_def events_delivered staged_delivered intro: settled_more)
  with assms(1) show ?thesis by (auto simp: le_fun_def)
qed

definition chain_inv ::
    "('p \<Rightarrow> bytes) \<Rightarrow> (('x, 'h, 'c, 'u, 'v, 'g) proof_inputs \<Rightarrow> 'p \<Rightarrow> bool) \<Rightarrow> ('x, 'h, 'c, 'u, 'v, 'g) preparation set
      \<Rightarrow> (u64 \<times> b256 \<times> u64 \<Rightarrow> bool) \<Rightarrow> ('x, 'h, 'c, 'u, 'v, 'g, 'p, 'r) bridge_system \<Rightarrow> bool" where
  "chain_inv pv proves answers A s \<longleftrightarrow>
     head_reach pv proves (prepared_at answers A) (sy_head s) \<and> traffic (prepared_at answers A) s \<and> links A s"

lemma chain_detector_turn:
  assumes "bridge_reach pv proves answers oe disk0 start s" and "anchored start s \<le> A" and "chain_inv pv proves answers A s"
    and "detector_step True True (ds_detector (sy_detector s)) ev = (d', outs, None)"
    and "sy_stage s = old @ sy_stage s1" and "\<And>u. ev = StageInput (Some u) \<Longrightarrow> u \<in> set old"
    and "ds_detector ds = d'" "ds_emitted ds = ds_emitted (sy_detector s)" "sy_detector s1 = sy_detector s"
    and "sy_head s1 = sy_head s" "sy_events s1 = sy_events s" "sy_observer s1 = sy_observer s" "sy_commands s1 = sy_commands s"
  shows "chain_inv pv proves answers A (detector_turn_done ds outs s1)"
proof -
  from all_settled_detector[OF system_settled[OF assms(1)]] assms(2) have "A (detector_triple (ds_detector (sy_detector s)))"
    by (auto simp: anchored_def)
  from links_detector_turn[where A = A, OF _ assms(4-6) this assms(7-9)] assms(3,10-13) show ?thesis
    by (simp add: chain_inv_def traffic_def)
qed

lemma chain_head_turn:
  assumes "chain_inv pv proves answers A s" and "head_step pv he (hs_head (sy_head s)) ev = (st, outs, None)"
    and "\<And>dual. ev = FinalityInput (Some dual) \<Longrightarrow>
        prepared_at answers A (current_window dual) \<and> pred_option (prepared_at answers A) (next_window dual)"
    and "\<And>w. ev = CommandInput (Some (StageTransitionProof w)) \<Longrightarrow> A (expected_triple w)"
    and "head_reach pv proves (prepared_at answers A) (fold head_deliver outs hs)"
    and "sy_stage s1 = sy_stage s" "sy_detector s1 = sy_detector s" "sy_events s1 = sy_events s"
      "sy_observer s1 = sy_observer s" "sy_commands s = old @ sy_commands s1"
  shows "chain_inv pv proves answers A (head_turn_done hs outs s1)"
  using assms(1,5) traffic_head_turn[where P = "prepared_at answers A", OF _ assms(2,3,8-10)]
    links_head_turn[where A = A, OF _ assms(2,4,6,7)] by (simp add: chain_inv_def)

lemma system_chain:
  assumes "bridge_reach pv proves answers oe disk0 start s" and "anchored start s \<le> A"
  shows "chain_inv pv proves answers A s"
  using assms
proof induction
  case (boot env st0 slot h c he latest st outs)
  from boot(3) have "\<forall>e \<in> set (routed_events outs). offers (prepared_at answers A) (Some e)" "routed_stage outs = []"
    by (auto simp: head_start_def Let_def turn_ok offers_def routed_stage_def)
  with head_reach.boot[OF boot(1,3)] show ?case
    by (simp add: chain_inv_def traffic_def links_def caches_def observer_new_def detector_boot_def detector_init_def)
next
  case (tick s d' outs)
  then have a: "anchored start s \<le> A" by (simp add: anchored_def le_fun_def)
  from chain_detector_turn[OF tick.hyps(1) a tick.IH[OF a] tick.hyps(2), of "[]"] show ?case by simp
next
  case (detector_stage s u us d' outs)
  then have a: "anchored start s \<le> A" by (simp add: anchored_def le_fun_def)
  from chain_detector_turn[OF detector_stage.hyps(1) a detector_stage.IH[OF a] detector_stage.hyps(3), of "[u]"]
    detector_stage.hyps(2) show ?case by simp
next
  case (detector_advance s u us d' outs)
  then have a: "anchored start s \<le> A" by (simp add: anchored_def le_fun_def)
  from chain_detector_turn[OF detector_advance.hyps(1) a detector_advance.IH[OF a] detector_advance.hyps(3), of "[]"] show ?case by simp
next
  case (detector_result s r d' outs)
  then have a: "anchored start s \<le> A" by (simp add: anchored_def le_fun_def)
  from chain_detector_turn[OF detector_result.hyps(1) a detector_result.IH[OF a] detector_result.hyps(3), of "[]"] show ?case by simp
next
  case (take_job s j)
  then show ?case by (simp add: chain_inv_def traffic_def links_def anchored_def le_fun_def)
next
  case (finish_job s j p q r)
  then show ?case by (simp add: chain_inv_def traffic_def links_def anchored_def le_fun_def)
next
  case (head_finality s dual duals he st outs)
  have a: "anchored start s \<le> A" by (rule anchored_grows[OF head_finality.prems, of _ "[]"]) simp_all
  note inv = head_finality.IH[OF a]
  from inv finality_anchored[OF head_finality.hyps(1), of A dual] head_finality.hyps(2)
  have "prepared_at answers A (current_window dual) \<and> pred_option (prepared_at answers A) (next_window dual)"
    by (simp add: chain_inv_def)
  with chain_head_turn[OF inv head_finality.hyps(3), of _ _ "[]"] head_reach.finality[OF _ head_finality.hyps(3)] inv
  show ?case by (simp add: chain_inv_def)
next
  case (head_stages s w cs he st outs)
  have a: "anchored start s \<le> A" by (rule anchored_grows[OF head_stages.prems, of _ "[w]"]) simp_all
  note inv = head_stages.IH[OF a]
  from inv head_stages.hyps(2) have "prepared_at answers A w" by (auto simp: chain_inv_def traffic_def stages_def)
  moreover have "A (expected_triple w)"
    using predicate1D[OF head_stages.prems, of "expected_triple w"] by (simp add: anchored_def staged_delivered)
  ultimately show ?case
    using chain_head_turn[OF inv head_stages.hyps(3), of _ _ "[_]"] head_reach.stage[OF _ _ head_stages.hyps(3)] inv head_stages.hyps(2)
    by (simp add: chain_inv_def)
next
  case (head_advances s m cs he st outs)
  have a: "anchored start s \<le> A" by (rule anchored_grows[OF head_advances.prems, of _ "[]"]) simp_all
  note inv = head_advances.IH[OF a]
  from chain_head_turn[OF inv head_advances.hyps(3), of _ _ "[_]"] head_reach.advance[OF _ head_advances.hyps(3)] inv head_advances.hyps(2)
  show ?case by (simp add: chain_inv_def)
next
  case (head_job_result s r inputs he st outs)
  have a: "anchored start s \<le> A" by (rule anchored_grows[OF head_job_result.prems, of _ "[]"]) simp_all
  note inv = head_job_result.IH[OF a]
  from chain_head_turn[OF inv head_job_result.hyps(4), of _ _ "[]"] inv head_job_result.hyps(3)
    head_reach.job_result[OF _ head_job_result.hyps(2) _ head_job_result.hyps(4), of proves "prepared_at answers A"]
  show ?case by (simp add: chain_inv_def)
next
  case (observes s ev evs ob cmds)
  then have a: "anchored start s \<le> A" by (simp add: anchored_def le_fun_def)
  note inv = observes.IH[OF a]
  with observes.hyps(2) have ok: "caches (prepared_at answers A) (sy_observer s)" "offers (prepared_at answers A) (Some ev)"
    by (auto simp: chain_inv_def traffic_def)
  from obs.step_inv[OF ok observes.hyps(3)] obs.step_sound[OF ok observes.hyps(3)] inv observes.hyps(2) show ?case
    by (auto simp: chain_inv_def traffic_def links_def)
qed

end
