(* ===== verification/Nori_Cycle.thy ===== *)
theory Nori_Cycle
  imports Nori_System
begin

text \<open>
  One cycle of the process of \<open>Nori_System\<close>, from its start to a settled proof: a poll, a validation, a finality notice, a
  staged window, a proof, and the advance of the bridge head and the detector.
\<close>

lemma cycle_boot:
  fixes pv :: "'p \<Rightarrow> bytes" and he :: "'r head_env"
  assumes "he_observer_alive he"
  shows "\<exists>(s :: ('x, 'h, 'c, 'u, 'v, 'g, 'p, 'r) bridge_system) n. bridge_reach pv proves answers oe disk0 (slot, h, c) s \<and>
    sy_detector s = detector_boot (detector_init slot h c None) \<and> hs_head (sy_head s) = sample_head slot h c \<and>
    hs_running (sy_head s) = [] \<and> hs_staged (sy_head s) = [] \<and> sy_observer s = (observer_new, disk0) \<and> sy_finality s = [] \<and>
    sy_stage s = [] \<and> sy_advance s = [] \<and> sy_commands s = [] \<and> sy_events s = [NoticeEvent (Started n)]"
proof -
  let ?st0 = "\<lparr>bh_current_slot = 0, bh_next_slot = 0, bh_job_id = 0, bh_prover_jobs = [], bh_stage_input_tx = False,
    bh_store_hash = 0, bh_queue_cursor = 0\<rparr> :: ('x, 'h, 'c, 'u, 'v, 'g) window bridge_head"
  have new: "bridge_head_new (\<lambda>_. Some ''set'') = Inr ?st0"
    by (simp add: bridge_head_new_def validate_env_def required_env_def)
  obtain n where start:
    "(head_start he slot h c slot ?st0 :: ('x, 'h, 'c, 'u, 'v, 'g, 'p, 'r) head_turn) =
       (sample_head slot h c, [EmitEvent (NoticeEvent (Started n))], None)"
    using assms by (simp add: head_run_defs sample_head_def)
  from bridge_reach.boot[OF new refl start, of pv proves answers oe disk0] show ?thesis
    by (intro exI conjI) (assumption | simp add: routed_stage_def)+
qed

text \<open>A poll and a valid answer.\<close>

lemma cycle_detects:
  fixes pv :: "'p \<Rightarrow> bytes" and he :: "'r head_env"
  assumes "he_observer_alive he" and "p \<in> answers" and "p slot h c True = Inr w"
    and "wi_input_slot w = slot" and "slot < wi_expected_output_slot w"
  shows "\<exists>(s :: ('x, 'h, 'c, 'u, 'v, 'g, 'p, 'r) bridge_system) n. bridge_reach pv proves answers oe disk0 (slot, h, c) s \<and>
    hs_head (sy_head s) = sample_head slot h c \<and> hs_running (sy_head s) = [] \<and> hs_staged (sy_head s) = [] \<and>
    sy_observer s = (observer_new, disk0) \<and> sy_finality s = [\<lparr>current_window = w, next_window = None\<rparr>] \<and> sy_stage s = [] \<and>
    sy_advance s = [] \<and> sy_commands s = [] \<and> sy_events s = [NoticeEvent (Started n)]"
proof -
  let ?d = "detector_init slot h c None" and ?dual = "\<lparr>current_window = w, next_window = None\<rparr>"
  obtain s0 :: "('x, 'h, 'c, 'u, 'v, 'g, 'p, 'r) bridge_system" and n where
    s0: "bridge_reach pv proves answers oe disk0 (slot, h, c) s0" "sy_detector s0 = detector_boot ?d"
    "hs_head (sy_head s0) = sample_head slot h c" "hs_running (sy_head s0) = []" "hs_staged (sy_head s0) = []"
    "sy_observer s0 = (observer_new, disk0)" "sy_finality s0 = []" "sy_stage s0 = []" "sy_advance s0 = []" "sy_commands s0 = []"
    "sy_events s0 = [NoticeEvent (Started n)]"
    using cycle_boot[OF assms(1), of pv proves answers oe disk0 slot h c] by (elim exE conjE) (rule that)
  have "detector_step True True (ds_detector (sy_detector s0)) PollTick =
    (?d\<lparr>d_in_flight := True\<rparr>, [StartJob (job_of ?d)] :: ('x, 'h, 'c, 'u, 'v, 'g) detector_message list, None)"
    by (simp add: s0 detector_boot_def detector_turn_defs detector_init_def)
  note s1 = bridge_reach.tick[OF s0(1) this]
  let ?s1 = "detector_turn_done (sy_detector s0\<lparr>ds_detector := ?d\<lparr>d_in_flight := True\<rparr>\<rparr>) [StartJob (job_of ?d)] s0"
  have "ds_job_chan (sy_detector ?s1) = Some (job_of ?d)" "ds_working (sy_detector ?s1) = None"
    by (simp_all add: s0 detector_boot_def deliver_def)
  note s2 = bridge_reach.take_job[OF s1 this]
  let ?s2 = "?s1\<lparr>sy_detector := sy_detector ?s1\<lparr>ds_job_chan := None, ds_working := Some (job_of ?d)\<rparr>\<rparr>"
  have "ds_working (sy_detector ?s2) = Some (job_of ?d)" "ds_result_chan (sy_detector ?s2) = None"
    by (simp_all add: s0 detector_boot_def deliver_def)
  moreover have "worker_result (run_validation_job p p (job_of ?d)) = Some (Inr ?dual)"
    using assms(3) by (simp add: run_validation_job_def job_of_def detector_init_def)
  ultimately have s3: "bridge_reach pv proves answers oe disk0 (slot, h, c)
      (?s2\<lparr>sy_detector := sy_detector ?s2\<lparr>ds_working := None, ds_result_chan := Some (Inr ?dual)\<rparr>\<rparr>)"
    by (intro bridge_reach.finish_job[OF s2 _ _ assms(2,2)])
  let ?s3 = "?s2\<lparr>sy_detector := sy_detector ?s2\<lparr>ds_working := None, ds_result_chan := Some (Inr ?dual)\<rparr>\<rparr>"
  have chan: "ds_result_chan (sy_detector ?s3) = Some (Inr ?dual)" by simp
  have "detector_step True True (ds_detector (sy_detector ?s3)) (ValidationResult (Some (Inr ?dual))) =
      (?d\<lparr>d_latest_slot := wi_expected_output_slot w\<rparr>, [FinalityOutput ?dual], None)"
    using assms(4,5) by (simp add: deliver_def detector_turn_defs detector_init_def)
  from bridge_reach.detector_result[OF s3 chan this] show ?thesis
    by (intro exI conjI) (assumption | simp add: s0)+
qed

text \<open>The observer learns of the finality and stages the window; the bridge head starts a job.\<close>

lemma cycle_stages:
  fixes pv :: "'p \<Rightarrow> bytes" and he :: "'r head_env"
  assumes "he_observer_alive he" and "p \<in> answers" and "p slot h c True = Inr w"
    and "wi_input_slot w = slot" and "slot < wi_expected_output_slot w" and "oe_head_alive oe" and "he_detector_alive he"
  shows "\<exists>(s :: ('x, 'h, 'c, 'u, 'v, 'g, 'p, 'r) bridge_system) n ob. bridge_reach pv proves answers oe disk0 (slot, h, c) s \<and>
    bh_prover_jobs (hs_head (sy_head s)) = [(1, \<lparr>bj_inputs_with_window = w, bj_start_instant = he_instant he\<rparr>)] \<and>
    hs_running (sy_head s) = [(1, wi_proof_inputs w)] \<and> hs_staged (sy_head s) = [w] \<and> sy_observer s = (ob, disk0) \<and>
    ob_latest_next_window ob = None \<and> sy_advance s = [] \<and> sy_commands s = [] \<and> sy_events s = [NoticeEvent (JobCreated n)]"
proof -
  let ?dual = "\<lparr>current_window = w, next_window = None\<rparr>"
  obtain s0 :: "('x, 'h, 'c, 'u, 'v, 'g, 'p, 'r) bridge_system" and n where
    s0: "bridge_reach pv proves answers oe disk0 (slot, h, c) s0" "hs_head (sy_head s0) = sample_head slot h c"
    "hs_running (sy_head s0) = []" "hs_staged (sy_head s0) = []" "sy_observer s0 = (observer_new, disk0)"
    "sy_finality s0 = [?dual]" "sy_stage s0 = []" "sy_advance s0 = []" "sy_commands s0 = []" "sy_events s0 = [NoticeEvent (Started n)]"
    using cycle_detects[OF assms(1-5), of pv proves oe disk0] by (elim exE conjE) (rule that)
  obtain m and st1 :: "('x, 'h, 'c, 'u, 'v, 'g) window bridge_head" where
    m: "head_step pv he (hs_head (sy_head s0)) (FinalityInput (Some ?dual)) =
        (st1, [EmitEvent (NoticeEvent (FinalityTransitionDetected m))], None)"
      "et_current_window_proof_inputs_with_window (extension m) = w" "et_next_window_proof_inputs_with_window (extension m) = None"
    and st1: "bh_job_id st1 = 0" "bh_prover_jobs st1 = []" "bh_stage_input_tx st1"
    using assms(1) by (simp add: s0 head_run_defs on_beacon_finality_change_def stay_def sample_head_def message_new_def)
  note s1 = bridge_reach.head_finality[OF s0(1,6) m(1)]
  let ?s1 = "head_turn_done (sy_head s0\<lparr>hs_head := st1\<rparr>) [EmitEvent (NoticeEvent (FinalityTransitionDetected m))] (s0\<lparr>sy_finality := []\<rparr>)"
  obtain ob where ob: "observer_step oe (sy_observer ?s1) (Some (NoticeEvent (Started n))) = ((ob, disk0), [], None)"
    "ob_stage_transition_proof ob"
    by (simp add: s0 observer_step_def on_bridge_head_transition_notice_def stay_def)
  have "sy_events ?s1 = NoticeEvent (Started n) # [NoticeEvent (FinalityTransitionDetected m)]" by (simp add: s0)
  note s2 = bridge_reach.observes[OF s1 this ob(1)]
  let ?s2 = "?s1\<lparr>sy_observer := (ob, disk0), sy_commands := sy_commands ?s1 @ [], sy_events := [NoticeEvent (FinalityTransitionDetected m)]\<rparr>"
  obtain ob' where ob': "observer_step oe (sy_observer ?s2) (Some (NoticeEvent (FinalityTransitionDetected m))) =
      ((ob', disk0), [StageTransitionProof w], None)" "ob_latest_next_window ob' = None"
    using ob(2) assms(6) by (simp add: observer_step_def on_bridge_head_transition_notice_def send_command_def perform_def stay_def m(2,3))
  have "sy_events ?s2 = NoticeEvent (FinalityTransitionDetected m) # []" by simp
  note s3 = bridge_reach.observes[OF s2 this ob'(1)]
  let ?s3 = "?s2\<lparr>sy_observer := (ob', disk0), sy_commands := sy_commands ?s2 @ [StageTransitionProof w], sy_events := []\<rparr>"
  obtain n' u and st2 :: "('x, 'h, 'c, 'u, 'v, 'g) window bridge_head" where
    step: "head_step pv he (hs_head (sy_head ?s3)) (CommandInput (Some (StageTransitionProof w))) =
      (st2, [SpawnJob 1 (bh_current_slot st1) (wi_proof_inputs w), ToDetectorStage u, EmitEvent (NoticeEvent (JobCreated n'))], None)"
    and st2: "bh_prover_jobs st2 = [(1, \<lparr>bj_inputs_with_window = w, bj_start_instant = he_instant he\<rparr>)]"
    using assms(1,7) by (simp add: head_run_defs head_delivered st1)
  have "sy_commands ?s3 = StageTransitionProof w # []" by (simp add: s0)
  from bridge_reach.head_stages[OF s3 this step] show ?thesis
    by (intro exI conjI) (assumption | simp add: s0 st2 ob')+
qed

text \<open>The proof arrives and is published.\<close>

lemma cycle_publishes:
  fixes pv :: "'p \<Rightarrow> bytes" and he :: "'r head_env"
  assumes "he_observer_alive he" and "p \<in> answers" and "p slot h c True = Inr w"
    and "wi_input_slot w = slot" and "slot < wi_expected_output_slot w" and "oe_head_alive oe" and "he_detector_alive he"
    and "proves (wi_proof_inputs w) prf'" and "proof_outputs_from_bytes (pv prf') = Inr out"
  shows "\<exists>(s :: ('x, 'h, 'c, 'u, 'v, 'g, 'p, 'r) bridge_system) pm ob. bridge_reach pv proves answers oe disk0 (slot, h, c) s \<and>
    hs_staged (sy_head s) = [w] \<and> ProofEvent pm \<in> set (hs_events (sy_head s)) \<and> pm_proof pm = prf' \<and> message_for out w pm \<and>
    sy_observer s = (ob, disk0) \<and> ob_latest_next_window ob = None \<and> sy_advance s = [] \<and> sy_commands s = [] \<and>
    sy_events s = [ProofEvent pm]"
proof -
  obtain s0 :: "('x, 'h, 'c, 'u, 'v, 'g, 'p, 'r) bridge_system" and n ob where
    s0: "bridge_reach pv proves answers oe disk0 (slot, h, c) s0"
    "bh_prover_jobs (hs_head (sy_head s0)) = [(1, \<lparr>bj_inputs_with_window = w, bj_start_instant = he_instant he\<rparr>)]"
    "hs_running (sy_head s0) = [(1, wi_proof_inputs w)]" "hs_staged (sy_head s0) = [w]" "sy_observer s0 = (ob, disk0)"
    "ob_latest_next_window ob = None" "sy_advance s0 = []" "sy_commands s0 = []" "sy_events s0 = [NoticeEvent (JobCreated n)]"
    using cycle_stages[OF assms(1-7), of pv proves disk0] by (elim exE conjE) (rule that)
  have "observer_step oe (sy_observer s0) (Some (NoticeEvent (JobCreated n))) = ((ob, disk0), [], None)"
    by (simp add: s0 observer_step_def on_bridge_head_transition_notice_def stay_def)
  note s1 = bridge_reach.observes[OF s0(1,9) this]
  let ?s1 = "s0\<lparr>sy_observer := (ob, disk0), sy_commands := sy_commands s0 @ [], sy_events := []\<rparr>"
  let ?r = "Inr \<lparr>pj_job_id = 1, pj_input_head = slot, pj_proof = prf'\<rparr> :: prover_job_error + 'p prover_job_output"
  have run: "(result_job_id ?r, wi_proof_inputs w) \<in> set (hs_running (sy_head ?s1))" by (simp add: s0 result_job_id_def)
  obtain n' pm and st2 :: "('x, 'h, 'c, 'u, 'v, 'g) window bridge_head" where
    step: "head_step pv he (hs_head (sy_head ?s1)) (JobResult (Some ?r)) =
      (st2, [EmitEvent (NoticeEvent (JobSucceeded n')), EmitEvent (ProofEvent pm)], None)"
    and pm: "pm_proof pm = prf'" "message_for out w pm"
    using assms(1,9) by (simp add: head_run_defs s0 message_for_def)
  note s2 = bridge_reach.head_job_result[OF s1 run _ step]
  let ?s2 = "head_turn_done (sy_head ?s1\<lparr>hs_head := st2, hs_running := filter (\<lambda>(k, _). k \<noteq> result_job_id ?r) (hs_running (sy_head ?s1))\<rparr>)
    [EmitEvent (NoticeEvent (JobSucceeded n')), EmitEvent (ProofEvent pm)] ?s1"
  have r2: "bridge_reach pv proves answers oe disk0 (slot, h, c) ?s2" using s2 assms(8) by simp
  have "sy_events ?s2 = NoticeEvent (JobSucceeded n') # [ProofEvent pm]" by simp
  moreover have "observer_step oe (sy_observer ?s2) (Some (NoticeEvent (JobSucceeded n'))) = ((ob, disk0), [], None)"
    by (simp add: observer_step_def on_bridge_head_transition_notice_def stay_def)
  ultimately have "bridge_reach pv proves answers oe disk0 (slot, h, c)
      (?s2\<lparr>sy_observer := (ob, disk0), sy_commands := sy_commands ?s2 @ [], sy_events := [ProofEvent pm]\<rparr>)"
    by (rule bridge_reach.observes[OF r2])
  then show ?thesis
    by (intro exI[of _ "?s2\<lparr>sy_observer := (ob, disk0), sy_commands := sy_commands ?s2 @ [], sy_events := [ProofEvent pm]\<rparr>"]
        exI[of _ pm] exI[of _ ob] conjI)
      (assumption | simp add: s0 pm staged_delivered events_delivered)+
qed

text \<open>The observer saves the proof and the checkpoint; the bridge head and the detector advance.\<close>

lemma cycle_settles:
  fixes pv :: "'p \<Rightarrow> bytes" and he :: "'r head_env"
  assumes "he_observer_alive he" and "p \<in> answers" and "p slot h c True = Inr w"
    and "wi_input_slot w = slot" and "slot < wi_expected_output_slot w" and "oe_head_alive oe" and "he_detector_alive he"
    and "proves (wi_proof_inputs w) prf'" and "proof_outputs_from_bytes (pv prf') = Inr out"
    and "accepting disk0" and "CHR ''/'' \<notin> set (oe_sp1_version oe prf')" and "oe_proof_text oe prf' = Inr bs"
    and "\<And>m. pm_proof m = prf' \<Longrightarrow> \<exists>bs'. oe_message_text oe m = Inr bs'" and "text_laws (oe_codec oe) (oe_json_text oe)"
  shows "\<exists>(s :: ('x, 'h, 'c, 'u, 'v, 'g, 'p, 'r) bridge_system) pm. bridge_reach pv proves answers oe disk0 (slot, h, c) s \<and>
    hs_staged (sy_head s) = [w] \<and> ProofEvent pm \<in> set (hs_events (sy_head s)) \<and> pm_proof pm = prf' \<and> message_for out w pm \<and>
    head_triple (hs_head (sy_head s)) = proof_triple pm \<and> detector_triple (ds_detector (sy_detector s)) = proof_triple pm \<and>
    resumes_at (oe_codec oe) (oe_json_text oe) (snd (sy_observer s)) (proof_triple pm)"
proof -
  obtain s0 :: "('x, 'h, 'c, 'u, 'v, 'g, 'p, 'r) bridge_system" and pm ob where
    s0: "bridge_reach pv proves answers oe disk0 (slot, h, c) s0" "hs_staged (sy_head s0) = [w]"
    "ProofEvent pm \<in> set (hs_events (sy_head s0))" "pm_proof pm = prf'" "message_for out w pm" "sy_observer s0 = (ob, disk0)"
    "ob_latest_next_window ob = None" "sy_advance s0 = []" "sy_commands s0 = []" "sy_events s0 = [ProofEvent pm]"
    using cycle_publishes[where proves = proves and pv = pv and prf' = prf', OF assms(1-9), of disk0] by (elim exE conjE) (rule that)
  obtain bs' where bs': "oe_message_text oe pm = Inr bs'" using assms(13) s0(4) by blast
  obtain st cmds where ob: "observer_step oe (sy_observer s0) (Some (ProofEvent pm)) = (st, cmds, None)"
    using proof_handled_live[OF assms(10,6), of pm bs bs' ob] assms(11,12) bs' s0(4) by (auto simp: s0(6) observer_step_def)
  let ?a = "\<lparr>am_slot = pm_output_slot pm, am_store_hash = pm_output_store_hash pm, am_queue_cursor = pm_output_queue_cursor pm\<rparr>"
  have cmds: "cmds = [Advance ?a]" using handled_turn[OF ob[unfolded s0(6)]] s0(7) by auto
  note s1 = bridge_reach.observes[OF s0(1,10) ob]
  let ?s1 = "s0\<lparr>sy_observer := st, sy_commands := sy_commands s0 @ cmds, sy_events := []\<rparr>"
  have todo: "sy_commands ?s1 = Advance ?a # []" by (simp add: s0 cmds)
  let ?u = "\<lparr>fu_slot = pm_output_slot pm, fu_store_hash = pm_output_store_hash pm, fu_queue_cursor = pm_output_queue_cursor pm\<rparr>"
  obtain n and st2 :: "('x, 'h, 'c, 'u, 'v, 'g) window bridge_head" where
    step: "head_step pv he (hs_head (sy_head ?s1)) (CommandInput (Some (Advance ?a))) =
      (st2, [ToDetectorAdvance ?u, EmitEvent (NoticeEvent n)], None)"
    and st2: "head_triple st2 = proof_triple pm"
    using assms(1,7) by (simp add: head_step_def head_advance_def trigger_listener_with_notice_def Let_def triple_defs)
  from bridge_reach.head_advances[OF s1 todo step] have s2: "bridge_reach pv proves answers oe disk0 (slot, h, c)
      (head_turn_done (sy_head ?s1\<lparr>hs_head := st2\<rparr>) [ToDetectorAdvance ?u, EmitEvent (NoticeEvent n)] (?s1\<lparr>sy_commands := []\<rparr>))"
    (is "bridge_reach _ _ _ _ _ _ ?s2") .
  have adv: "sy_advance ?s2 = ?u # []" by (simp add: s0)
  obtain d' where dstep: "detector_step True True (ds_detector (sy_detector ?s2)) (AdvanceInput (Some ?u)) =
      (d', [] :: ('x, 'h, 'c, 'u, 'v, 'g) detector_message list, None)"
    by (simp add: detector_step_def on_advance_input_def stay_def Let_def)
  from detector_turn_triple[OF dstep] have d': "detector_triple d' = proof_triple pm" by (simp add: update_triple_def proof_triple_def)
  from bridge_reach.detector_advance[OF s2 adv dstep] show ?thesis
    by (intro exI[of _ "detector_turn_done (sy_detector ?s2\<lparr>ds_detector := d'\<rparr>) [] (?s2\<lparr>sy_advance := []\<rparr>)"] exI[of _ pm] conjI)
      (assumption | use s0 st2 d' in \<open>simp add: proof_triple_def handled_resumes[OF ob[unfolded s0(6)] assms(14)]\<close>)+
qed

end
