(* ===== verification/Nori_Pipeline.thy ===== *)
theory Nori_Pipeline
  imports Nori_System
begin

text \<open>
  The serial pipeline of the process. The right to have one window proved passes round like a baton: from the notice that the
  bridge head started to the observer's flag \<open>stage_transition_proof\<close>, from there to a stage command, from the command to a
  prover task, from the task to the event that reports its end, and from that event back to the observer. The code does
  not keep the baton anywhere; that there is exactly one is an invariant of the three actors together.
\<close>

section \<open>The baton\<close>

definition carries :: "('w, 'p, 'r) bridge_head_event \<Rightarrow> bool" where
  "carries ev = (case ev of
     ProofEvent _ \<Rightarrow> True
   | NoticeEvent (Started _) \<Rightarrow> True
   | NoticeEvent (JobFailed _) \<Rightarrow> True
   | _ \<Rightarrow> False)"

definition is_stage :: "'w command \<Rightarrow> bool" where
  "is_stage c = (case c of StageTransitionProof _ \<Rightarrow> True | Advance _ \<Rightarrow> False)"

lemma carry_simps [simp]:
  "carries (ProofEvent pm)" "carries (NoticeEvent (Started m1))" "carries (NoticeEvent (JobFailed m2))"
  "\<not> carries (NoticeEvent (Warning m3))" "\<not> carries (NoticeEvent (JobCreated m4))" "\<not> carries (NoticeEvent (JobSucceeded m5))"
  "\<not> carries (NoticeEvent (FinalityTransitionDetected m6))" "\<not> carries (NoticeEvent (HeadAdvanced m7))"
  "is_stage (StageTransitionProof w)" "\<not> is_stage (Advance m)"
  by (simp_all add: carries_def is_stage_def)

text \<open>With the bridge head (a task, or the report of its end) or with the observer (a stage command, or the flag).\<close>

definition with_head :: "('x, 'h, 'c, 'u, 'v, 'g, 'p, 'r) bridge_system \<Rightarrow> nat" where
  "with_head s = length (hs_running (sy_head s)) + length (filter carries (sy_events s))"

definition with_observer :: "('x, 'h, 'c, 'u, 'v, 'g, 'p, 'r) bridge_system \<Rightarrow> nat" where
  "with_observer s = length (filter is_stage (sy_commands s)) + of_bool (ob_stage_transition_proof (fst (sy_observer s)))"

text \<open>Commands: at most one advance, then at most one stage command.\<close>

definition orderly :: "'w command list \<Rightarrow> bool" where
  "orderly cs \<longleftrightarrow> (\<exists>as. length as \<le> 1 \<and> (\<forall>a \<in> set as. \<not> is_stage a) \<and> cs = as @ filter is_stage cs)"

definition quiet_failures :: "('w, 'p, 'r) bridge_head_event list \<Rightarrow> bool" where
  "quiet_failures evs \<longleftrightarrow> (\<forall>m. NoticeEvent (JobFailed m) \<in> set evs \<longrightarrow> ef_n_job_in_buffer (extension m) = 0)"

text \<open>The job table is the outstanding tasks, each for a staged window.\<close>

definition table_ok :: "('x, 'h, 'c, 'u, 'v, 'g, 'p, 'r) head_system \<Rightarrow> bool" where
  "table_ok hs \<longleftrightarrow> hs_running hs = running_of (bh_prover_jobs (hs_head hs)) \<and>
     (\<forall>(k, job) \<in> set (bh_prover_jobs (hs_head hs)). bj_inputs_with_window job \<in> set (hs_staged hs))"

definition pipeline :: "('x, 'h, 'c, 'u, 'v, 'g, 'p, 'r) bridge_system \<Rightarrow> bool" where
  "pipeline s \<longleftrightarrow> with_head s + with_observer s = 1 \<and>
     table_ok (sy_head s) \<and> quiet_failures (sy_events s) \<and> orderly (sy_commands s) \<and> (with_head s = 1 \<longrightarrow> sy_commands s = [])"

section \<open>Turns\<close>

lemma running_delivered:
  "hs_running (fold head_deliver outs hs) =
   hs_running hs @ concat (map (\<lambda>m. case m of SpawnJob k _ i \<Rightarrow> [(k, i)] | _ \<Rightarrow> []) outs)"
  by (induction outs arbitrary: hs) (simp_all add: head_deliver_def split: head_message.splits)

lemma finality_event:
  "on_beacon_finality_change he dual st = (st', outs, None) \<Longrightarrow>
   \<exists>m. outs = [EmitEvent (NoticeEvent (FinalityTransitionDetected m))]"
  by (auto simp: on_beacon_finality_change_def turn_ok stay_def)

lemma stage_event:
  "stage_transition_proof he w st = (st', outs, None) \<Longrightarrow>
   \<exists>u m. outs = [SpawnJob (bh_job_id st + 1) (bh_current_slot st) (wi_proof_inputs w), ToDetectorStage u,
     EmitEvent (NoticeEvent (JobCreated m))]"
  unfolding stage_transition_proof_def Let_def turn_ok by auto

lemma advance_event:
  "head_step pv he st (CommandInput (Some (Advance a))) = (st', outs, None) \<Longrightarrow>
   \<exists>u m. outs = [ToDetectorAdvance u, EmitEvent (NoticeEvent (HeadAdvanced m))]"
  unfolding head_step_def head_advance_def Let_def by (auto simp: turn_ok)

lemma success_event:
  "handle_prover_success pv he k proof st = (st', outs, None) \<Longrightarrow>
   \<exists>m pm. outs = [EmitEvent (NoticeEvent (JobSucceeded m)), EmitEvent (ProofEvent pm)]"
  by (auto simp: handle_prover_success_def Let_def turn_ok split: option.splits sum.splits)

lemma failure_event:
  "handle_prover_failure he err st = (st', outs, None) \<Longrightarrow>
   \<exists>m. outs = [EmitEvent (NoticeEvent (JobFailed m))] \<and> ef_n_job_in_buffer (extension m) = of_nat (length (bh_prover_jobs st'))"
  by (auto simp: handle_prover_failure_def Let_def turn_ok message_new_def split: option.splits)

lemma start_event:
  "head_start he slot h c latest st = (st', outs, None) \<Longrightarrow> \<exists>m. outs = [EmitEvent (NoticeEvent (Started m))]"
  unfolding head_start_def Let_def by (auto simp: turn_ok)

lemmas head_events = finality_event stage_event advance_event success_event failure_event start_event

text \<open>An observer that holds no baton takes it from the event or leaves it; one that holds it may turn it into a command.\<close>

lemma observer_turn_baton:
  assumes "observer_step oe st (Some ev) = (st', cmds, None)" and "carries ev \<longrightarrow> \<not> ob_stage_transition_proof (fst st)"
    and "quiet_failures [ev]"
  shows "length (filter is_stage cmds) + of_bool (ob_stage_transition_proof (fst st')) =
      of_bool (ob_stage_transition_proof (fst st)) + of_bool (carries ev)"
    and "orderly cmds" and "\<not> carries ev \<Longrightarrow> filter is_stage cmds = cmds"
proof -
  have "length (filter is_stage cmds) + of_bool (ob_stage_transition_proof (fst st')) =
      of_bool (ob_stage_transition_proof (fst st)) + (of_bool (carries ev) :: nat) \<and> orderly cmds \<and>
      (\<not> carries ev \<longrightarrow> filter is_stage cmds = cmds)"
  proof (cases ev)
    case (ProofEvent pm)
    with assms(1) have "on_transition_proof_succeeded oe pm (fst st, snd st) = (st', cmds, None)"
      by (simp add: observer_step_def)
    from proof_handled[OF this] ProofEvent assms(2) show ?thesis
      by (auto simp: Let_def orderly_def intro!: exI[of _ "[_]"])
  next
    case (NoticeEvent n)
    with assms show ?thesis
      by (cases st; cases "oe_head_alive oe"; cases n)
        (auto simp: observer_step_def on_bridge_head_transition_notice_def send_command_eq stay_eq leave_turn and_then_eq Let_def
          quiet_failures_def orderly_def split: if_splits option.splits simp del: turn_simps)
  qed
  then show "length (filter is_stage cmds) + of_bool (ob_stage_transition_proof (fst st')) =
      of_bool (ob_stage_transition_proof (fst st)) + (of_bool (carries ev) :: nat)"
    "orderly cmds" "\<not> carries ev \<Longrightarrow> filter is_stage cmds = cmds" by blast+
qed

section \<open>The invariant\<close>

lemmas pipeline_defs = pipeline_def with_head_def with_observer_def

lemmas table_defs = table_ok_def running_of_def running_delivered head_delivered staged_delivered

lemma orderly_simps [simp]: "orderly []" "orderly (StageTransitionProof w # cs) \<longleftrightarrow> filter is_stage cs = cs"
  "orderly (Advance m # cs) \<longleftrightarrow> filter is_stage cs = cs"
proof -
  have "filter is_stage cs = cs" if "StageTransitionProof w # cs = as @ filter is_stage (StageTransitionProof w # cs)"
    "\<forall>a \<in> set as. \<not> is_stage a" for as
    using that by (cases as) auto
  then show "orderly (StageTransitionProof w # cs) \<longleftrightarrow> filter is_stage cs = cs"
    by (auto simp: orderly_def intro: exI[of _ "[]"])
  have "filter is_stage cs = cs" if "Advance m # cs = as @ filter is_stage (Advance m # cs)" "length as \<le> 1" for as
    using that by (cases as) (auto dest!: Cons_eq_filterD)
  then show "orderly (Advance m # cs) \<longleftrightarrow> filter is_stage cs = cs"
    by (auto simp: orderly_def intro: exI[of _ "[Advance m]"])
qed (simp add: orderly_def)

lemma orderly_append_stage: "orderly cs \<Longrightarrow> filter is_stage cs' = cs' \<Longrightarrow> orderly (cs @ cs')"
  by (auto simp: orderly_def)

text \<open>Turns that leave the baton where it is.\<close>

lemma pipeline_cong:
  assumes "pipeline s" and "sy_head s' = sy_head s" "sy_events s' = sy_events s" "sy_commands s' = sy_commands s"
    "sy_observer s' = sy_observer s"
  shows "pipeline s'"
  using assms by (simp add: pipeline_defs)

lemma observes_pipeline:
  assumes "pipeline s" and "sy_events s = ev # evs" and "observer_step oe (sy_observer s) (Some ev) = (ob, cmds, None)"
  shows "pipeline (s\<lparr>sy_observer := ob, sy_commands := sy_commands s @ cmds, sy_events := evs\<rparr>)"
proof -
  have free: "carries ev \<longrightarrow> \<not> ob_stage_transition_proof (fst (sy_observer s))"
    using assms(1,2) by (auto simp: pipeline_defs of_bool_def split: if_splits)
  have quiet: "quiet_failures [ev]" "quiet_failures evs" using assms(1,2) by (auto simp: pipeline_def quiet_failures_def)
  note turn = observer_turn_baton[OF assms(3) free quiet(1)]
  from turn(1) assms(1,2) have "with_head s + with_observer s =
      with_head (s\<lparr>sy_observer := ob, sy_commands := sy_commands s @ cmds, sy_events := evs\<rparr>) +
      with_observer (s\<lparr>sy_observer := ob, sy_commands := sy_commands s @ cmds, sy_events := evs\<rparr>)"
    by (simp add: with_head_def with_observer_def)
  moreover have "orderly (sy_commands s @ cmds)"
  proof (cases "carries ev")
    case True
    with assms(1,2) have "sy_commands s = []" by (simp add: pipeline_defs)
    with turn(2) show ?thesis by simp
  qed (use turn(3) assms(1) in \<open>simp add: pipeline_def orderly_append_stage\<close>)
  moreover have "sy_commands s @ cmds = []" if "length (hs_running (sy_head s)) + length (filter carries evs) = 1"
  proof -
    from that assms(1,2) have c: "\<not> carries ev" "\<not> ob_stage_transition_proof (fst (sy_observer s))" "sy_commands s = []"
      by (auto simp: pipeline_defs of_bool_def split: if_splits)
    with turn(1) turn(3)[OF c(1)] show ?thesis by auto
  qed
  ultimately show ?thesis using assms(1) quiet(2) by (simp add: pipeline_def with_head_def)
qed

lemma finished_pipeline:
  assumes "pipeline s" and "(result_job_id r, inputs) \<in> set (hs_running (sy_head s))"
    and "head_step pv he (hs_head (sy_head s)) (JobResult (Some r)) = (st, outs, None)"
  shows "pipeline (head_turn_done (sy_head s\<lparr>hs_head := st,
    hs_running := filter (\<lambda>(k, _). k \<noteq> result_job_id r) (hs_running (sy_head s))\<rparr>) outs s)"
proof -
  have run: "hs_running (sy_head s) = [(result_job_id r, inputs)]" and evs: "filter carries (sy_events s) = []"
    using assms(1,2) by (cases "hs_running (sy_head s)"; auto simp: pipeline_defs)+
  with assms(1) obtain job where jobs: "bh_prover_jobs (hs_head (sy_head s)) = [(result_job_id r, job)]"
    by (auto simp: pipeline_def table_ok_def running_of_def)
  show ?thesis
  proof (cases r)
    case (Inl err)
    with assms(3) have turn: "handle_prover_failure he err (hs_head (sy_head s)) = (st, outs, None)" by (simp add: head_step_def)
    from failure_turn[OF turn] failure_event[OF turn] Inl run evs jobs assms(1) show ?thesis
      by (auto simp: pipeline_defs quiet_failures_def result_job_id_def table_defs)
  next
    case (Inr res)
    with assms(3) have turn: "handle_prover_success pv he (pj_job_id res) (pj_proof res) (hs_head (sy_head s)) = (st, outs, None)"
      by (simp add: head_step_def)
    from success_turn[OF turn] success_event[OF turn] Inr run evs jobs assms(1) show ?thesis
      by (auto simp: pipeline_defs quiet_failures_def result_job_id_def table_defs)
  qed
qed

lemma staged_pipeline:
  assumes "pipeline s" and "sy_commands s = StageTransitionProof w # cs"
    and "head_step pv he (hs_head (sy_head s)) (CommandInput (Some (StageTransitionProof w))) = (st, outs, None)"
  shows "pipeline (head_turn_done (sy_head s\<lparr>hs_head := st, hs_staged := hs_staged (sy_head s) @ [w]\<rparr>) outs (s\<lparr>sy_commands := cs\<rparr>))"
proof -
  from assms(1,2) have none: "hs_running (sy_head s) = []" "filter carries (sy_events s) = []" "filter is_stage cs = []"
    "\<not> ob_stage_transition_proof (fst (sy_observer s))" "filter is_stage cs = cs"
    by (auto simp: pipeline_defs of_bool_def split: if_splits)
  from assms(3) have turn: "stage_transition_proof he w (hs_head (sy_head s)) = (st, outs, None)" by (simp add: head_step_def)
  from stage_turn[OF turn] stage_event[OF turn] none assms(1) show ?thesis
    by (auto simp: pipeline_defs quiet_failures_def table_defs)
qed

lemma advanced_pipeline:
  assumes "pipeline s" and "sy_commands s = Advance m # cs"
    and "head_step pv he (hs_head (sy_head s)) (CommandInput (Some (Advance m))) = (st, outs, None)"
  shows "pipeline (head_turn_done (sy_head s\<lparr>hs_head := st\<rparr>) outs (s\<lparr>sy_commands := cs\<rparr>))"
proof -
  from assms(1,2) have "filter is_stage cs = cs" "with_head s = 0" by (auto simp: pipeline_def)
  with advance_turn[OF assms(3)] advance_event[OF assms(3)] assms(1,2) show ?thesis
    by (auto simp: pipeline_defs quiet_failures_def table_defs orderly_def intro: exI[of _ "[]"])
qed

lemma finality_pipeline:
  assumes "pipeline s"
    and "head_step pv he (hs_head (sy_head s)) (FinalityInput (Some dual)) = (st, outs, None)"
  shows "pipeline (head_turn_done (sy_head s\<lparr>hs_head := st\<rparr>) outs (s\<lparr>sy_finality := duals\<rparr>))"
proof -
  from assms(2) have turn: "on_beacon_finality_change he dual (hs_head (sy_head s)) = (st, outs, None)"
    by (cases "on_beacon_finality_change he dual (hs_head (sy_head s))") (simp add: head_step_def)
  from finality_turn[OF turn] finality_event[OF turn] assms(1) show ?thesis
    by (auto simp: pipeline_defs quiet_failures_def table_defs)
qed

lemma system_pipeline:
  assumes "bridge_reach pv proves answers oe disk0 start s"
  shows "pipeline s"
  using assms
proof induction
  case (boot env st0 slot h c he latest st outs)
  from start_turn[OF boot(3)] start_event[OF boot(3)] bridge_head_new_ok[OF boot(1)] show ?case
    by (auto simp: pipeline_defs quiet_failures_def table_defs observer_new_def)
next
  case (head_stages s w cs he st outs)
  show ?case by (rule staged_pipeline[OF head_stages.IH head_stages.hyps(2,3)])
next
  case (head_advances s m cs he st outs)
  show ?case by (rule advanced_pipeline[OF head_advances.IH head_advances.hyps(2,3)])
next
  case (head_finality s dual duals he st outs)
  show ?case by (rule finality_pipeline[OF head_finality.IH head_finality.hyps(3)])
next
  case (head_job_result s r inputs he st outs)
  show ?case by (rule finished_pipeline[OF head_job_result.IH head_job_result.hyps(2,4)])
next
  case (observes s ev evs ob cmds)
  show ?case by (rule observes_pipeline[OF observes.IH observes.hyps(2,3)])
qed (simp_all add: pipeline_defs)

section \<open>Published proofs\<close>

text \<open>With one job at a time, job ids cannot be confused however many windows were staged: the bound on their number
  that the bridge head alone needs (\<open>head_inv\<close>) is not needed in the process.\<close>

lemma system_published:
  assumes "bridge_reach pv proves answers oe disk0 start s"
  shows "\<forall>pm. ProofEvent pm \<in> set (hs_events (sy_head s)) \<longrightarrow> proof_of_window pv proves (hs_staged (sy_head s)) pm"
  using assms
proof induction
  case (boot env st0 slot h c he latest st outs)
  from start_event[OF boot(3)] show ?case by (auto simp: staged_delivered events_delivered)
next
  case (head_finality s dual duals he st outs)
  from head_finality.hyps(3) have "on_beacon_finality_change he dual (hs_head (sy_head s)) = (st, outs, None)"
    by (simp add: head_step_def)
  from finality_event[OF this] head_finality.IH show ?case by (auto simp: staged_delivered events_delivered)
next
  case (head_stages s w cs he st outs)
  from head_stages.hyps(3) have "stage_transition_proof he w (hs_head (sy_head s)) = (st, outs, None)" by (simp add: head_step_def)
  from stage_event[OF this] head_stages.IH show ?case by (auto simp: staged_delivered events_delivered proof_of_window_more)
next
  case (head_advances s m cs he st outs)
  from advance_event[OF head_advances.hyps(3)] head_advances.IH show ?case by (auto simp: staged_delivered events_delivered)
next
  case (head_job_result s r inputs he st outs)
  note pipe = system_pipeline[OF head_job_result.hyps(1)]
  show ?case
  proof (cases r)
    case (Inl err)
    with head_job_result.hyps(4) have "handle_prover_failure he err (hs_head (sy_head s)) = (st, outs, None)"
      by (simp add: head_step_def)
    from failure_event[OF this] head_job_result.IH show ?thesis by (auto simp: staged_delivered events_delivered)
  next
    case (Inr res)
    with head_job_result.hyps(4)
    have turn: "handle_prover_success pv he (pj_job_id res) (pj_proof res) (hs_head (sy_head s)) = (st, outs, None)"
      by (simp add: head_step_def)
    have run: "hs_running (sy_head s) = [(pj_job_id res, inputs)]"
      using pipe head_job_result.hyps(2) Inr by (cases "hs_running (sy_head s)") (auto simp: pipeline_defs result_job_id_def)
    with pipe obtain job where "bh_prover_jobs (hs_head (sy_head s)) = [(pj_job_id res, job)]"
      "wi_proof_inputs (bj_inputs_with_window job) = inputs" "bj_inputs_with_window job \<in> set (hs_staged (sy_head s))"
      by (auto simp: pipeline_def table_ok_def running_of_def)
    with success_turn[OF turn] head_job_result.hyps(3)[OF Inr] head_job_result.IH show ?thesis
      by (auto simp: staged_delivered events_delivered proof_of_window_def)
  qed
qed simp_all

end
