(* ===== verification/Nori_Bounded.thy ===== *)
theory Nori_Bounded
  imports Nori_Pipeline
begin

text \<open>
  The process of \<open>Nori_System\<close> with the capacities of its channels (\<open>mpsc::channel\<close> in \<open>bridge_head/api.rs\<close> and
  \<open>finality_change_detector.rs\<close>). An actor whose send finds a full channel waits inside its turn: what is left to send is
  pending, and the actor takes no other turn until it is sent. The bounded process refines the unbounded one.
\<close>

section \<open>Capacities\<close>

definition FINALITY_OUTPUT_CAPACITY :: nat where
  "FINALITY_OUTPUT_CAPACITY = 1"

definition ADVANCE_INPUT_CAPACITY :: nat where
  "ADVANCE_INPUT_CAPACITY = 1"

definition STAGE_INPUT_CAPACITY :: nat where
  "STAGE_INPUT_CAPACITY = 1"

definition COMMAND_CAPACITY :: nat where
  "COMMAND_CAPACITY = 2"

definition JOB_CAPACITY :: nat where
  "JOB_CAPACITY = 2"

definition EVENT_CAPACITY :: nat where
  "EVENT_CAPACITY = 16"

lemmas capacity_defs = FINALITY_OUTPUT_CAPACITY_def ADVANCE_INPUT_CAPACITY_def STAGE_INPUT_CAPACITY_def COMMAND_CAPACITY_def
  JOB_CAPACITY_def EVENT_CAPACITY_def

section \<open>State\<close>

record ('x, 'h, 'c, 'u, 'v, 'g, 'p, 'r) bounded_system =
  by_sys :: "('x, 'h, 'c, 'u, 'v, 'g, 'p, 'r) bridge_system"
  by_head :: "(('x, 'h, 'c, 'u, 'v, 'g) proof_inputs, ('x, 'h, 'c, 'u, 'v, 'g) window, 'p, 'r) head_message list"
  by_detector :: "('x, 'h, 'c, 'u, 'v, 'g) dual_inputs list"
  by_observer :: "('x, 'h, 'c, 'u, 'v, 'g) window command list"

text \<open>A send of the bridge head that does not have to wait. Spawning a task never waits and is done when the turn starts.\<close>

definition head_send ::
    "(('x, 'h, 'c, 'u, 'v, 'g) proof_inputs, ('x, 'h, 'c, 'u, 'v, 'g) window, 'p, 'r) head_message
      \<Rightarrow> ('x, 'h, 'c, 'u, 'v, 'g, 'p, 'r) bridge_system \<Rightarrow> ('x, 'h, 'c, 'u, 'v, 'g, 'p, 'r) bridge_system option" where
  "head_send m s = (case m of
     SpawnJob _ _ _ \<Rightarrow> Some s
   | ToDetectorStage u \<Rightarrow>
       if length (sy_stage s) < STAGE_INPUT_CAPACITY then Some (s\<lparr>sy_stage := sy_stage s @ [u]\<rparr>) else None
   | ToDetectorAdvance u \<Rightarrow>
       if length (sy_advance s) < ADVANCE_INPUT_CAPACITY then Some (s\<lparr>sy_advance := sy_advance s @ [u]\<rparr>) else None
   | EmitEvent ev \<Rightarrow>
       if length (sy_events s) < EVENT_CAPACITY then Some (s\<lparr>sy_events := sy_events s @ [ev]\<rparr>) else None)"

definition head_turn_begun ::
    "('x, 'h, 'c, 'u, 'v, 'g, 'p, 'r) head_system
      \<Rightarrow> (('x, 'h, 'c, 'u, 'v, 'g) proof_inputs, ('x, 'h, 'c, 'u, 'v, 'g) window, 'p, 'r) head_message list
      \<Rightarrow> ('x, 'h, 'c, 'u, 'v, 'g, 'p, 'r) bridge_system \<Rightarrow> ('x, 'h, 'c, 'u, 'v, 'g, 'p, 'r) bounded_system
      \<Rightarrow> ('x, 'h, 'c, 'u, 'v, 'g, 'p, 'r) bounded_system" where
  "head_turn_begun hs outs s b = b\<lparr>by_sys := s\<lparr>sy_head := fold head_deliver outs hs\<rparr>, by_head := outs\<rparr>"

definition detector_turn_begun ::
    "('x, 'h, 'c, 'u, 'v, 'g) detector_system \<Rightarrow> ('x, 'h, 'c, 'u, 'v, 'g) detector_message list
      \<Rightarrow> ('x, 'h, 'c, 'u, 'v, 'g, 'p, 'r) bridge_system \<Rightarrow> ('x, 'h, 'c, 'u, 'v, 'g, 'p, 'r) bounded_system
      \<Rightarrow> ('x, 'h, 'c, 'u, 'v, 'g, 'p, 'r) bounded_system" where
  "detector_turn_begun ds outs s b = b\<lparr>by_sys := s\<lparr>sy_detector := fold (deliver (ds_detector (sy_detector s))) outs ds\<rparr>,
     by_detector := routed_windows outs\<rparr>"

section \<open>Steps\<close>

inductive bounded_step ::
    "('p \<Rightarrow> bytes) \<Rightarrow> (('x, 'h, 'c, 'u, 'v, 'g) proof_inputs \<Rightarrow> 'p \<Rightarrow> bool) \<Rightarrow> ('x, 'h, 'c, 'u, 'v, 'g) preparation set
      \<Rightarrow> (('x, 'h, 'c, 'u, 'v, 'g) window, 'p, 'r) observer_env
      \<Rightarrow> ('x, 'h, 'c, 'u, 'v, 'g, 'p, 'r) bounded_system \<Rightarrow> ('x, 'h, 'c, 'u, 'v, 'g, 'p, 'r) bounded_system \<Rightarrow> bool"
  for pv :: "'p \<Rightarrow> bytes" and proves :: "('x, 'h, 'c, 'u, 'v, 'g) proof_inputs \<Rightarrow> 'p \<Rightarrow> bool"
    and answers :: "('x, 'h, 'c, 'u, 'v, 'g) preparation set"
    and oe :: "(('x, 'h, 'c, 'u, 'v, 'g) window, 'p, 'r) observer_env" where
  tick: "s = by_sys b \<Longrightarrow> by_detector b = [] \<Longrightarrow>
    detector_step True True (ds_detector (sy_detector s)) PollTick = (d', outs, None) \<Longrightarrow>
    bounded_step pv proves answers oe b (detector_turn_begun (sy_detector s\<lparr>ds_detector := d'\<rparr>) outs s b)"
| detector_stage: "s = by_sys b \<Longrightarrow> by_detector b = [] \<Longrightarrow> sy_stage s = u # us \<Longrightarrow>
    detector_step True True (ds_detector (sy_detector s)) (StageInput (Some u)) = (d', outs, None) \<Longrightarrow>
    bounded_step pv proves answers oe b
      (detector_turn_begun (sy_detector s\<lparr>ds_detector := d'\<rparr>) outs (s\<lparr>sy_stage := us\<rparr>) b)"
| detector_advance: "s = by_sys b \<Longrightarrow> by_detector b = [] \<Longrightarrow> sy_advance s = u # us \<Longrightarrow>
    detector_step True True (ds_detector (sy_detector s)) (AdvanceInput (Some u)) = (d', outs, None) \<Longrightarrow>
    bounded_step pv proves answers oe b
      (detector_turn_begun (sy_detector s\<lparr>ds_detector := d'\<rparr>) outs (s\<lparr>sy_advance := us\<rparr>) b)"
| detector_result: "s = by_sys b \<Longrightarrow> by_detector b = [] \<Longrightarrow> ds_result_chan (sy_detector s) = Some r \<Longrightarrow>
    detector_step True True (ds_detector (sy_detector s)) (ValidationResult (Some r)) = (d', outs, None) \<Longrightarrow>
    bounded_step pv proves answers oe b
      (detector_turn_begun (sy_detector s\<lparr>ds_detector := d', ds_result_chan := None\<rparr>) outs s b)"
| take_job: "s = by_sys b \<Longrightarrow> ds_job_chan (sy_detector s) = Some j \<Longrightarrow> ds_working (sy_detector s) = None \<Longrightarrow>
    bounded_step pv proves answers oe b
      (b\<lparr>by_sys := s\<lparr>sy_detector := sy_detector s\<lparr>ds_job_chan := None, ds_working := Some j\<rparr>\<rparr>\<rparr>)"
| finish_job: "s = by_sys b \<Longrightarrow> ds_working (sy_detector s) = Some j \<Longrightarrow> ds_result_chan (sy_detector s) = None \<Longrightarrow>
    p \<in> answers \<Longrightarrow> q \<in> answers \<Longrightarrow> worker_result (run_validation_job p q j) = Some r \<Longrightarrow>
    bounded_step pv proves answers oe b
      (b\<lparr>by_sys := s\<lparr>sy_detector := sy_detector s\<lparr>ds_working := None, ds_result_chan := Some r\<rparr>\<rparr>\<rparr>)"
| detector_sends: "s = by_sys b \<Longrightarrow> by_detector b = dual # duals \<Longrightarrow> length (sy_finality s) < FINALITY_OUTPUT_CAPACITY \<Longrightarrow>
    bounded_step pv proves answers oe b (b\<lparr>by_sys := s\<lparr>sy_finality := sy_finality s @ [dual]\<rparr>, by_detector := duals\<rparr>)"
| head_finality: "s = by_sys b \<Longrightarrow> by_head b = [] \<Longrightarrow> sy_finality s = dual # duals \<Longrightarrow>
    head_step pv he (hs_head (sy_head s)) (FinalityInput (Some dual)) = (st, outs, None) \<Longrightarrow>
    bounded_step pv proves answers oe b (head_turn_begun (sy_head s\<lparr>hs_head := st\<rparr>) outs (s\<lparr>sy_finality := duals\<rparr>) b)"
| head_stages: "s = by_sys b \<Longrightarrow> by_head b = [] \<Longrightarrow> sy_commands s = StageTransitionProof w # cs \<Longrightarrow>
    head_step pv he (hs_head (sy_head s)) (CommandInput (Some (StageTransitionProof w))) = (st, outs, None) \<Longrightarrow>
    bounded_step pv proves answers oe b
      (head_turn_begun (sy_head s\<lparr>hs_head := st, hs_staged := hs_staged (sy_head s) @ [w]\<rparr>) outs (s\<lparr>sy_commands := cs\<rparr>) b)"
| head_advances: "s = by_sys b \<Longrightarrow> by_head b = [] \<Longrightarrow> sy_commands s = Advance m # cs \<Longrightarrow>
    head_step pv he (hs_head (sy_head s)) (CommandInput (Some (Advance m))) = (st, outs, None) \<Longrightarrow>
    bounded_step pv proves answers oe b (head_turn_begun (sy_head s\<lparr>hs_head := st\<rparr>) outs (s\<lparr>sy_commands := cs\<rparr>) b)"
| head_job_result: "s = by_sys b \<Longrightarrow> by_head b = [] \<Longrightarrow> (result_job_id r, inputs) \<in> set (hs_running (sy_head s)) \<Longrightarrow>
    (\<And>res. r = Inr res \<Longrightarrow> proves inputs (pj_proof res)) \<Longrightarrow>
    head_step pv he (hs_head (sy_head s)) (JobResult (Some r)) = (st, outs, None) \<Longrightarrow>
    bounded_step pv proves answers oe b
      (head_turn_begun (sy_head s\<lparr>hs_head := st,
         hs_running := filter (\<lambda>(k, _). k \<noteq> result_job_id r) (hs_running (sy_head s))\<rparr>) outs s b)"
| head_sends: "by_head b = m # ms \<Longrightarrow> head_send m (by_sys b) = Some s \<Longrightarrow>
    bounded_step pv proves answers oe b (b\<lparr>by_sys := s, by_head := ms\<rparr>)"
| observes: "s = by_sys b \<Longrightarrow> by_observer b = [] \<Longrightarrow> sy_events s = ev # evs \<Longrightarrow>
    observer_step oe (sy_observer s) (Some ev) = (ob, cmds, None) \<Longrightarrow>
    bounded_step pv proves answers oe b (b\<lparr>by_sys := s\<lparr>sy_observer := ob, sy_events := evs\<rparr>, by_observer := cmds\<rparr>)"
| observer_sends: "s = by_sys b \<Longrightarrow> by_observer b = c # cs \<Longrightarrow> length (sy_commands s) < COMMAND_CAPACITY \<Longrightarrow>
    bounded_step pv proves answers oe b (b\<lparr>by_sys := s\<lparr>sy_commands := sy_commands s @ [c]\<rparr>, by_observer := cs\<rparr>)"

inductive bounded_reach ::
    "('p \<Rightarrow> bytes) \<Rightarrow> (('x, 'h, 'c, 'u, 'v, 'g) proof_inputs \<Rightarrow> 'p \<Rightarrow> bool) \<Rightarrow> ('x, 'h, 'c, 'u, 'v, 'g) preparation set
      \<Rightarrow> (('x, 'h, 'c, 'u, 'v, 'g) window, 'p, 'r) observer_env \<Rightarrow> disk
      \<Rightarrow> u64 \<times> b256 \<times> u64 \<Rightarrow> ('x, 'h, 'c, 'u, 'v, 'g, 'p, 'r) bounded_system \<Rightarrow> bool"
  for pv :: "'p \<Rightarrow> bytes" and proves :: "('x, 'h, 'c, 'u, 'v, 'g) proof_inputs \<Rightarrow> 'p \<Rightarrow> bool"
    and answers :: "('x, 'h, 'c, 'u, 'v, 'g) preparation set"
    and oe :: "(('x, 'h, 'c, 'u, 'v, 'g) window, 'p, 'r) observer_env" and disk0 :: disk and start :: "u64 \<times> b256 \<times> u64" where
  boot: "bridge_head_new env = Inr st0 \<Longrightarrow> start = (slot, h, c) \<Longrightarrow>
    head_start he slot h c latest st0 = (st, outs, None) \<Longrightarrow>
    s = \<lparr>sy_detector = detector_boot (detector_init slot h c None),
         sy_head = \<lparr>hs_head = st, hs_running = [], hs_staged = [], hs_events = []\<rparr>, sy_observer = (observer_new, disk0),
         sy_finality = [], sy_stage = [], sy_advance = [], sy_commands = [], sy_events = []\<rparr> \<Longrightarrow>
    bounded_reach pv proves answers oe disk0 start
      (head_turn_begun (sy_head s) outs s \<lparr>by_sys = s, by_head = [], by_detector = [], by_observer = []\<rparr>)"
| step: "bounded_reach pv proves answers oe disk0 start b \<Longrightarrow> bounded_step pv proves answers oe b b' \<Longrightarrow>
    bounded_reach pv proves answers oe disk0 start b'"

section \<open>Refinement\<close>

text \<open>The state of the unbounded process: what is pending counts as sent.\<close>

definition all_sent :: "('x, 'h, 'c, 'u, 'v, 'g, 'p, 'r) bounded_system \<Rightarrow> ('x, 'h, 'c, 'u, 'v, 'g, 'p, 'r) bridge_system" where
  "all_sent b = (by_sys b)\<lparr>sy_finality := sy_finality (by_sys b) @ by_detector b,
     sy_stage := sy_stage (by_sys b) @ routed_stage (by_head b), sy_advance := sy_advance (by_sys b) @ routed_advance (by_head b),
     sy_commands := sy_commands (by_sys b) @ by_observer b, sy_events := sy_events (by_sys b) @ routed_events (by_head b)\<rparr>"

lemma all_sent_sel [simp]:
  "sy_detector (all_sent b) = sy_detector (by_sys b)" "sy_head (all_sent b) = sy_head (by_sys b)"
  "sy_observer (all_sent b) = sy_observer (by_sys b)" "sy_finality (all_sent b) = sy_finality (by_sys b) @ by_detector b"
  "sy_stage (all_sent b) = sy_stage (by_sys b) @ routed_stage (by_head b)"
  "sy_advance (all_sent b) = sy_advance (by_sys b) @ routed_advance (by_head b)"
  "sy_commands (all_sent b) = sy_commands (by_sys b) @ by_observer b"
  "sy_events (all_sent b) = sy_events (by_sys b) @ routed_events (by_head b)"
  by (simp_all add: all_sent_def)

lemma all_sent_detector_turn:
  "by_detector b = [] \<Longrightarrow> sy_finality s = sy_finality (by_sys b) \<Longrightarrow> sy_head s = sy_head (by_sys b) \<Longrightarrow>
   sy_observer s = sy_observer (by_sys b) \<Longrightarrow> sy_commands s = sy_commands (by_sys b) \<Longrightarrow> sy_events s = sy_events (by_sys b) \<Longrightarrow>
   sy_detector s = sy_detector (by_sys b) \<Longrightarrow>
   all_sent (detector_turn_begun ds outs s b) = detector_turn_done ds outs
     ((all_sent b)\<lparr>sy_stage := sy_stage s @ routed_stage (by_head b), sy_advance := sy_advance s @ routed_advance (by_head b)\<rparr>)"
  by (cases s) (simp add: all_sent_def detector_turn_begun_def detector_turn_done_def)

lemma all_sent_head_turn:
  "by_head b = [] \<Longrightarrow> sy_detector s = sy_detector (by_sys b) \<Longrightarrow> sy_observer s = sy_observer (by_sys b) \<Longrightarrow>
   sy_stage s = sy_stage (by_sys b) \<Longrightarrow> sy_advance s = sy_advance (by_sys b) \<Longrightarrow> sy_events s = sy_events (by_sys b) \<Longrightarrow>
   all_sent (head_turn_begun hs outs s b) = head_turn_done hs outs
     ((all_sent b)\<lparr>sy_finality := sy_finality s @ by_detector b, sy_commands := sy_commands s @ by_observer b\<rparr>)"
  by (cases s) (simp add: all_sent_def head_turn_begun_def head_turn_done_def routed_stage_def)

lemma all_sent_head_send:
  "by_head b = m # ms \<Longrightarrow> head_send m (by_sys b) = Some s \<Longrightarrow> all_sent (b\<lparr>by_sys := s, by_head := ms\<rparr>) = all_sent b"
  by (cases m) (auto simp: all_sent_def head_send_def routed_stage_def routed_advance_def routed_events_def split: if_splits)

lemma all_sent_worker:
  "all_sent (b\<lparr>by_sys := (by_sys b)\<lparr>sy_detector := ds\<rparr>\<rparr>) = (all_sent b)\<lparr>sy_detector := ds\<rparr>"
  by (cases "by_sys b") (simp add: all_sent_def)

lemma all_sent_observes:
  "sy_events (by_sys b) = ev # evs \<Longrightarrow> by_observer b = [] \<Longrightarrow>
   all_sent (b\<lparr>by_sys := (by_sys b)\<lparr>sy_observer := ob, sy_events := evs\<rparr>, by_observer := cmds\<rparr>) =
   (all_sent b)\<lparr>sy_observer := ob, sy_commands := sy_commands (all_sent b) @ cmds, sy_events := evs @ routed_events (by_head b)\<rparr>"
  by (cases "by_sys b") (simp add: all_sent_def)

lemma bounded_step_refines:
  assumes "bounded_step pv proves answers oe b b'" and "bridge_reach pv proves answers oe disk0 start (all_sent b)"
  shows "bridge_reach pv proves answers oe disk0 start (all_sent b')"
  using assms
proof (induction rule: bounded_step.induct)
  case (tick s b d' outs)
  have "all_sent (detector_turn_begun (sy_detector s\<lparr>ds_detector := d'\<rparr>) outs s b) =
      detector_turn_done (sy_detector (all_sent b)\<lparr>ds_detector := d'\<rparr>) outs (all_sent b)"
    using tick.hyps by (subst all_sent_detector_turn) (simp_all add: all_sent_def)
  then show ?case using bridge_reach.tick[OF tick.prems] tick.hyps by simp
next
  case (detector_stage s b u us d' outs)
  have "all_sent (detector_turn_begun (sy_detector s\<lparr>ds_detector := d'\<rparr>) outs (s\<lparr>sy_stage := us\<rparr>) b) =
      detector_turn_done (sy_detector (all_sent b)\<lparr>ds_detector := d'\<rparr>) outs
        ((all_sent b)\<lparr>sy_stage := us @ routed_stage (by_head b)\<rparr>)"
    using detector_stage.hyps by (subst all_sent_detector_turn) (simp_all add: all_sent_def)
  then show ?case using bridge_reach.detector_stage[OF detector_stage.prems] detector_stage.hyps by simp
next
  case (detector_advance s b u us d' outs)
  have "all_sent (detector_turn_begun (sy_detector s\<lparr>ds_detector := d'\<rparr>) outs (s\<lparr>sy_advance := us\<rparr>) b) =
      detector_turn_done (sy_detector (all_sent b)\<lparr>ds_detector := d'\<rparr>) outs
        ((all_sent b)\<lparr>sy_advance := us @ routed_advance (by_head b)\<rparr>)"
    using detector_advance.hyps by (subst all_sent_detector_turn) (simp_all add: all_sent_def)
  then show ?case using bridge_reach.detector_advance[OF detector_advance.prems] detector_advance.hyps by simp
next
  case (detector_result s b r d' outs)
  have "all_sent (detector_turn_begun (sy_detector s\<lparr>ds_detector := d', ds_result_chan := None\<rparr>) outs s b) =
      detector_turn_done (sy_detector (all_sent b)\<lparr>ds_detector := d', ds_result_chan := None\<rparr>) outs (all_sent b)"
    using detector_result.hyps by (subst all_sent_detector_turn) (simp_all add: all_sent_def)
  then show ?case using bridge_reach.detector_result[OF detector_result.prems] detector_result.hyps by simp
next
  case (take_job s b j)
  show ?case using bridge_reach.take_job[OF take_job.prems, of j] take_job.hyps by (simp add: all_sent_worker)
next
  case (finish_job s b j p q r)
  show ?case using bridge_reach.finish_job[OF finish_job.prems, of j p q r] finish_job.hyps by (simp add: all_sent_worker)
next
  case (detector_sends s b dual duals)
  then show ?case by (simp add: all_sent_def)
next
  case (head_finality s b dual duals he st outs)
  have "all_sent (head_turn_begun (sy_head s\<lparr>hs_head := st\<rparr>) outs (s\<lparr>sy_finality := duals\<rparr>) b) =
      head_turn_done (sy_head (all_sent b)\<lparr>hs_head := st\<rparr>) outs ((all_sent b)\<lparr>sy_finality := duals @ by_detector b\<rparr>)"
    using head_finality.hyps by (subst all_sent_head_turn) (simp_all add: all_sent_def)
  then show ?case using bridge_reach.head_finality[OF head_finality.prems] head_finality.hyps by simp
next
  case (head_stages s b w cs he st outs)
  have "all_sent (head_turn_begun (sy_head s\<lparr>hs_head := st, hs_staged := hs_staged (sy_head s) @ [w]\<rparr>) outs
        (s\<lparr>sy_commands := cs\<rparr>) b) =
      head_turn_done (sy_head (all_sent b)\<lparr>hs_head := st, hs_staged := hs_staged (sy_head (all_sent b)) @ [w]\<rparr>) outs
        ((all_sent b)\<lparr>sy_commands := cs @ by_observer b\<rparr>)"
    using head_stages.hyps by (subst all_sent_head_turn) (simp_all add: all_sent_def)
  then show ?case using bridge_reach.head_stages[OF head_stages.prems] head_stages.hyps by simp
next
  case (head_advances s b m cs he st outs)
  have "all_sent (head_turn_begun (sy_head s\<lparr>hs_head := st\<rparr>) outs (s\<lparr>sy_commands := cs\<rparr>) b) =
      head_turn_done (sy_head (all_sent b)\<lparr>hs_head := st\<rparr>) outs ((all_sent b)\<lparr>sy_commands := cs @ by_observer b\<rparr>)"
    using head_advances.hyps by (subst all_sent_head_turn) (simp_all add: all_sent_def)
  then show ?case using bridge_reach.head_advances[OF head_advances.prems] head_advances.hyps by simp
next
  case (head_job_result s b r inputs he st outs)
  let ?hs = "(sy_head (all_sent b))\<lparr>hs_head := st, hs_running := filter (\<lambda>(k, _). k \<noteq> result_job_id r) (hs_running (sy_head (all_sent b)))\<rparr>"
  have "all_sent (head_turn_begun (sy_head s\<lparr>hs_head := st,
        hs_running := filter (\<lambda>(k, _). k \<noteq> result_job_id r) (hs_running (sy_head s))\<rparr>) outs s b) =
      head_turn_done ?hs outs (all_sent b)"
    using head_job_result.hyps by (subst all_sent_head_turn) (simp_all add: all_sent_def)
  moreover have "bridge_reach pv proves answers oe disk0 start (head_turn_done ?hs outs (all_sent b))"
    using head_job_result.hyps by (intro bridge_reach.head_job_result[OF head_job_result.prems]) auto
  ultimately show ?case by simp
next
  case (head_sends b m ms s)
  then show ?case by (simp add: all_sent_head_send)
next
  case (observes s b ev evs ob cmds)
  show ?case using bridge_reach.observes[OF observes.prems, of ev "evs @ routed_events (by_head b)" ob cmds] observes.hyps
    by (simp add: all_sent_observes)
next
  case (observer_sends s b c cs)
  then show ?case by (simp add: all_sent_def)
qed

lemma bounded_reach_refines:
  assumes "bounded_reach pv proves answers oe disk0 start b"
  shows "bridge_reach pv proves answers oe disk0 start (all_sent b)"
  using assms
proof induction
  case (boot env st0 slot h c he latest st outs s)
  have "all_sent (head_turn_begun (sy_head s) outs s \<lparr>by_sys = s, by_head = [], by_detector = [], by_observer = []\<rparr>) =
      head_turn_done (sy_head s) outs s"
    by (simp add: boot(4) all_sent_def head_turn_begun_def head_turn_done_def)
  with bridge_reach.boot[OF boot(1-3)] boot(4) show ?case by simp
next
  case (step b b')
  from bounded_step_refines[OF step.hyps(2) step.IH] show ?case .
qed

section \<open>Capacities are kept\<close>

definition within_capacity :: "('x, 'h, 'c, 'u, 'v, 'g, 'p, 'r) bridge_system \<Rightarrow> bool" where
  "within_capacity s \<longleftrightarrow> length (sy_finality s) \<le> FINALITY_OUTPUT_CAPACITY \<and> length (sy_stage s) \<le> STAGE_INPUT_CAPACITY \<and>
     length (sy_advance s) \<le> ADVANCE_INPUT_CAPACITY \<and> length (sy_commands s) \<le> COMMAND_CAPACITY \<and>
     length (sy_events s) \<le> EVENT_CAPACITY"

lemma turn_begun_sel [simp]:
  "by_sys (head_turn_begun hs outs s b) = s\<lparr>sy_head := fold head_deliver outs hs\<rparr>"
  "by_observer (head_turn_begun hs outs s b) = by_observer b" "by_detector (head_turn_begun hs outs s b) = by_detector b"
  "by_head (head_turn_begun hs outs s b) = outs"
  "by_sys (detector_turn_begun ds douts s b) = s\<lparr>sy_detector := fold (deliver (ds_detector (sy_detector s))) douts ds\<rparr>"
  by (simp_all add: head_turn_begun_def detector_turn_begun_def)

lemma head_send_capacity: "head_send m s = Some s' \<Longrightarrow> within_capacity s \<Longrightarrow> within_capacity s'"
  by (cases m) (auto simp: head_send_def within_capacity_def split: if_splits)

lemma bounded_step_capacity: "bounded_step pv proves answers oe b b' \<Longrightarrow> within_capacity (by_sys b) \<Longrightarrow> within_capacity (by_sys b')"
  by (induction rule: bounded_step.induct) (auto simp: within_capacity_def dest: head_send_capacity[unfolded within_capacity_def])

lemma bounded_reach_capacity: "bounded_reach pv proves answers oe disk0 start b \<Longrightarrow> within_capacity (by_sys b)"
  by (induction rule: bounded_reach.induct) (auto intro: bounded_step_capacity, simp add: within_capacity_def)

text \<open>Two commands are never too many: at most one advance, then at most one stage command.\<close>

lemma pipeline_commands:
  assumes "pipeline s"
  shows "length (sy_commands s) \<le> COMMAND_CAPACITY"
proof -
  from assms obtain as where as: "length as \<le> 1" "sy_commands s = as @ filter is_stage (sy_commands s)"
    by (auto simp: pipeline_def orderly_def)
  moreover from assms have "length (filter is_stage (sy_commands s)) \<le> 1" by (simp add: pipeline_def with_observer_def)
  moreover from arg_cong[OF as(2), of length]
  have "length (sy_commands s) = length as + length (filter is_stage (sy_commands s))" by (simp only: length_append)
  ultimately show ?thesis unfolding COMMAND_CAPACITY_def by linarith
qed

section \<open>A start\<close>

lemma bounded_started:
  fixes pv :: "'p \<Rightarrow> bytes" and he :: "'r head_env"
  assumes "he_observer_alive he"
  shows "\<exists>(b :: ('x, 'h, 'c, 'u, 'v, 'g, 'p, 'r) bounded_system) n. bounded_reach pv proves answers oe disk0 (slot, h, c) b \<and>
    sy_events (by_sys b) = [NoticeEvent (Started n)] \<and> by_head b = [] \<and> by_detector b = [] \<and> by_observer b = [] \<and>
    sy_observer (by_sys b) = (observer_new, disk0)"
proof -
  let ?st0 = "\<lparr>bh_current_slot = 0, bh_next_slot = 0, bh_job_id = 0, bh_prover_jobs = [], bh_stage_input_tx = False,
    bh_store_hash = 0, bh_queue_cursor = 0\<rparr> :: ('x, 'h, 'c, 'u, 'v, 'g) window bridge_head"
  have new: "bridge_head_new (\<lambda>_. Some ''set'') = Inr ?st0"
    by (simp add: bridge_head_new_def validate_env_def required_env_def)
  obtain n where start:
    "(head_start he slot h c slot ?st0 :: ('x, 'h, 'c, 'u, 'v, 'g, 'p, 'r) head_turn) =
       (sample_head slot h c, [EmitEvent (NoticeEvent (Started n))], None)"
    using assms by (simp add: head_run_defs sample_head_def)
  note b0 = bounded_reach.boot[OF new refl start refl, of pv proves answers oe disk0]
  let ?s0 = "\<lparr>sy_detector = detector_boot (detector_init slot h c None),
    sy_head = \<lparr>hs_head = sample_head slot h c, hs_running = [], hs_staged = [], hs_events = []\<rparr>, sy_observer = (observer_new, disk0),
    sy_finality = [], sy_stage = [], sy_advance = [], sy_commands = [], sy_events = []\<rparr>
      :: ('x, 'h, 'c, 'u, 'v, 'g, 'p, 'r) bridge_system"
  let ?b0 = "head_turn_begun (sy_head ?s0) [EmitEvent (NoticeEvent (Started n))] ?s0
    \<lparr>by_sys = ?s0, by_head = [], by_detector = [], by_observer = []\<rparr>"
  have turn: "by_head ?b0 = [EmitEvent (NoticeEvent (Started n))]" by simp
  have "head_send (EmitEvent (NoticeEvent (Started n))) (by_sys ?b0) =
      Some ((by_sys ?b0)\<lparr>sy_events := [NoticeEvent (Started n)]\<rparr>)"
    by (simp add: head_send_def EVENT_CAPACITY_def)
  from bounded_reach.step[OF b0 bounded_step.head_sends[OF turn this]] show ?thesis
    by (intro exI conjI) (assumption | simp add: head_turn_begun_def)+
qed

section \<open>Properties\<close>



text \<open>C11: No channel overflows and the observer never waits. In every state the process with bounded channels reaches, no
  channel holds more than its capacity; a command the observer has to send always finds room, so the observer, the only
  reader of the bridge head's events, never waits for the bridge head; and no more prover tasks are
  outstanding than the job channel holds, so no task waits to report.\<close>

theorem observer_never_waits:
  assumes "bounded_reach pv proves answers oe disk0 start b"
  shows "within_capacity (by_sys b) \<and> length (sy_commands (by_sys b)) + length (by_observer b) \<le> COMMAND_CAPACITY \<and>
    length (hs_running (sy_head (by_sys b))) < JOB_CAPACITY"
proof -
  have pipe: "pipeline (all_sent b)" by (rule system_pipeline[OF bounded_reach_refines[OF assms]])
  then have "length (hs_running (sy_head (by_sys b))) < JOB_CAPACITY"
    by (simp add: pipeline_def with_head_def JOB_CAPACITY_def)
  with bounded_reach_capacity[OF assms] pipeline_commands[OF pipe] show ?thesis by simp
qed

theorem observer_never_waits_witness:
  "\<exists>(b :: (unit, unit, u8, u64, u64, unit, bytes, nat) bounded_system).
     bounded_reach (\<lambda>p. p) (\<lambda>i p. True) {} sample_observer_env sample_disk (64, 7, 0) b \<and> sy_events (by_sys b) \<noteq> [] \<and>
     within_capacity (by_sys b) \<and> length (sy_commands (by_sys b)) + length (by_observer b) \<le> COMMAND_CAPACITY"
proof -
  obtain b :: "(unit, unit, u8, u64, u64, unit, bytes, nat) bounded_system" and n where
    b: "bounded_reach (\<lambda>p. p) (\<lambda>i p. True) {} sample_observer_env sample_disk (64, 7, 0) b"
    "sy_events (by_sys b) = [NoticeEvent (Started n)]"
    using bounded_started[of sample_head_env "\<lambda>p. p" "\<lambda>i p. True" "{}" sample_observer_env sample_disk 64 7 0] by auto
  from observer_never_waits[OF b(1)] b show ?thesis by auto
qed

end
