(* ===== verification/Nori_Diagnostics.thy ===== *)
theory Nori_Diagnostics
  imports Nori_Bridge_Head Nori_Text "HOL-Library.Sublist"
begin

text \<open>
  What the program says about itself: the texts of the guest's errors (\<open>Display\<close> in \<open>nori-program/src/mpt.rs\<close> and
  \<open>consensus.rs\<close>; the text of a failed prover job is in \<open>Nori_Bridge_Head\<close>), the configuration written to the log (\<open>print_config\<close>,
  \<open>sp1_prover_config.rs\<close>), the log level (\<open>utils.rs\<close>) and the settings of the gRPC endpoint (\<open>grpc.rs\<close>). How hashes, addresses and
  256-bit integers are written (package alloy) is a parameter.
\<close>

section \<open>Texts of errors\<close>

record alloy_texts =
  at_debug_address :: "address \<Rightarrow> string"
  at_debug_b256 :: "b256 \<Rightarrow> string"
  at_debug_u256 :: "u256 \<Rightarrow> string"
  at_show_address :: "address \<Rightarrow> string"

fun show_mpt_error :: "alloy_texts \<Rightarrow> mpt_error \<Rightarrow> string" where
  "show_mpt_error TX (InvalidProofRequestQueueAccountProof addr reason) =
     ''MPT proof request queue account proof failed for '' @ at_debug_address TX addr @ '': '' @ debug_str reason"
| "show_mpt_error TX (InvalidTargetAccountProof addr reason) =
     ''MPT target account proof failed for '' @ at_debug_address TX addr @ '': '' @ debug_str reason"
| "show_mpt_error TX (InvalidStorageSlotProof slot_key reason) =
     ''MPT storage proof failed for slot '' @ at_debug_b256 TX slot_key @ '': '' @ debug_str reason"
| "show_mpt_error TX (LeafHashError target slot_key value reason) =
     ''MPT error hashing request leaf for target '' @ at_debug_address TX target @ '' slot '' @ at_debug_b256 TX slot_key @
     '' value '' @ at_debug_u256 TX value @ '': '' @ debug_str reason"
| "show_mpt_error TX (ExceedsMaxTreeDepth slots requested_depth max_depth) =
     ''Merkle tree depth '' @ show_nat requested_depth @ '' (derived from contract storage slots = '' @ show_nat slots @
     '') exceeds the maximum allowed depth of '' @ show_nat max_depth"
| "show_mpt_error TX (CursorAheadOfHead cursor head) =
     ''Request cursor '' @ show_word cursor @ '' is ahead of the proven queue head '' @ show_word head"
| "show_mpt_error TX (BatchSizeMismatch expected supplied) =
     ''Queue batch size mismatch: state derives '' @ show_word expected @ '' entries, witness supplied '' @ show_nat supplied"
| "show_mpt_error TX (MissingTargetWitness target) =
     ''No account proof supplied for target '' @ at_debug_address TX target"
| "show_mpt_error TX (MissingSlotWitness target slot_key) =
     ''No slot proof supplied for target '' @ at_debug_address TX target @ '' slot '' @ at_debug_b256 TX slot_key"

fun show_program_error :: "alloy_texts \<Rightarrow> program_error \<Rightarrow> string" where
  "show_program_error TX (HashChainMismatch expected actual) =
     ''Hash chain mismatch: expected '' @ at_debug_b256 TX expected @ '', got '' @ at_debug_b256 TX actual"
| "show_program_error TX (InvalidUpdate index reason) = ''Invalid update at index '' @ show_nat index @ '': '' @ reason"
| "show_program_error TX (InvalidFinalityUpdate reason) = ''Invalid finality update: '' @ reason"
| "show_program_error TX MissingExecutionRoot = ''Missing execution root in proof inputs''"
| "show_program_error TX (StoreHashingError reason) = ''Failed to hash store: '' @ reason"
| "show_program_error TX (MptError e) = ''MPT error: '' @ show_mpt_error TX e"
| "show_program_error TX (NonCheckpointOutputSlot slot) =
     ''Output slot '' @ show_word slot @ '' is not a checkpoint slot (% 32 == '' @ show_word (slot mod 32) @ '')''"

section \<open>The configuration in the log\<close>

definition show_bool :: "bool \<Rightarrow> string" where
  "show_bool b = (if b then ''true'' else ''false'')"

definition rule_line :: string where
  "rule_line = ''========================================''"

fun fulfillment_line :: "fulfillment_config \<Rightarrow> string" where
  "fulfillment_line (Auction timeout min_auction_period) =
     ''  Fulfillment Strategy: auction (timeout: '' @ show_word timeout @ ''s, min_auction_period: '' @
     show_word min_auction_period @ ''s)''"
| "fulfillment_line Hosted = ''  Fulfillment Strategy: hosted''"
| "fulfillment_line Reserved = ''  Fulfillment Strategy: reserved''"

definition limit_line :: "string \<Rightarrow> u64 option \<Rightarrow> string" where
  "limit_line name limit = (case limit of
     Some l \<Rightarrow> ''  '' @ name @ '' Limit: '' @ show_word l
   | None \<Rightarrow> ''  '' @ name @ '' Limit: (determined by simulation)'')"

definition whitelist_lines :: "alloy_texts \<Rightarrow> network_config \<Rightarrow> string list" where
  "whitelist_lines TX net = (case nc_whitelist net of
     Some addresses \<Rightarrow>
       if addresses = [] then [''  Whitelist: (open - empty list sent, any prover can participate)'']
       else [''  Whitelist:''] @ map (\<lambda>addr. ''    - '' @ at_show_address TX addr) addresses @
         [''  Whitelist add high availability: '' @ show_bool (nc_whitelist_add_high_availability net),
          ''  Whitelist add default pool: '' @ show_bool (nc_whitelist_add_default net)]
   | None \<Rightarrow> [''  Whitelist: (SDK default - recently reliable provers)''])"

definition network_lines :: "alloy_texts \<Rightarrow> network_config \<Rightarrow> string list" where
  "network_lines TX net =
     [''Prover Mode: network'', ''----------------------------------------'', ''Network Configuration:'',
      ''  Network Mode: '' @ (case nc_network_mode net of MainnetMode \<Rightarrow> ''mainnet'' | ReservedMode \<Rightarrow> ''reserved''),
      ''  RPC URL: '' @ nc_rpc_url net, fulfillment_line (nc_fulfillment net),
      ''  Max Price per PGU: '' @ show_word (nc_max_price_per_pgu net),
      ''  Skip Simulation: '' @ show_bool (nc_skip_simulation net),
      limit_line ''Cycle'' (nc_cycle_limit net), limit_line ''Gas'' (nc_gas_limit net),
      ''  Timeout: '' @ show_word (nc_timeout net) @ ''s''] @ whitelist_lines TX net"

definition print_config :: "alloy_texts \<Rightarrow> prover_config \<Rightarrow> string list" where
  "print_config TX config =
     [rule_line, ''SP1 Prover Configuration'', rule_line,
      ''Proof Type: '' @ (case pc_proof_type config of Plonk \<Rightarrow> ''plonk'' | Groth16 \<Rightarrow> ''groth16'')] @
     (case pc_mode config of
        LocalMode m \<Rightarrow> [''Prover Mode: '' @ (case m of Mock \<Rightarrow> ''mock'' | Cpu \<Rightarrow> ''cpu'' | Cuda \<Rightarrow> ''cuda'') @ '' (local)'']
      | NetworkMode net \<Rightarrow> network_lines TX net) @
     [rule_line]"

section \<open>Log level and endpoint\<close>

definition env_or_empty :: "env \<Rightarrow> string \<Rightarrow> string" where
  "env_or_empty env name = (case env name of None \<Rightarrow> [] | Some v \<Rightarrow> v)"

definition enable_logging_from_cargo_run :: "env \<Rightarrow> env" where
  "enable_logging_from_cargo_run env =
     (let nori_log = env_or_empty env ''NORI_LOG'';
          log_level =
            (if sublist ''debug'' nori_log \<or> sublist ''trace'' nori_log then nori_log
             else if nori_log = [] then ''alloy_transport_http=off''
             else nori_log @ '',alloy_transport_http=off'')
      in env(''RUST_LOG'' \<mapsto> log_level))"

definition enable_logging_with_helios_suppression :: "env \<Rightarrow> env" where
  "enable_logging_with_helios_suppression env =
     (let nori_log = env_or_empty env ''NORI_LOG'';
          log_level = (if nori_log = [] then ''helios::consensus=error'' else nori_log @ '',helios::consensus=error'')
      in env(''RUST_LOG'' \<mapsto> log_level))"

text \<open>Seconds; parsing the address and loading the TLS roots (package tonic) are parameters.\<close>

record 'a endpoint =
  ep_addr :: 'a
  ep_timeout :: u64
  ep_connect_timeout :: u64
  ep_keep_alive_while_idle :: bool
  ep_http2_keep_alive_interval :: u64
  ep_keep_alive_timeout :: u64
  ep_tcp_keepalive :: "u64 option"
  ep_tcp_nodelay :: bool
  ep_tls :: bool

definition configure_endpoint ::
    "(string \<Rightarrow> string + 'a) \<Rightarrow> ('a endpoint \<Rightarrow> string + 'a endpoint) \<Rightarrow> string \<Rightarrow> string + 'a endpoint" where
  "configure_endpoint endpoint_new tls_config addr =
     bind_res (endpoint_new addr) (\<lambda>a.
     let endpoint = \<lparr>ep_addr = a, ep_timeout = 60, ep_connect_timeout = 15, ep_keep_alive_while_idle = True,
       ep_http2_keep_alive_interval = 15, ep_keep_alive_timeout = 15, ep_tcp_keepalive = Some 60, ep_tcp_nodelay = True,
       ep_tls = False\<rparr> in
     if prefix ''https://'' addr then tls_config endpoint else Inr endpoint)"

section \<open>Reading error texts back\<close>

text \<open>Letters and digits: alloy writes hashes, addresses and integers with these alone.\<close>

definition word_char :: "char \<Rightarrow> bool" where
  "word_char c \<longleftrightarrow> (let n = of_char c :: nat in 48 \<le> n \<and> n \<le> 57 \<or> 65 \<le> n \<and> n \<le> 90 \<or> 97 \<le> n \<and> n \<le> 122)"

definition text_env_laws :: "alloy_texts \<Rightarrow> bool" where
  "text_env_laws TX \<longleftrightarrow> delimited_text (at_debug_address TX) word_char \<and> delimited_text (at_debug_b256 TX) word_char \<and>
     delimited_text (at_debug_u256 TX) word_char \<and> delimited_text (at_show_address TX) word_char"

lemma stop_chars [simp]:
  "\<not> word_char (CHR '' '')" "\<not> word_char (CHR '':'')" "\<not> word_char (CHR '','')"
  "\<not> is_digit (CHR '' '')" "\<not> is_digit (CHR '':'')" "\<not> is_digit (CHR '')'')" "\<not> is_digit (CHR ''s'')"
  by (simp_all add: word_char_def is_digit_def)

lemma text_fields:
  assumes "text_env_laws TX" and "\<not> word_char c" and "\<not> word_char d"
  shows "at_debug_address TX a @ c # xs = at_debug_address TX a' @ d # ys \<longleftrightarrow> a = a' \<and> c = d \<and> xs = ys"
    and "at_debug_b256 TX h @ c # xs = at_debug_b256 TX h' @ d # ys \<longleftrightarrow> h = h' \<and> c = d \<and> xs = ys"
    and "at_debug_u256 TX v @ c # xs = at_debug_u256 TX v' @ d # ys \<longleftrightarrow> v = v' \<and> c = d \<and> xs = ys"
  using assms by (auto simp: text_env_laws_def delimited_text.field_eq)

lemma text_ends:
  assumes "text_env_laws TX"
  shows "at_debug_address TX a = at_debug_address TX a' \<longleftrightarrow> a = a'"
    and "at_debug_b256 TX h = at_debug_b256 TX h' \<longleftrightarrow> h = h'"
    and "at_show_address TX a = at_show_address TX a' \<longleftrightarrow> a = a'"
  using assms by (auto simp: text_env_laws_def delimited_text.enc_eq)

lemma unat_same: "unat a = unat b \<longleftrightarrow> a = b"
  by (auto intro: unsigned_word_eqI)

lemmas text_simps = text_fields text_ends dec.field_eq unat_same

lemma mpt_error_text_eq: "text_env_laws TX \<Longrightarrow> show_mpt_error TX e = show_mpt_error TX e' \<longleftrightarrow> e = e'"
  by (cases e; cases e'; simp add: text_simps; blast?)

lemma program_error_text_eq: "text_env_laws TX \<Longrightarrow> show_program_error TX e = show_program_error TX e' \<longleftrightarrow> e = e'"
  by (cases e; cases e'; simp add: text_simps mpt_error_text_eq; blast?)

lemma prover_job_error_text_eq: "show_prover_job_error e = show_prover_job_error e' \<longleftrightarrow> e = e'"
  by (cases e; cases e') (simp add: show_prover_job_error_def text_simps)

section \<open>What the log shows of the configuration\<close>

text \<open>The configuration without the private key, and without the extension flags when there is no list to extend.\<close>

definition redacted_network :: "network_config \<Rightarrow> network_config" where
  "redacted_network net =
     (if nc_whitelist net = None \<or> nc_whitelist net = Some []
      then net\<lparr>nc_private_key := [], nc_whitelist_add_high_availability := False, nc_whitelist_add_default := False\<rparr>
      else net\<lparr>nc_private_key := []\<rparr>)"

definition redacted :: "prover_config \<Rightarrow> prover_config" where
  "redacted config = (case pc_mode config of
     LocalMode m \<Rightarrow> config
   | NetworkMode net \<Rightarrow> config\<lparr>pc_mode := NetworkMode (redacted_network net)\<rparr>)"

lemma show_bool_eq [simp]: "show_bool b = show_bool b' \<longleftrightarrow> b = b'"
  by (simp add: show_bool_def)

lemma fulfillment_line_eq: "fulfillment_line f = fulfillment_line f' \<longleftrightarrow> f = f'"
  by (cases f; cases f'; simp add: text_simps)

lemma show_nat_not_paren: "show_nat n \<noteq> CHR ''('' # xs"
proof
  assume "show_nat n = CHR ''('' # xs"
  then have "CHR ''('' \<in> set (show_nat n)" by simp
  from show_nat_digits[OF this] show False by (simp add: is_digit_def)
qed

lemma limit_line_eq: "limit_line name l = limit_line name l' \<longleftrightarrow> l = l'"
  by (cases l; cases l'; simp add: limit_line_def unat_same show_nat_not_paren show_nat_not_paren[symmetric])

lemma redacted_network_eq:
  "redacted_network net = redacted_network net' \<longleftrightarrow>
     nc_network_mode net = nc_network_mode net' \<and> nc_rpc_url net = nc_rpc_url net' \<and> nc_fulfillment net = nc_fulfillment net' \<and>
     nc_max_price_per_pgu net = nc_max_price_per_pgu net' \<and> nc_cycle_limit net = nc_cycle_limit net' \<and>
     nc_gas_limit net = nc_gas_limit net' \<and> nc_skip_simulation net = nc_skip_simulation net' \<and> nc_timeout net = nc_timeout net' \<and>
     nc_whitelist net = nc_whitelist net' \<and>
     (nc_whitelist net \<noteq> None \<and> nc_whitelist net \<noteq> Some [] \<longrightarrow>
       nc_whitelist_add_high_availability net = nc_whitelist_add_high_availability net' \<and>
       nc_whitelist_add_default net = nc_whitelist_add_default net')"
  by (cases net; cases net') (auto simp: redacted_network_def)

lemma whitelist_lines_eq:
  assumes "text_env_laws TX"
  shows "whitelist_lines TX net = whitelist_lines TX net' \<longleftrightarrow> nc_whitelist net = nc_whitelist net' \<and>
     (nc_whitelist net \<noteq> None \<and> nc_whitelist net \<noteq> Some [] \<longrightarrow>
       nc_whitelist_add_high_availability net = nc_whitelist_add_high_availability net' \<and>
       nc_whitelist_add_default net = nc_whitelist_add_default net')"
proof -
  have "inj (\<lambda>addr. ''    - '' @ at_show_address TX addr)" by (rule injI) (simp add: text_ends[OF assms])
  then have "map (\<lambda>addr. ''    - '' @ at_show_address TX addr) as = map (\<lambda>addr. ''    - '' @ at_show_address TX addr) bs \<longleftrightarrow> as = bs"
    for as bs by (rule inj_map_eq_map)
  then show ?thesis
    by (cases "nc_whitelist net"; cases "nc_whitelist net'") (auto simp: whitelist_lines_def split: if_splits)
qed

lemma network_lines_eq:
  assumes "text_env_laws TX"
  shows "network_lines TX net = network_lines TX net' \<longleftrightarrow> redacted_network net = redacted_network net'"
proof -
  have "(case nc_network_mode net of MainnetMode \<Rightarrow> ''mainnet'' | ReservedMode \<Rightarrow> ''reserved'') =
      (case nc_network_mode net' of MainnetMode \<Rightarrow> ''mainnet'' | ReservedMode \<Rightarrow> ''reserved'') \<longleftrightarrow>
      nc_network_mode net = nc_network_mode net'"
    by (cases "nc_network_mode net"; cases "nc_network_mode net'") simp_all
  then show ?thesis
    by (auto simp: network_lines_def redacted_network_eq whitelist_lines_eq[OF assms] fulfillment_line_eq limit_line_eq
        dec.field_eq unat_same)
qed

lemma print_config_eq:
  assumes "text_env_laws TX"
  shows "print_config TX c = print_config TX c' \<longleftrightarrow> redacted c = redacted c'"
proof -
  have kinds: "network_lines TX net \<noteq> [l]" "[l] \<noteq> network_lines TX net" for net l
    by (simp_all add: network_lines_def)
  show ?thesis
    by (cases c; cases c'; cases "pc_mode c"; cases "pc_mode c'")
      (auto simp: print_config_def redacted_def network_lines_eq[OF assms] kinds split: proof_type.splits local_prover_mode.splits)
qed

section \<open>Concrete texts\<close>

definition sample_texts :: alloy_texts where
  "sample_texts = \<lparr>at_debug_address = (\<lambda>a. show_word a), at_debug_b256 = (\<lambda>h. show_word h), at_debug_u256 = (\<lambda>v. show_word v),
     at_show_address = (\<lambda>a. show_word a)\<rparr>"

lemma digit_word_char: "is_digit c \<Longrightarrow> word_char c"
  by (simp add: is_digit_def word_char_def Let_def split: if_splits)

lemma show_word_delimited: "delimited_text (\<lambda>w :: 'a::len word. show_word w) word_char"
  by unfold_locales (use show_nat_digits digit_word_char in \<open>auto simp: unat_same\<close>)

lemma sample_texts_laws: "text_env_laws sample_texts"
  by (simp add: text_env_laws_def sample_texts_def show_word_delimited)

section \<open>Properties\<close>



text \<open>C40: The log shows the whole configuration except the private key. Two configurations are logged alike exactly when they
  agree on everything but the private key and the flags that extend a whitelist when there is none: the key does not
  influence the log and nothing else that matters is left out.\<close>

theorem config_log_faithful:
  assumes "text_env_laws TX"
  shows "print_config TX c = print_config TX c' \<longleftrightarrow> redacted c = redacted c'"
  using assms by (rule print_config_eq)

theorem config_log_faithful_witness:
  "print_config sample_texts \<lparr>pc_mode = NetworkMode sample_network_config, pc_proof_type = Plonk\<rparr> =
   print_config sample_texts \<lparr>pc_mode = NetworkMode (sample_network_config\<lparr>nc_private_key := ''other''\<rparr>), pc_proof_type = Plonk\<rparr>"
  unfolding config_log_faithful[OF sample_texts_laws] by (simp add: redacted_def redacted_network_def sample_network_config_def)

end
