(* ===== verification/Nori_Tools.thy ===== *)
theory Nori_Tools
  imports Nori_Checkpoint
begin

text \<open>
  The command line tools: the build of the guest with its verification key (\<open>nori-build-zk/bin/make.rs\<close>), the public input
  derived from that key (\<open>nori/bin/extract_zeroth_public_input.rs\<close>), the vectors for cross-checking the hash
  (\<open>nori-hash/src/bin/hash_vectors.rs\<close>), the generator of a regression fixture
  (\<open>nori-test-fixtures/bin/generate_non_checkpoint_fixture.rs\<close>) and the debugging print of a store (\<open>nori-hash/src/utils.rs\<close>).
  The SP1 compiler and SDK and the integers of package ruint are parameters; what is printed on the way is left out.
\<close>

section \<open>Paths and texts\<close>

text \<open>\<open>Path::parent\<close> of a path without a trailing separator.\<close>

definition path_parent :: "string \<Rightarrow> string option" where
  "path_parent path =
     (if path = [] \<or> path = ''/'' then None
      else if CHR ''/'' \<notin> set path then Some []
      else if parent_dir path = [] then Some ''/'' else Some (parent_dir path))"

text \<open>\<open>Path::join\<close> with a relative path.\<close>

definition path_join :: "string \<Rightarrow> string \<Rightarrow> string" where
  "path_join path rel = (if path = [] \<or> last path = CHR ''/'' then path @ rel else path @ ''/'' @ rel)"

definition text_bytes :: "string \<Rightarrow> bytes" where
  "text_bytes s = map (\<lambda>c. of_nat (of_char c)) s"

text \<open>A string as the tools write it to a JSON file, between double quotes.\<close>

definition json_line :: "string \<Rightarrow> string" where
  "json_line s = [CHR 0x22] @ s @ [CHR 0x22]"

definition strip_prefix :: "string \<Rightarrow> string \<Rightarrow> string option" where
  "strip_prefix p s = (if take (length p) s = p then Some (drop (length p) s) else None)"

definition cargo_dir :: "string + string \<Rightarrow> panic + string" where
  "cargo_dir current_dir =
     bind_res (expect ''Failed to get current directory'' current_dir) (\<lambda>project_dir.
     expect ''Failed to find project root directory'' (ok_or () (path_parent project_dir)))"

definition elf_path :: "string \<Rightarrow> string" where
  "elf_path dir = path_join (path_join dir ''nori-elf'') ''nori-sp1-helios-program''"

section \<open>The verification key\<close>

record 'vk key_tools =
  kt_setup :: "bytes \<Rightarrow> string + 'vk"
  kt_bytes32 :: "'vk \<Rightarrow> string"
  kt_from_str_radix :: "string \<Rightarrow> nat \<Rightarrow> string + u256"
  kt_to_string :: "u256 \<Rightarrow> string"

definition verifying_key :: "'vk key_tools \<Rightarrow> string \<Rightarrow> disk \<Rightarrow> panic + 'vk" where
  "verifying_key KT dir d =
     bind_res (expect ''Failed to read ELF file'' (ok_or () (dk_files d (elf_path dir)))) (\<lambda>elf_bytes.
     expect ''Failed to setup proving key'' (kt_setup KT elf_bytes))"

text \<open>\<open>build_program_with_args\<close>, which compiles the program at its first argument into the directory at its second, is the
  argument \<open>build\<close>.\<close>

definition make_main ::
    "'vk key_tools \<Rightarrow> (string \<Rightarrow> string \<Rightarrow> disk \<Rightarrow> panic + disk) \<Rightarrow> string + string \<Rightarrow> disk \<Rightarrow> panic + disk" where
  "make_main KT build current_dir d =
     bind_res (cargo_dir current_dir) (\<lambda>dir.
     bind_res (build (path_join dir ''nori-program'') (path_join dir ''nori-elf'') d) (\<lambda>d.
     if dk_files d (elf_path dir) \<noteq> None
     then bind_res (verifying_key KT dir d) (\<lambda>vk.
          let json_string = json_line (kt_bytes32 KT vk);
              vk_json_path = elf_path dir @ ''.vk.json'' in
          expect ''Failed to write VK JSON file'' (write_file vk_json_path (text_bytes json_string) d))
     else Inr d))"

definition extract_zeroth_public_input :: "'vk key_tools \<Rightarrow> string + string \<Rightarrow> disk \<Rightarrow> panic + disk" where
  "extract_zeroth_public_input KT current_dir d =
     bind_res (cargo_dir current_dir) (\<lambda>dir.
     let output_path = elf_path dir @ ''.pi0.json'' in
     bind_res (verifying_key KT dir d) (\<lambda>vk.
     bind_res (expect ''bytes32 should start with 0x'' (ok_or () (strip_prefix ''0x'' (kt_bytes32 KT vk)))) (\<lambda>hex.
     bind_res (expect ''invalid hex'' (kt_from_str_radix KT hex 16)) (\<lambda>n.
     let json_string = json_line (kt_to_string KT n) in
     expect ''Failed to write pi0 JSON file'' (write_file output_path (text_bytes json_string) d)))))"

section \<open>Hash vectors\<close>

definition hash_vector :: "('f, 's) mina \<Rightarrow> (u64 \<Rightarrow> 'f) \<Rightarrow> ('f \<Rightarrow> string) \<Rightarrow> nat list \<Rightarrow> 'r json" where
  "hash_vector M fp_from_u64 fp_to_decimal ns = JObject
     [(''inputs'', JArray (map JNumber ns)),
      (''output'', JString (fp_to_decimal (poseidon_hash M (map (fp_from_u64 \<circ> of_nat) ns))))]"

definition hash_vectors :: "('f, 's) mina \<Rightarrow> (u64 \<Rightarrow> 'f) \<Rightarrow> ('f \<Rightarrow> string) \<Rightarrow> 'r json list" where
  "hash_vectors M fp_from_u64 fp_to_decimal =
     (let vec = hash_vector M fp_from_u64 fp_to_decimal in
      map (\<lambda>i. vec [i]) [0..<10000] @ map (\<lambda>i. vec [i, i + 1]) [0..<5000] @ map (\<lambda>i. vec [i, i + 1, i + 2]) [0..<5000])"

section \<open>The store, printed\<close>

definition print_helios_store :: "(('x, 'h, 'c, 'u) lc_store \<Rightarrow> string + string) \<Rightarrow> ('x, 'h, 'c, 'u) lc_store \<Rightarrow> string + string list" where
  "print_helios_store to_string helios_store =
     bind_res (map_err (\<lambda>e. ''Failed to serialize helios store'') (to_string helios_store)) (\<lambda>str_store.
     Inr [''-----------------------------------------------------'', str_store,
          ''-----------------------------------------------------''])"

section \<open>The fixture generator\<close>

text \<open>Both loops may run for ever; \<open>None\<close> is a run that does not return. Attempts are numbered: each meets another state of
  the providers.\<close>

partial_function (option) cold_start :: "(nat \<Rightarrow> string + u64 \<times> b256) \<Rightarrow> nat \<Rightarrow> (nat \<times> u64 \<times> b256) option" where
  "cold_start ask n = (case ask n of Inr (slot, store_hash) \<Rightarrow> Some (Suc n, slot, store_hash) | Inl e \<Rightarrow> cold_start ask (Suc n))"

definition write_fixture ::
    "(('x, 'h, 'c, 'u, 'v, 'g) proof_inputs \<Rightarrow> string + bytes) \<Rightarrow> string \<Rightarrow> ('x, 'h, 'c, 'u, 'v, 'g) proof_inputs_with_window \<Rightarrow> disk
      \<Rightarrow> string fault + disk" where
  "write_fixture to_cbor manifest_dir w d =
     bind_res (map_err Failed (to_cbor (wi_proof_inputs w))) (\<lambda>encoded.
     bind_res (map_err Panicked (expect ''unwrap'' (ok_or () (path_parent manifest_dir)))) (\<lambda>root.
     let fixture_dir = path_join (path_join (path_join root ''nori'') ''tests'') ''data'';
         fixture_path = path_join fixture_dir (''non_checkpoint_proof_inputs.'' @ show_word (wi_expected_output_slot w) @ ''.cbor'') in
     bind_res (map_err Failed (create_dir_all fixture_dir d)) (\<lambda>d.
     map_err Failed (write_file fixture_path encoded d))))"

partial_function (option) fixture_loop ::
    "(nat \<Rightarrow> u64 \<Rightarrow> b256 \<Rightarrow> string fault + ('x, 'h, 'c, 'u, 'v, 'g) proof_inputs_with_window)
      \<Rightarrow> (('x, 'h, 'c, 'u, 'v, 'g) proof_inputs_with_window \<Rightarrow> string fault + disk) \<Rightarrow> nat \<Rightarrow> u64 \<Rightarrow> b256 \<Rightarrow> (string fault + disk) option" where
  "fixture_loop prepare finish n input_slot store_hash =
     (case prepare n input_slot store_hash of
        Inl f \<Rightarrow> (case f of Panicked p \<Rightarrow> Some (Inl (Panicked p)) | Failed e \<Rightarrow> fixture_loop prepare finish (Suc n) input_slot store_hash)
      | Inr w \<Rightarrow>
          if wi_expected_output_slot w mod 32 \<noteq> 0 then Some (finish w)
          else fixture_loop prepare finish (Suc n) (wi_expected_output_slot w) (wi_expected_output_store_hash w))"

definition generate_non_checkpoint_fixture ::
    "(nat \<Rightarrow> ('p, 'b, 'x, 'h, 'c, 'u, 'v, 'g) beacon \<times> 'p consensus_net \<times> ('q, 'w) execution_net) \<Rightarrow> ('f, 's) guest_env
      \<Rightarrow> ('x, 'h, 'c, 'u, 'v, 'g) helios \<Rightarrow> (string \<Rightarrow> string + 'p) \<Rightarrow> (string \<Rightarrow> string + 'q) \<Rightarrow> (string \<Rightarrow> string + address)
      \<Rightarrow> env \<Rightarrow> (('x, 'h, 'c, 'u, 'v, 'g) proof_inputs \<Rightarrow> string + bytes) \<Rightarrow> string \<Rightarrow> disk \<Rightarrow> (string fault + disk) option" where
  "generate_non_checkpoint_fixture worlds E H parse_url parse_provider parse_address env to_cbor manifest_dir d =
     (case consensus_proxy_from_env parse_url parse_provider parse_address env of
        Inl e \<Rightarrow> Some (Inl (Panicked (UnwrapFailed e)))
      | Inr proxy \<Rightarrow>
          (case cold_start (\<lambda>n. case worlds n of (B, CN, N) \<Rightarrow> get_latest_finality_slot_and_store_hash B H env CN proxy) 0 of
             None \<Rightarrow> None
           | Some (n, input_slot, store_hash) \<Rightarrow>
               fixture_loop (\<lambda>n slot h. case worlds n of (B, CN, N) \<Rightarrow>
                   prepare_consensus_mpt_proof_inputs B E H env CN N proxy slot h 0 False)
                 (\<lambda>w. write_fixture to_cbor manifest_dir w d) n input_slot store_hash))"

section \<open>Lemmas\<close>

text \<open>The dry run of the guest applies its own checkpoint rule, whether or not the host asked for validation.\<close>

lemma prepared_checkpoint:
  assumes "prepare_consensus_mpt_proof_inputs B E H env CN N proxy slot h c validate = Inr w"
  shows "wi_expected_output_slot w mod 32 = 0"
proof -
  from prepared_window_accepted[OF assms] obtain out where
    "consensus_mpt_program E H (wi_proof_inputs w) = Inr out" "po_output_slot out = wi_expected_output_slot w" by auto
  then show ?thesis unfolding consensus_mpt_program_ok by (elim exE conjE) simp
qed

lemma fixture_loop_result:
  assumes "fixture_loop prepare finish n slot h = Some r"
    and "\<And>n slot h w. prepare n slot h = Inr w \<Longrightarrow> wi_expected_output_slot w mod 32 = 0"
  shows "\<exists>p. r = Inl (Panicked p)"
proof (rule fixture_loop.raw_induct[where P = "\<lambda>prep fin n slot h r.
    (\<forall>n slot h w. prep n slot h = Inr w \<longrightarrow> wi_expected_output_slot w mod 32 = 0) \<longrightarrow> (\<exists>p. r = Inl (Panicked p))",
    OF _ assms(1), rule_format])
  show "wi_expected_output_slot w mod 32 = 0" if "prepare n slot h = Inr w" for n slot h w using assms(2)[OF that] .
qed (auto split: sum.splits fault.splits if_splits)

text \<open>What the loops do when an attempt succeeds.\<close>

lemma cold_start_first:
  "ask (n + k) = Inr v \<Longrightarrow> (\<And>j. j < k \<Longrightarrow> \<exists>e. ask (n + j) = Inl e) \<Longrightarrow> cold_start ask n = Some (Suc (n + k), v)"
proof (induction k arbitrary: n)
  case 0
  then show ?case by (cases v) (simp add: cold_start.simps[of ask n])
next
  case (Suc k)
  from Suc.prems(2)[of 0] obtain e where e: "ask n = Inl e" by auto
  have "cold_start ask (Suc n) = Some (Suc (Suc n + k), v)"
    using Suc.prems(1) Suc.prems(2)[of "Suc j" for j] by (intro Suc.IH) simp_all
  with e show ?case by (simp add: cold_start.simps[of ask n])
qed

lemma fixture_loop_finds:
  "prepare n slot h = Inr w \<Longrightarrow> wi_expected_output_slot w mod 32 \<noteq> 0 \<Longrightarrow> fixture_loop prepare finish n slot h = Some (finish w)"
  by (simp add: fixture_loop.simps[of prepare finish n])

text \<open>The key as SP1 documents it (\<open>0x\<close> and hexadecimal digits of a 256-bit number) and the integers of ruint.\<close>

definition key_laws :: "'vk key_tools \<Rightarrow> bool" where
  "key_laws KT \<longleftrightarrow>
     (\<forall>vk. \<exists>s n. kt_bytes32 KT vk = ''0x'' @ s \<and> s \<noteq> [] \<and> hexes_value 0 s = Some n \<and> n < 2 ^ 256) \<and>
     (\<forall>s n. s \<noteq> [] \<and> hexes_value 0 s = Some n \<and> n < 2 ^ 256 \<longrightarrow> kt_from_str_radix KT s 16 = Inr (of_nat n)) \<and>
     (\<forall>v. kt_to_string KT v = show_word v)"

lemma write_file_ok: "write_file path bs d = Inr d' \<Longrightarrow> d' = d\<lparr>dk_files := (dk_files d)(path \<mapsto> bs)\<rparr>"
  by (auto simp: write_file_def split: if_splits)

lemma expect_ok: "expect msg r = Inr x \<longleftrightarrow> r = Inr x"
  by (cases r) simp_all

lemma extract_ok:
  assumes "extract_zeroth_public_input KT cwd d = Inr d'" and "key_laws KT"
  shows "\<exists>dir elf vk hex n. cargo_dir cwd = Inr dir \<and> dk_files d (elf_path dir) = Some elf \<and> kt_setup KT elf = Inr vk \<and>
    kt_bytes32 KT vk = ''0x'' @ hex \<and> hexes_value 0 hex = Some n \<and>
    d' = d\<lparr>dk_files := (dk_files d)(elf_path dir @ ''.pi0.json'' \<mapsto> text_bytes (json_line (show_nat n)))\<rparr>"
proof -
  from assms(1) obtain dir elf vk hex v where dir: "cargo_dir cwd = Inr dir" "dk_files d (elf_path dir) = Some elf"
      "kt_setup KT elf = Inr vk"
    and hex: "strip_prefix ''0x'' (kt_bytes32 KT vk) = Some hex" "kt_from_str_radix KT hex 16 = Inr v"
    and d': "write_file (elf_path dir @ ''.pi0.json'') (text_bytes (json_line (kt_to_string KT v))) d = Inr d'"
    by (auto simp: extract_zeroth_public_input_def verifying_key_def bind_res_eq_Inr expect_ok ok_or_def Let_def
        split: option.splits)
  from assms(2) obtain s n where s: "kt_bytes32 KT vk = ''0x'' @ s" "s \<noteq> []" "hexes_value 0 s = Some n" "n < 2 ^ 256"
    unfolding key_laws_def by blast
  with hex(1) have "hex = s" by (simp add: strip_prefix_def)
  with hex(2) s assms(2) have "v = of_nat n" unfolding key_laws_def by force
  with s(4) assms(2) have "kt_to_string KT v = show_nat n"
    by (simp add: key_laws_def unat_of_nat)
  with write_file_ok[OF d'] dir s \<open>hex = s\<close> show ?thesis by auto
qed

text \<open>The vectors for one, two and three field elements.\<close>

lemma hash_vectors_shape:
  "length (hash_vectors M from_u64 dec) = 20000 \<and>
   (\<forall>v \<in> set (hash_vectors M from_u64 dec). \<exists>ns. 1 \<le> length ns \<and> length ns \<le> 3 \<and> v = hash_vector M from_u64 dec ns)"
proof -
  have "\<exists>ns. 1 \<le> length ns \<and> length ns \<le> 3 \<and> v = hash_vector M from_u64 dec ns" if "v \<in> set (hash_vectors M from_u64 dec)" for v
  proof -
    from that obtain i where "v = hash_vector M from_u64 dec [i] \<or> v = hash_vector M from_u64 dec [i, i + 1] \<or>
        v = hash_vector M from_u64 dec [i, i + 1, i + 2]"
      unfolding hash_vectors_def Let_def set_append set_map by blast
    then consider "v = hash_vector M from_u64 dec [i]" | "v = hash_vector M from_u64 dec [i, i + 1]"
      | "v = hash_vector M from_u64 dec [i, i + 1, i + 2]" by blast
    then show ?thesis
    proof cases
      case 1
      then show ?thesis by (intro exI[of _ "[i]"]) simp
    next
      case 2
      then show ?thesis by (intro exI[of _ "[i, i + 1]"]) simp
    next
      case 3
      then show ?thesis by (intro exI[of _ "[i, i + 1, i + 2]"]) simp
    qed
  qed
  moreover have "length (hash_vectors M from_u64 dec) = 20000" by (simp add: hash_vectors_def Let_def)
  ultimately show ?thesis by blast
qed

section \<open>A run with the key of the repository\<close>

text \<open>The committed files \<open>nori-elf/nori-sp1-helios-program.vk.json\<close> and \<open>.pi0.json\<close>.\<close>

definition repository_key :: string where
  "repository_key = ''00cc4fd715d53446d64a996e646a3bff5fa3c785842a182a6c172e0aee21adfc''"

definition repository_pi0 :: string where
  "repository_pi0 = ''360987837863985543308643905471818765113602110868120143140438372685124316668''"

definition sample_key_tools :: "unit key_tools" where
  "sample_key_tools = \<lparr>kt_setup = (\<lambda>_. Inr ()), kt_bytes32 = (\<lambda>_. ''0x'' @ repository_key),
     kt_from_str_radix = (\<lambda>s _. case hexes_value 0 s of None \<Rightarrow> Inl ''invalid'' | Some n \<Rightarrow> Inr (of_nat n)),
     kt_to_string = (\<lambda>v. show_word v)\<rparr>"

definition tool_disk :: disk where
  "tool_disk = \<lparr>dk_files = Map.empty, dk_dirs = {''/repo/nori-elf''}, dk_can_create = (\<lambda>_. True), dk_can_write = (\<lambda>_. True)\<rparr>"

definition sample_build :: "string \<Rightarrow> string \<Rightarrow> disk \<Rightarrow> panic + disk" where
  "sample_build program out d = Inr (d\<lparr>dk_files := (dk_files d)(out @ ''/nori-sp1-helios-program'' \<mapsto> [1, 2, 3])\<rparr>)"

lemma repository_key_value:
  "hexes_value 0 repository_key = Some 360987837863985543308643905471818765113602110868120143140438372685124316668"
  by (simp add: repository_key_def)

lemma repository_pi0_value:
  "digits_value 0 repository_pi0 = Some 360987837863985543308643905471818765113602110868120143140438372685124316668"
  by (simp add: repository_pi0_def)

lemma sample_key_laws: "key_laws sample_key_tools"
  unfolding key_laws_def sample_key_tools_def
  using repository_key_value by (auto simp: repository_key_def)

lemma sample_tool_run:
  "make_main sample_key_tools sample_build (Inr ''/repo/nori-build-zk'') tool_disk =
     Inr (tool_disk\<lparr>dk_files := [''/repo/nori-elf/nori-sp1-helios-program'' \<mapsto> [1, 2, 3],
       ''/repo/nori-elf/nori-sp1-helios-program.vk.json'' \<mapsto> text_bytes (json_line (''0x'' @ repository_key))]\<rparr>)"
  by (simp add: make_main_def cargo_dir_def path_parent_def parent_dir_def sample_build_def elf_path_def path_join_def verifying_key_def
      sample_key_tools_def tool_disk_def write_file_def Let_def)

lemma sample_extract_run:
  "is_ok (extract_zeroth_public_input sample_key_tools (Inr ''/repo/nori'')
     (tool_disk\<lparr>dk_files := [''/repo/nori-elf/nori-sp1-helios-program'' \<mapsto> [1, 2, 3],
       ''/repo/nori-elf/nori-sp1-helios-program.vk.json'' \<mapsto> text_bytes (json_line (''0x'' @ repository_key))]\<rparr>))"
  by (simp add: extract_zeroth_public_input_def cargo_dir_def path_parent_def parent_dir_def elf_path_def path_join_def verifying_key_def
      sample_key_tools_def tool_disk_def write_file_def strip_prefix_def repository_key_value Let_def)

section \<open>Properties\<close>

text \<open>The two key files name one number. Under the documented text form of the verification key, when the build tool and then
  the extraction tool run on a repository, the key file holds the key in hexadecimal and the public input file
  holds, in decimal, the number that those digits denote.\<close>

theorem key_files_agree:
  assumes "key_laws KT" and "make_main KT build cwd d = Inr d1" and "extract_zeroth_public_input KT cwd' d1 = Inr d2"
    and "cargo_dir cwd = Inr dir" and "cargo_dir cwd' = Inr dir"
  shows "\<exists>hex n. dk_files d2 (elf_path dir @ ''.vk.json'') = Some (text_bytes (json_line (''0x'' @ hex))) \<and>
    dk_files d2 (elf_path dir @ ''.pi0.json'') = Some (text_bytes (json_line (show_nat n))) \<and> hexes_value 0 hex = Some n"
proof -
  from extract_ok[OF assms(3,1)] assms(5) obtain elf vk hex n where
    x: "dk_files d1 (elf_path dir) = Some elf" "kt_setup KT elf = Inr vk" "kt_bytes32 KT vk = ''0x'' @ hex" "hexes_value 0 hex = Some n"
      "d2 = d1\<lparr>dk_files := (dk_files d1)(elf_path dir @ ''.pi0.json'' \<mapsto> text_bytes (json_line (show_nat n)))\<rparr>" by auto
  from assms(2,4) obtain b where b: "build (path_join dir ''nori-program'') (path_join dir ''nori-elf'') d = Inr b"
    and m: "(if dk_files b (elf_path dir) \<noteq> None
       then bind_res (verifying_key KT dir b) (\<lambda>vk. expect ''Failed to write VK JSON file''
         (write_file (elf_path dir @ ''.vk.json'') (text_bytes (json_line (kt_bytes32 KT vk))) b)) else Inr b) = Inr d1"
    unfolding make_main_def Let_def by (auto simp: bind_res_eq_Inr)
  from m x(1) have "dk_files b (elf_path dir) \<noteq> None" by (auto split: if_splits)
  with m obtain vk' where vk': "verifying_key KT dir b = Inr vk'"
    and w: "d1 = b\<lparr>dk_files := (dk_files b)(elf_path dir @ ''.vk.json'' \<mapsto> text_bytes (json_line (kt_bytes32 KT vk')))\<rparr>"
    by (auto simp: bind_res_eq_Inr expect_ok dest: write_file_ok)
  with x(1,2) have "vk' = vk" by (auto simp: verifying_key_def bind_res_eq_Inr expect_ok ok_or_def)
  with w x show ?thesis by auto
qed

theorem key_files_agree_witness:
  "\<exists>d1 d2 hex n. make_main sample_key_tools sample_build (Inr ''/repo/nori-build-zk'') tool_disk = Inr d1 \<and>
     extract_zeroth_public_input sample_key_tools (Inr ''/repo/nori'') d1 = Inr d2 \<and>
     dk_files d2 ''/repo/nori-elf/nori-sp1-helios-program.vk.json'' = Some (text_bytes (json_line (''0x'' @ hex))) \<and>
     dk_files d2 ''/repo/nori-elf/nori-sp1-helios-program.pi0.json'' = Some (text_bytes (json_line (show_nat n))) \<and>
     hexes_value 0 hex = Some n"
proof -
  from sample_extract_run obtain d2 where x: "extract_zeroth_public_input sample_key_tools (Inr ''/repo/nori'')
     (tool_disk\<lparr>dk_files := [''/repo/nori-elf/nori-sp1-helios-program'' \<mapsto> [1, 2, 3],
       ''/repo/nori-elf/nori-sp1-helios-program.vk.json'' \<mapsto> text_bytes (json_line (''0x'' @ repository_key))]\<rparr>) = Inr d2"
    by (auto simp: is_ok_iff)
  have dir: "cargo_dir (Inr ''/repo/nori-build-zk'') = Inr ''/repo''" "cargo_dir (Inr ''/repo/nori'') = Inr ''/repo''"
    by (simp_all add: cargo_dir_def path_parent_def parent_dir_def)
  from key_files_agree[OF sample_key_laws sample_tool_run x dir] sample_tool_run x show ?thesis by (auto simp: elf_path_def path_join_def)
qed

text \<open>C36: The fixture generator never writes a fixture. It asks for a window without the host's validation and waits for one
  that ends on a slot that is not a checkpoint; but preparing a window runs the guest, which rejects such slots. Whatever the
  providers answer, every attempt fails or ends on a checkpoint, so the tool runs for ever or panics.\<close>

theorem fixture_never_written:
  "generate_non_checkpoint_fixture worlds E H parse_url parse_provider parse_address env to_cbor manifest_dir d = None \<or>
   (\<exists>p. generate_non_checkpoint_fixture worlds E H parse_url parse_provider parse_address env to_cbor manifest_dir d =
      Some (Inl (Panicked p)))"
proof (cases "generate_non_checkpoint_fixture worlds E H parse_url parse_provider parse_address env to_cbor manifest_dir d")
  case (Some r)
  show ?thesis
  proof (cases "consensus_proxy_from_env parse_url parse_provider parse_address env")
    case (Inr proxy)
    with Some obtain n slot h where loop: "fixture_loop (\<lambda>n slot h. case worlds n of (B, CN, N) \<Rightarrow>
           prepare_consensus_mpt_proof_inputs B E H env CN N proxy slot h 0 False)
         (\<lambda>w. write_fixture to_cbor manifest_dir w d) n slot h = Some r"
      by (auto simp: generate_non_checkpoint_fixture_def split: option.splits)
    have "\<exists>p. r = Inl (Panicked p)"
      by (rule fixture_loop_result[OF loop]) (auto split: prod.splits dest: prepared_checkpoint)
    with Some show ?thesis by simp
  qed (simp add: generate_non_checkpoint_fixture_def)
qed simp

end
