(* ===== verification/Spec2Isabelle.thy ===== *)
theory Spec2Isabelle
  imports Nori_Request_Leaf Nori_Published Nori_Chain Nori_Cycle Nori_Bounded Nori_Diagnostics Nori_Tools
begin

text \<open>
  \<^bold>\<open>Nori bridge head.\<close> The program moves Ethereum finality to Mina. It follows the beacon chain with a light client,
  proves each transition of that client inside the SP1 virtual machine together with a batch of storage requests read
  from a queue contract, and hands the proofs to an observer that settles them. This development models the Rust
  sources under \<open>src/\<close> and shows that what is published is true, that the actors agree on what is settled, and that the
  host can always build what the guest accepts.

  \<^bold>\<open>Parts and how they interact.\<close>
  The consensus proxy (\<open>nori/src/rpcs/consensus\<close>) asks beacon nodes for light client data and, through the execution
  proxy (\<open>nori/src/rpcs/execution\<close>), execution nodes for the queue and the requested storage, and assembles proof
  inputs for a window of slots. The finality change detector (\<open>finality_change_detector.rs\<close>) polls it and sends windows
  that start at the settled head to the bridge head (\<open>bridge_head/api.rs\<close>), which tells the observer
  (\<open>observer.rs\<close>) by notices. The observer decides what is staged; the bridge head runs one prover job per staged window
  (\<open>sp1_prover.rs\<close>), publishes the proof with its decoded outputs, and on the observer's command advances the head and
  the detector. The guest (\<open>nori-program\<close>) replays the light client (\<open>consensus.rs\<close>) and verifies the queue against
  the execution state root (\<open>mpt.rs\<close>), committing to a Poseidon Merkle root of the requests (\<open>nori-hash\<close>).

  \<^bold>\<open>Theories.\<close>
  \<^item> \<open>Nori_Prelude\<close>, \<open>Nori_Bytes\<close>: results and panics as sums (\<open>bind_res\<close>, \<open>map_err\<close>, \<open>fold_res\<close>, \<open>traverse_res\<close>, checked
    indexing), chunks, byte strings of machine words; collections \<open>res_simps\<close> and \<open>codec_simps\<close>.
  \<^item> \<open>Nori_Storage_Layout\<close>, \<open>Nori_Types\<close>: \<open>nori-primitives\<close> (Solidity layout, public outputs and their byte codecs, an instance
    of the locale \<open>byte_codec\<close>).
  \<^item> \<open>Nori_Merkle\<close>, \<open>Nori_Merkle_Correct\<close>, \<open>Nori_Request_Leaf\<close>: \<open>merkle_poseidon_fixed.rs\<close>; the in-place fold, the builder and
    both path routines against the level-by-level tree, packing of request leaves into field elements.
  \<^item> \<open>Nori_Mpt\<close>: \<open>mpt.rs\<close>; the guest's verification of the queue against the specification \<open>queue_outcome\<close>, which reads the
    tries alone.
  \<^item> \<open>Nori_Helios_Store\<close>, \<open>Nori_Consensus\<close>: the store hash, both guest programs and the entry point; the locale
    \<open>hash_chained_program\<close> chains proofs by their hashes.
  \<^item> \<open>Nori_Rpc\<close>, \<open>Nori_Env\<close>, \<open>Nori_Execution_Rpc\<close>, \<open>Nori_Consensus_Rpc\<close>: provider selection, settings, and the two proxies, up
    to prepared windows.
  \<^item> \<open>Nori_Event_Loop\<close>: the shape of the actors: a turn is the new state, the messages sent and the reason for leaving the
    loop; the locale \<open>event_loop\<close> lifts what every turn keeps to every history, and is interpreted on all three actors.
  \<^item> \<open>Nori_Detector\<close>, \<open>Nori_Bridge_Head\<close>, \<open>Nori_Observer\<close>: the actors. \<open>detector_reach\<close> and \<open>head_reach\<close> are the reachable
    states of the detector with its validation worker and of the bridge head with its prover tasks, under
    every interleaving of events.
  \<^item> \<open>Nori_Notices\<close>, \<open>Nori_Prover_Config\<close>, \<open>Nori_Prover\<close>: notices and their JSON form, the prover configuration, the prover job.
  \<^item> \<open>Nori_Published\<close>: the published requests against the committed root.
  \<^item> \<open>Nori_Text\<close>, \<open>Nori_Diagnostics\<close>: how integers and strings are written and read back (locale \<open>delimited_text\<close>); error texts,
    the logged configuration, the log level, the gRPC endpoint.
  \<^item> \<open>Nori_Checkpoint\<close>, \<open>Nori_Boot\<close>: the disk, the checkpoint and the proof files, the start of the process.
  \<^item> \<open>Nori_System\<close>, \<open>Nori_Chain\<close>, \<open>Nori_Cycle\<close>: the whole process. \<open>bridge_reach\<close> joins the detector, the bridge head, the observer and
    their workers by channels, one turn at a time in any order; every head in it is settled, every window starts at a
    settled head or at the expected output of a staged window, and a full cycle from poll to checkpoint is possible.
  \<^item> \<open>Nori_Pipeline\<close>, \<open>Nori_Bounded\<close>: the right to have a window proved passes through the actors like a baton and there is exactly
    one, so at most one prover task runs and none is lost; the process with the channel capacities of the code (\<open>bounded_reach\<close>,
    a sender that finds a channel full waits inside its turn) refines \<open>bridge_reach\<close>, and the observer never waits.
  \<^item> \<open>Nori_Tools\<close>: the command line tools: the files with the verification key, the hash vectors, the fixture generator, whose
    loops may run for ever (\<open>partial_function (option)\<close>).
  \<^item> This theory: properties from the providers to the published proofs, and across the whole process.

  \<^bold>\<open>How state and operations correspond.\<close> A struct is a record whose fields carry a short prefix, an enum a datatype; \<open>u64\<close>,
  \<open>u8\<close>, \<open>U256\<close>, hashes and addresses are words of their width, so additions wrap as in a release build. A fallible
  function returns a sum; \<open>fault\<close> separates returned errors (\<open>Failed\<close>) from panics (\<open>Panicked\<close>). Code that talks
  to a provider or the prover passes the state of the outside world. A hash map with an observable iteration order
  takes that order as an argument. Concurrency is an inductive relation whose rules are the turns of the
  actors and the steps of their workers; completion order, timeouts and clocks are arguments.

  \<^bold>\<open>Parameters.\<close> helios (light client verification), MessagePack, CBOR, SHA-256, Keccak, RLP, alloy-trie, the Poseidon
  permutation, the SP1 SDK, beacon nodes and execution nodes are arguments of the definitions. What is used of them is
  named: \<open>inclusion_sound\<close>, \<open>exclusion_sound\<close>, \<open>rlp_injective\<close>, \<open>field_laws\<close>, \<open>sdk_sound\<close>, \<open>codec_laws\<close>, \<open>text_laws\<close>. Collision
  resistance is never assumed: results that need it say that otherwise a collision exists. Every property with
  hypotheses has a witness on concrete functions.

  \<^bold>\<open>What the lemmas show.\<close> The guest accepts a batch only with the outcome that the tries determine, never panics, and accepts
  every honest witness; all Merkle routines agree with one another and paths bind; both programs are
  characterised stage by stage and chained proofs continue one light client; the host's expectations are the guest's
  outputs, and an honest provider suffices; the detector emits only windows provable from its head, in increasing order,
  one validation at a time, and makes progress; the bridge head never panics and never mixes up jobs; the observer
  stages only what it was offered; in the composed process everything published or settled descends from the start by guest-accepted
  windows, the checkpoint, the bridge head and the detector are settled at every moment and after a restart, and exactly one
  piece of work is under way, with channels bounded as in the code;
  settings are read strictly, error texts are unambiguous and the private key does not reach the log; the two key files
  name one number, and the fixture generator can never finish.

  \<^bold>\<open>Bounds and fuel.\<close> No definition needs fuel that could run out: \<open>chunks\<close> recurs on the length of its list, the retry
  loops on the remaining attempts (four per chunk, three for a prover pool), Merkle loops on levels. A state of the bridge head
  alone is considered as long as fewer than \<open>2 ^ 64\<close> windows were staged, so that job ids do not repeat; in the whole process, where
  one job runs at a time, no such bound is needed. Channel capacities are those of the code (1, 2 and 16).

  \<^bold>\<open>Not modelled.\<close> Log output other than the configuration, \<open>Debug\<close> of messages, initialising the logger, the crypto provider
  default; the build script of the guest package, tests and fixtures; the values formatted into host errors, where the text is only
  passed on and logged (constant parts and slots are kept); fairness of the scheduler (the bridge head and the detector write to
  each other's channels, so a scheduler that keeps the bridge head from reading a finality while two later ones arrive can
  make them wait for each other; nothing is shown of such runs but that what they publish is right); the text form of JSON
  and the array form that serde also reads.
\<close>

section \<open>From providers to published proofs\<close>

text \<open>The proofs a prover task can return for given inputs.\<close>

definition task_proof ::
    "(('x, 'h, 'c, 'u, 'v, 'g) proof_inputs \<Rightarrow> string + bytes) \<Rightarrow> ('k, 'p, 'w) sp1_sdk
      \<Rightarrow> ('x, 'h, 'c, 'u, 'v, 'g) proof_inputs \<Rightarrow> 'p \<Rightarrow> bool" where
  "task_proof to_cbor S inputs proof \<longleftrightarrow>
     (\<exists>PN config job_id input_head st out st'.
        finality_update_job to_cbor S PN config job_id input_head inputs st = (Inr out, st') \<and> pj_proof out = proof)"

lemma execution_inputs_queue:
  assumes "prepare_execution_inputs E H N proxy inslot outslot inblk outblk cursor ci oh root = Inr w"
  shows "listed_once (qs_targets (pi_queue_storage (wi_proof_inputs w)))"
proof -
  obtain i p where prep: "fst (prepare_inputs E H (net_rpc N p) (net_hash_order N p) (ep_proof_queue_address proxy)
        cursor outblk ci root (ep_chunk_limit proxy) (net_world N p)) = Inr i" and w: "wi_proof_inputs w = i"
    using assms unfolding prepare_execution_inputs_def Let_def
    by (auto simp: bind_res_eq_Inr dest!: settle_query_reply)
  from prep obtain q where "fst (prepare_queue_storage E (net_rpc N p) (net_hash_order N p) (ep_proof_queue_address proxy)
      cursor outblk root (ep_chunk_limit proxy) (net_world N p)) = Inr q" and "i = with_queue_storage ci q"
    unfolding prepare_inputs_def by (auto simp: bind_io_Inr Let_def dry_run_ok)
  with prepared_once w show ?thesis by (simp add: with_queue_storage_def)
qed

lemma prepared_at_facts:
  assumes "prepared_at (proxy_answers E H env worlds proxy) A w"
  shows "listed_once (qs_targets (pi_queue_storage (wi_proof_inputs w)))"
    and "\<exists>slot h c. A (slot, h, c) \<and> provable_from E H slot h c w"
proof -
  from assms obtain p slot h c where p: "p \<in> proxy_answers E H env worlds proxy" "p slot h c True = Inr w" "A (slot, h, c)"
    by (auto simp: prepared_at_def)
  from proxy_answer_provable[OF p(1,2)] p(3) show "\<exists>slot h c. A (slot, h, c) \<and> provable_from E H slot h c w" by blast
  from p obtain B CN N where "(B, CN, N) \<in> worlds"
    and prep: "prepare_consensus_mpt_proof_inputs B E H env CN N proxy slot h c True = Inr w"
    by (auto simp: proxy_answers_def)
  from prepare_consensus_mpt_ok[OF prep] show "listed_once (qs_targets (pi_queue_storage (wi_proof_inputs w)))"
    by (auto dest: execution_inputs_queue)
qed

lemma task_proof_outputs:
  assumes "sdk_sound (guest_main E H cbor) S" and "\<And>i bs. to_cbor i = Inr bs \<Longrightarrow> cbor bs = Inr i"
    and "task_proof to_cbor S inputs proof" and "proof_outputs_from_bytes (sdk_public_values S proof) = Inr out"
  shows "consensus_mpt_program E H inputs = Inr out"
proof -
  from assms(3) obtain PN config job_id input_head st o' st' where
    "finality_update_job to_cbor S PN config job_id input_head inputs st = (Inr o', st')" "pj_proof o' = proof"
    by (auto simp: task_proof_def)
  with job_proves_program[OF assms(1,2)] obtain out' where
    "consensus_mpt_program E H inputs = Inr out'" "sdk_public_values S proof = proof_outputs_to_bytes out'" by blast
  with assms(4) po_codec.dec_enc[of out'] show ?thesis by simp
qed

text \<open>A published message is about a staged window that the guest accepts with exactly those outputs.\<close>

lemma published_window:
  assumes "sdk_sound (guest_main E H cbor) S" and "\<And>i bs. to_cbor i = Inr bs \<Longrightarrow> cbor bs = Inr i"
    and "bridge_reach (sdk_public_values S) (task_proof to_cbor S) (proxy_answers E H env worlds proxy) oe disk0 start s"
    and "ProofEvent pm \<in> set (hs_events (sy_head s))"
  shows "\<exists>w out. w \<in> set (hs_staged (sy_head s)) \<and> prepared_at (proxy_answers E H env worlds proxy) (anchored start s) w \<and>
    consensus_mpt_program E H (wi_proof_inputs w) = Inr out \<and> message_for out w pm"
proof -
  from system_chain[OF assms(3) order_refl] have "head_reach (sdk_public_values S) (task_proof to_cbor S)
      (prepared_at (proxy_answers E H env worlds proxy) (anchored start s)) (sy_head s)" by (simp add: chain_inv_def)
  then have "list_all (prepared_at (proxy_answers E H env worlds proxy) (anchored start s)) (hs_staged (sy_head s))"
    by (auto simp: head_inv_def dest: head_reach_inv)
  moreover from system_published[OF assms(3)] assms(4)
  have "proof_of_window (sdk_public_values S) (task_proof to_cbor S) (hs_staged (sy_head s)) pm" by blast
  ultimately show ?thesis using task_proof_outputs[OF assms(1,2)] unfolding proof_of_window_def list_all_iff by blast
qed

text \<open>The expected output of a window the guest accepts is the guest's output.\<close>

lemma expected_output:
  assumes "provable_from E H slot h c w" and "consensus_mpt_program E H (wi_proof_inputs w) = Inr out"
  shows "expected_triple w = (po_output_slot out, po_output_store_hash out, po_output_queue_cursor out)"
proof -
  from assms(2)[unfolded consensus_mpt_program_ok] obtain root where
    q: "verify_queue E root (pi_queue_storage (wi_proof_inputs w)) = Inr (po_output_queue_cursor out, po_verified_requests_root out)"
    by (elim exE conjE) (rule that)
  then have "po_output_queue_cursor out = batch_end w"
    by (rule verify_queue_stages) (simp add: batch_end_def)
  with assms show ?thesis by (auto simp: expected_triple_def provable_from_def)
qed

section \<open>Descent from the start\<close>

text \<open>The heads reached from a start by windows the guest accepts, each continuing where the one before it ended.\<close>

inductive descends ::
    "('f, 's) guest_env \<Rightarrow> ('x, 'h, 'c, 'u, 'v, 'g) helios \<Rightarrow> ('x, 'h, 'c, 'u, 'v, 'g) window set
      \<Rightarrow> u64 \<times> b256 \<times> u64 \<Rightarrow> u64 \<times> b256 \<times> u64 \<Rightarrow> bool"
  for E :: "('f, 's) guest_env" and H :: "('x, 'h, 'c, 'u, 'v, 'g) helios"
    and windows :: "('x, 'h, 'c, 'u, 'v, 'g) window set" and start :: "u64 \<times> b256 \<times> u64" where
  origin: "descends E H windows start start"
| extend: "descends E H windows start (slot, h, c) \<Longrightarrow> w \<in> windows \<Longrightarrow> provable_from E H slot h c w \<Longrightarrow>
    descends E H windows start (expected_triple w)"

lemma provable_ahead: "provable_from E H slot h c w \<Longrightarrow> slot < fst (expected_triple w)"
  by (auto simp: provable_from_def expected_triple_def)

lemma descends_ahead: "descends E H windows start t \<Longrightarrow> fst start \<le> fst t"
  by (induction rule: descends.induct) (auto dest!: provable_ahead)

text \<open>An anchor is the start or the expected output of a staged window.\<close>

lemma anchor_cases:
  assumes "sdk_sound (guest_main E H cbor) S" and "\<And>i bs. to_cbor i = Inr bs \<Longrightarrow> cbor bs = Inr i"
    and "bridge_reach (sdk_public_values S) (task_proof to_cbor S) (proxy_answers E H env worlds proxy) oe disk0 start s"
    and "anchored start s t" and "t \<noteq> start"
  shows "\<exists>w. w \<in> set (hs_staged (sy_head s)) \<and> t = expected_triple w"
proof (cases "t \<in> expected_triple ` set (hs_staged (sy_head s))")
  case False
  with assms(4,5) obtain pm where ev: "ProofEvent pm \<in> set (hs_events (sy_head s))" and t: "t = proof_triple pm"
    by (auto simp: anchored_def settled_def)
  obtain w out where w: "w \<in> set (hs_staged (sy_head s))" "prepared_at (proxy_answers E H env worlds proxy) (anchored start s) w"
    and run: "consensus_mpt_program E H (wi_proof_inputs w) = Inr out" and pm: "message_for out w pm"
    using published_window[OF assms(1-3) ev] by auto
  from prepared_at_facts(2)[OF w(2)] obtain slot h c where f: "provable_from E H slot h c w" by blast
  from expected_output[OF f run] pm t have "t = expected_triple w" by (simp add: message_for_def proof_triple_def)
  with w(1) show ?thesis by blast
qed auto

lemma anchored_descends:
  assumes "sdk_sound (guest_main E H cbor) S" and "\<And>i bs. to_cbor i = Inr bs \<Longrightarrow> cbor bs = Inr i"
    and "bridge_reach (sdk_public_values S) (task_proof to_cbor S) (proxy_answers E H env worlds proxy) oe disk0 start s"
    and "anchored start s t"
  shows "descends E H (set (hs_staged (sy_head s))) start t"
  using assms(4)
proof (induction "unat (fst t)" arbitrary: t rule: less_induct)
  case less
  show ?case
  proof (cases "t = start")
    case False
    from anchor_cases[OF assms(1-3) less.prems this] obtain w where w: "w \<in> set (hs_staged (sy_head s))" "t = expected_triple w"
      by auto
    from system_chain[OF assms(3) order_refl] w(1) have "prepared_at (proxy_answers E H env worlds proxy) (anchored start s) w"
      by (auto simp: chain_inv_def head_inv_def list_all_iff dest: head_reach_inv)
    from prepared_at_facts(2)[OF this] obtain slot h c where o: "anchored start s (slot, h, c)" "provable_from E H slot h c w"
      by blast
    from provable_ahead[OF o(2)] have "unat (fst (slot, h, c)) < unat (fst t)" by (simp add: w(2) word_less_nat_alt)
    from descends.extend[OF less.hyps[OF this o(1)] w(1) o(2)] show ?thesis by (simp add: w(2))
  qed (simp add: descends.origin)
qed

section \<open>A cycle\<close>

lemma window_settles:
  fixes he :: "'r head_env" and oe :: "(('x, 'h, 'c, 'u, 'v, 'g) window, 'p, 'r) observer_env"
  assumes "sdk_sound (guest_main E H cbor) S" and "\<And>i bs. to_cbor i = Inr bs \<Longrightarrow> cbor bs = Inr i"
    and "prepare_consensus_mpt_proof_inputs B E H env CN N proxy slot h c True = Inr w" and "(B, CN, N) \<in> worlds"
    and "finality_update_job to_cbor S PN config job_id input_head (wi_proof_inputs w) st = (Inr res, st')"
    and "he_observer_alive he" and "he_detector_alive he" and "oe_head_alive oe" and "accepting disk0"
    and "CHR ''/'' \<notin> set (oe_sp1_version oe (pj_proof res))" and "oe_proof_text oe (pj_proof res) = Inr bs"
    and "\<And>m. pm_proof m = pj_proof res \<Longrightarrow> \<exists>bs'. oe_message_text oe m = Inr bs'"
    and "text_laws (oe_codec oe) (oe_json_text oe)"
  shows "\<exists>(s :: ('x, 'h, 'c, 'u, 'v, 'g, 'p, 'r) bridge_system) pm.
    bridge_reach (sdk_public_values S) (task_proof to_cbor S) (proxy_answers E H env worlds proxy) oe disk0 (slot, h, c) s \<and>
    hs_staged (sy_head s) = [w] \<and> ProofEvent pm \<in> set (hs_events (sy_head s)) \<and> pm_proof pm = pj_proof res \<and>
    proof_triple pm = expected_triple w \<and> slot < wi_expected_output_slot w \<and>
    head_triple (hs_head (sy_head s)) = expected_triple w \<and> detector_triple (ds_detector (sy_detector s)) = expected_triple w \<and>
    resumes_at (oe_codec oe) (oe_json_text oe) (snd (sy_observer s)) (expected_triple w)"
proof -
  have p: "prepare_consensus_mpt_proof_inputs B E H env CN N proxy \<in> proxy_answers E H env worlds proxy"
    unfolding proxy_answers_def by (rule image_eqI[OF _ assms(4)]) simp
  note f = proxy_answer_provable[OF p assms(3)]
  from f have slots: "wi_input_slot w = slot" "slot < wi_expected_output_slot w" by (auto simp: provable_from_def)
  have task: "task_proof to_cbor S (wi_proof_inputs w) (pj_proof res)" unfolding task_proof_def using assms(5) by blast
  from job_proves_program[OF assms(1,2,5)] obtain out where run: "consensus_mpt_program E H (wi_proof_inputs w) = Inr out"
    and pv: "sdk_public_values S (pj_proof res) = proof_outputs_to_bytes out" by auto
  then have dec: "proof_outputs_from_bytes (sdk_public_values S (pj_proof res)) = Inr out" using po_codec.dec_enc by simp
  have triple: "proof_triple pm = expected_triple w" if "message_for out w pm" for pm :: "('p, 'r) proof_message"
    using that expected_output[OF f run] by (simp add: message_for_def proof_triple_def)
  from cycle_settles[where proves = "task_proof to_cbor S" and prf' = "pj_proof res" and pv = "sdk_public_values S",
      OF assms(6) p assms(3) slots assms(8,7) task dec assms(9-11) _ assms(13)] assms(12)
  obtain s :: "('x, 'h, 'c, 'u, 'v, 'g, 'p, 'r) bridge_system" and pm where
    s: "bridge_reach (sdk_public_values S) (task_proof to_cbor S) (proxy_answers E H env worlds proxy) oe disk0 (slot, h, c) s"
    "hs_staged (sy_head s) = [w]" "ProofEvent pm \<in> set (hs_events (sy_head s))" "pm_proof pm = pj_proof res" "message_for out w pm"
    "head_triple (hs_head (sy_head s)) = proof_triple pm" "detector_triple (ds_detector (sy_detector s)) = proof_triple pm"
    "resumes_at (oe_codec oe) (oe_json_text oe) (snd (sy_observer s)) (proof_triple pm)"
    by auto
  from s slots(2) triple[OF s(5)] show ?thesis by (intro exI[of _ s] exI[of _ pm]) simp
qed

lemma sample_prover:
  "\<exists>w out st'. prepare_consensus_mpt_proof_inputs sample_beacon sample_env sample_helios sample_var sample_cnet sample_net
      sample_proxy 64 (sample_hash 64) 0 True = Inr w \<and>
    finality_update_job (sample_to_cbor (wi_proof_inputs w)) (sample_sdk (wi_proof_inputs w)) sample_pools
      mock_groth16 1 64 (wi_proof_inputs w) sample_state = (Inr out, st')"
proof -
  obtain w where w: "prepare_consensus_mpt_proof_inputs sample_beacon sample_env sample_helios sample_var sample_cnet sample_net
      sample_proxy 64 (sample_hash 64) 0 True = Inr w" using sample_window by (auto simp: is_ok_iff)
  from prepared_window_accepted[OF w] sample_job show ?thesis using w by blast
qed

lemma sample_settled_run:
  "\<exists>i w (s :: (unit, unit, u8, u64, u64, unit, bytes, nat) bridge_system) pm.
     bridge_reach (sdk_public_values (sample_sdk i)) (task_proof (sample_to_cbor i) (sample_sdk i)) sample_answers
       sample_observer_env sample_disk (64, sample_hash 64, 0) s \<and>
     hs_staged (sy_head s) = [w] \<and> ProofEvent pm \<in> set (hs_events (sy_head s)) \<and>
     head_triple (hs_head (sy_head s)) = proof_triple pm \<and> 64 < pm_output_slot pm"
proof -
  obtain w out st' where w: "prepare_consensus_mpt_proof_inputs sample_beacon sample_env sample_helios sample_var sample_cnet sample_net
      sample_proxy 64 (sample_hash 64) 0 True = Inr w"
    and job: "finality_update_job (sample_to_cbor (wi_proof_inputs w)) (sample_sdk (wi_proof_inputs w)) sample_pools
      mock_groth16 1 64 (wi_proof_inputs w) sample_state = (Inr out, st')" using sample_prover by blast
  let ?i = "wi_proof_inputs w"
  from window_settles[OF sample_sdk_sound sample_cbor_round w _ job, where he = sample_head_env and oe = sample_observer_env
      and ?disk0.0 = sample_disk and worlds = "{(sample_beacon, sample_cnet, sample_net)}" and bs = "pj_proof out"]
  obtain s :: "(unit, unit, u8, u64, u64, unit, bytes, nat) bridge_system" and pm where
    s: "bridge_reach (sdk_public_values (sample_sdk ?i)) (task_proof (sample_to_cbor ?i) (sample_sdk ?i)) sample_answers
       sample_observer_env sample_disk (64, sample_hash 64, 0) s" "hs_staged (sy_head s) = [w]"
    "ProofEvent pm \<in> set (hs_events (sy_head s))" "proof_triple pm = expected_triple w" "64 < wi_expected_output_slot w"
    "head_triple (hs_head (sy_head s)) = expected_triple w"
    by (auto simp: sample_observer_laws accepting_sample sample_answers_def)
  then show ?thesis
    by (intro exI[of _ ?i] exI[of _ w] exI[of _ s] exI[of _ pm]) (simp add: proof_triple_def expected_triple_def)
qed

section \<open>Properties\<close>



text \<open>C2: Everything the bridge publishes or settles descends from its start. With a sound SP1, at every moment, the
  output of every published proof, the bridge head and the detector are reached from where the process started by a
  chain of staged windows that the guest accepts, each starting with the slot, store hash and queue cursor at which the
  one before it ended; slots strictly increase along the chain. A published proof is itself the last
  link of such a chain, from the store hash and cursor in its message.\<close>

theorem published_proofs_descend:
  assumes "sdk_sound (guest_main E H cbor) S" and "\<And>i bs. to_cbor i = Inr bs \<Longrightarrow> cbor bs = Inr i"
    and "bridge_reach (sdk_public_values S) (task_proof to_cbor S) (proxy_answers E H env worlds proxy) oe disk0 start s"
    and "ProofEvent pm \<in> set (hs_events (sy_head s))"
  shows "let reached = descends E H (set (hs_staged (sy_head s))) start in
    (\<exists>slot w. reached (slot, pm_input_store_hash pm, pm_input_queue_cursor pm) \<and> slot < pm_output_slot pm \<and>
       w \<in> set (hs_staged (sy_head s)) \<and> provable_from E H slot (pm_input_store_hash pm) (pm_input_queue_cursor pm) w \<and>
       expected_triple w = proof_triple pm) \<and>
    reached (proof_triple pm) \<and> reached (head_triple (hs_head (sy_head s))) \<and>
    reached (detector_triple (ds_detector (sy_detector s)))"
proof -
  note reached = anchored_descends[OF assms(1-3)]
  obtain w out where w: "w \<in> set (hs_staged (sy_head s))" "prepared_at (proxy_answers E H env worlds proxy) (anchored start s) w"
    and run: "consensus_mpt_program E H (wi_proof_inputs w) = Inr out" and pm: "message_for out w pm"
    using published_window[OF assms] by auto
  from prepared_at_facts(2)[OF w(2)] obtain slot h c where a: "anchored start s (slot, h, c)" and f: "provable_from E H slot h c w"
    by blast
  from expected_output[OF f run] pm have e: "expected_triple w = proof_triple pm" by (simp add: message_for_def proof_triple_def)
  from f run pm have i: "h = pm_input_store_hash pm" "c = pm_input_queue_cursor pm" "slot < pm_output_slot pm"
    by (auto simp: provable_from_def message_for_def)
  from system_settled[OF assms(3)] assms(4) have "anchored start s (proof_triple pm)" "anchored start s (head_triple (hs_head (sy_head s)))"
    "anchored start s (detector_triple (ds_detector (sy_detector s)))"
    by (auto simp: all_settled_def Let_def anchored_def settled_def)
  with reached a f i e w(1) show ?thesis unfolding Let_def by (intro conjI exI[of _ slot] exI[of _ w]) auto
qed

theorem published_proofs_descend_witness:
  "\<exists>i (s :: (unit, unit, u8, u64, u64, unit, bytes, nat) bridge_system) pm.
     bridge_reach (sdk_public_values (sample_sdk i)) (task_proof (sample_to_cbor i) (sample_sdk i)) sample_answers
       sample_observer_env sample_disk (64, sample_hash 64, 0) s \<and>
     ProofEvent pm \<in> set (hs_events (sy_head s)) \<and> 64 < pm_output_slot pm \<and>
     descends sample_env sample_helios (set (hs_staged (sy_head s))) (64, sample_hash 64, 0) (proof_triple pm)"
proof -
  obtain i w and s :: "(unit, unit, u8, u64, u64, unit, bytes, nat) bridge_system" and pm where
    s: "bridge_reach (sdk_public_values (sample_sdk i)) (task_proof (sample_to_cbor i) (sample_sdk i)) sample_answers
       sample_observer_env sample_disk (64, sample_hash 64, 0) s"
    and st: "hs_staged (sy_head s) = [w]" and pm: "ProofEvent pm \<in> set (hs_events (sy_head s))" "64 < pm_output_slot pm"
    using sample_settled_run by (elim exE conjE) (rule that)
  from published_proofs_descend[OF sample_sdk_sound sample_cbor_round s[unfolded sample_answers_def] pm(1)] s pm
  show ?thesis by (intro exI[of _ i] exI[of _ s] exI[of _ pm]) (simp add: Let_def)
qed

text \<open>C3: Every head in the process is settled, and so is what a restart would read. At every moment, the bridge head and the
  detector stand where the process started or at the output of a published proof, so does every head on its way to the
  detector, and the disk is the one the process started with or makes any restart begin at the output of a
  published proof.\<close>

theorem heads_always_settled:
  assumes "bridge_reach pv proves answers oe disk0 start s" and "text_laws (oe_codec oe) (oe_json_text oe)"
  shows "settled start (hs_events (sy_head s)) (head_triple (hs_head (sy_head s))) \<and>
    settled start (hs_events (sy_head s)) (detector_triple (ds_detector (sy_detector s))) \<and>
    list_all (settled start (hs_events (sy_head s)) \<circ> update_triple) (sy_advance s) \<and>
    (snd (sy_observer s) = disk0 \<or> (\<exists>pm. ProofEvent pm \<in> set (hs_events (sy_head s)) \<and>
      start_point (oe_codec oe) (oe_json_text oe) (snd (sy_observer s)) pu pp pa B H CN env =
         Inr (pm_output_slot pm, pm_output_store_hash pm, pm_output_queue_cursor pm)))"
  using system_settled[OF assms(1)] system_disk[OF assms]
  by (auto simp: all_settled_def Let_def list_all_iff proof_triple_def dest: resumes_start_point)

theorem heads_always_settled_witness:
  "\<exists>i (s :: (unit, unit, u8, u64, u64, unit, bytes, nat) bridge_system) pm.
     bridge_reach (sdk_public_values (sample_sdk i)) (task_proof (sample_to_cbor i) (sample_sdk i)) sample_answers
       sample_observer_env sample_disk (64, sample_hash 64, 0) s \<and> ProofEvent pm \<in> set (hs_events (sy_head s)) \<and>
     head_triple (hs_head (sy_head s)) = proof_triple pm \<and> 64 < pm_output_slot pm \<and> settled (64, sample_hash 64, 0) (hs_events (sy_head s)) (detector_triple (ds_detector (sy_detector s)))"
proof -
  obtain i and s :: "(unit, unit, u8, u64, u64, unit, bytes, nat) bridge_system" and pm where
    s: "bridge_reach (sdk_public_values (sample_sdk i)) (task_proof (sample_to_cbor i) (sample_sdk i)) sample_answers
       sample_observer_env sample_disk (64, sample_hash 64, 0) s"
    and pm: "ProofEvent pm \<in> set (hs_events (sy_head s))" "head_triple (hs_head (sy_head s)) = proof_triple pm" "64 < pm_output_slot pm"
    using sample_settled_run by (elim exE conjE) (rule that)
  have "settled (64, sample_hash 64, 0) (hs_events (sy_head s)) (detector_triple (ds_detector (sy_detector s)))"
    using heads_always_settled[OF s, THEN conjunct2, THEN conjunct1] by (simp add: sample_observer_laws)
  with pm s show ?thesis by (intro exI[of _ i] exI[of _ s] exI[of _ pm]) simp
qed



text \<open>C5: There is exactly one piece of work. At every moment exactly one of these holds: a prover task is outstanding, the
  event that reports the end of a task or the start of the bridge head is still unread, a window is ordered, or the observer
  is set to stage the next finality. So two jobs never run at once, and work is never lost: whenever nothing is running,
  reported or ordered, the next finality is staged. A failure always reports that no other job is outstanding, so the
  observer always retries; commands are at most an advance followed by an order.\<close>

theorem one_job_at_a_time:
  assumes "bridge_reach pv proves answers oe disk0 start s"
  shows "length (hs_running (sy_head s)) + length (filter carries (sy_events s)) + length (filter is_stage (sy_commands s)) +
      of_bool (ob_stage_transition_proof (fst (sy_observer s))) = 1 \<and>
    length (bh_prover_jobs (hs_head (sy_head s))) = length (hs_running (sy_head s)) \<and>
    quiet_failures (sy_events s) \<and> orderly (sy_commands s)"
proof -
  note pipe = system_pipeline[OF assms, unfolded pipeline_defs]
  moreover from pipe have "length (bh_prover_jobs (hs_head (sy_head s))) = length (hs_running (sy_head s))"
    by (simp add: table_ok_def running_of_def)
  ultimately show ?thesis by linarith
qed

theorem one_job_at_a_time_witness:
  "\<exists>i w (s :: (unit, unit, u8, u64, u64, unit, bytes, nat) bridge_system).
     bridge_reach (sdk_public_values (sample_sdk i)) (task_proof (sample_to_cbor i) (sample_sdk i)) sample_answers
       sample_observer_env sample_disk (64, sample_hash 64, 0) s \<and> hs_staged (sy_head s) = [w] \<and>
     length (hs_running (sy_head s)) \<le> 1 \<and> orderly (sy_commands s)"
proof -
  obtain i w and s :: "(unit, unit, u8, u64, u64, unit, bytes, nat) bridge_system" where
    s: "bridge_reach (sdk_public_values (sample_sdk i)) (task_proof (sample_to_cbor i) (sample_sdk i)) sample_answers
       sample_observer_env sample_disk (64, sample_hash 64, 0) s" and st: "hs_staged (sy_head s) = [w]"
    using sample_settled_run by (elim exE conjE) (rule that)
  from one_job_at_a_time[OF s] st s show ?thesis by (intro exI[of _ i] exI[of _ w] exI[of _ s]) auto
qed

text \<open>C18: Every reachable state of the process is well formed. Outstanding prover tasks have distinct ids and are exactly the
  jobs in the table; at most one validation is under way and \<open>in_flight\<close> says whether; the detector's filter never falls
  below its head; every event the observer has yet to read was emitted; and every staged window was prepared by the
  proxy, from a settled head or from the expected output of a staged window.\<close>

theorem process_well_formed:
  assumes "bridge_reach pv proves answers oe disk0 start s"
  shows "distinct (map fst (hs_running (sy_head s))) \<and>
    hs_running (sy_head s) = running_of (bh_prover_jobs (hs_head (sy_head s))) \<and>
    outstanding (sy_detector s) = (if d_in_flight (ds_detector (sy_detector s)) then 1 else 0) \<and>
    d_slot (ds_detector (sy_detector s)) \<le> d_latest_slot (ds_detector (sy_detector s)) \<and>
    set (sy_events s) \<subseteq> set (hs_events (sy_head s)) \<and>
    list_all (prepared_at answers (anchored start s)) (hs_staged (sy_head s))"
proof -
  obtain slot h c where start: "start = (slot, h, c)" by (cases start)
  from system_chain[OF assms order_refl] have "list_all (prepared_at answers (anchored start s)) (hs_staged (sy_head s))"
    by (auto simp: chain_inv_def head_inv_def dest: head_reach_inv)
  moreover from detector_inv_reach[OF system_detector[OF assms start]]
  have "outstanding (sy_detector s) = (if d_in_flight (ds_detector (sy_detector s)) then 1 else 0)"
    "d_slot (ds_detector (sy_detector s)) \<le> d_latest_slot (ds_detector (sy_detector s))"
    by (simp_all add: detector_inv_def)
  moreover from system_pipeline[OF assms] have "length (hs_running (sy_head s)) \<le> 1" "table_ok (sy_head s)"
    by (simp_all add: pipeline_def with_head_def)
  then have "distinct (map fst (hs_running (sy_head s)))" by (cases "hs_running (sy_head s)") simp_all
  moreover from \<open>table_ok (sy_head s)\<close> have "hs_running (sy_head s) = running_of (bh_prover_jobs (hs_head (sy_head s)))"
    by (simp add: table_ok_def)
  ultimately show ?thesis using system_settled[OF assms] by (simp add: all_settled_def Let_def)
qed

theorem process_well_formed_witness:
  "\<exists>i (s :: (unit, unit, u8, u64, u64, unit, bytes, nat) bridge_system).
     bridge_reach (sdk_public_values (sample_sdk i)) (task_proof (sample_to_cbor i) (sample_sdk i)) sample_answers
       sample_observer_env sample_disk (64, sample_hash 64, 0) s \<and> hs_staged (sy_head s) \<noteq> [] \<and>
     list_all (prepared_at sample_answers (anchored (64, sample_hash 64, 0) s)) (hs_staged (sy_head s))"
proof -
  obtain i w and s :: "(unit, unit, u8, u64, u64, unit, bytes, nat) bridge_system" where
    s: "bridge_reach (sdk_public_values (sample_sdk i)) (task_proof (sample_to_cbor i) (sample_sdk i)) sample_answers
       sample_observer_env sample_disk (64, sample_hash 64, 0) s" and st: "hs_staged (sy_head s) = [w]"
    using sample_settled_run by (elim exE conjE) (rule that)
  from process_well_formed[OF s] st s show ?thesis by (intro exI[of _ i] exI[of _ s]) auto
qed

text \<open>The actors agree on the settled head. When the observer handles a proof, the bridge head carries out its first
  command and forwards it to the detector, then the checkpoint on disk, the observer, the bridge head and
  the detector all hold the output slot, store hash and queue cursor of that proof, the detector accepts
  nothing at or below that slot any more and discards a validation that is still in flight.\<close>

theorem actors_agree_after_proof:
  assumes "observer_step oe (ob, d) (Some (ProofEvent m)) = (st, cmds, None)" and "text_laws (oe_codec oe) (oe_json_text oe)"
    and "head_step pv he bh (CommandInput (Some (cmds ! 0))) = (bh', msgs, None)"
    and "ToDetectorAdvance u \<in> set msgs" and "detector_step wa ca dt (AdvanceInput (Some u)) = (dt', outs, r)"
  shows "let settled = (pm_output_slot m, pm_output_store_hash m, pm_output_queue_cursor m) in
    start_point (oe_codec oe) (oe_json_text oe) (snd st) pu pp pa B H CN env = Inr settled \<and>
    (ob_current_slot (fst st), ob_store_hash (fst st), ob_queue_cursor (fst st)) = settled \<and>
    (bh_current_slot bh', bh_store_hash bh', bh_queue_cursor bh') = settled \<and>
    (d_slot dt', d_store_hash dt', d_queue_cursor dt') = settled \<and> d_latest_slot dt' = pm_output_slot m \<and>
    (d_in_flight dt \<longrightarrow> d_stale dt') \<and> outs = [] \<and> r = None"
proof -
  let ?a = "\<lparr>am_slot = pm_output_slot m, am_store_hash = pm_output_store_hash m, am_queue_cursor = pm_output_queue_cursor m\<rparr>"
  from handled_turn[OF assms(1)] have cmd: "cmds ! 0 = Advance ?a"
    and ob: "ob_current_slot (fst st) = pm_output_slot m" "ob_store_hash (fst st) = pm_output_store_hash m"
      "ob_queue_cursor (fst st) = pm_output_queue_cursor m"
    by auto
  from assms(3)[unfolded cmd] assms(4) have
    u: "u = \<lparr>fu_slot = pm_output_slot m, fu_store_hash = pm_output_store_hash m, fu_queue_cursor = pm_output_queue_cursor m\<rparr>"
    and heads: "bh_current_slot bh' = pm_output_slot m" "bh_store_hash bh' = pm_output_store_hash m"
      "bh_queue_cursor bh' = pm_output_queue_cursor m"
    by (auto simp: head_step_def head_advance_def turn_ok Let_def)
  from assms(5) have "d_slot dt' = fu_slot u \<and> d_store_hash dt' = fu_store_hash u \<and> d_queue_cursor dt' = fu_queue_cursor u \<and>
      d_latest_slot dt' = fu_slot u \<and> (d_in_flight dt \<longrightarrow> d_stale dt') \<and> outs = [] \<and> r = None"
    by (auto simp: detector_turn_defs split: option.splits if_splits)
  with handled_start[OF assms(1,2)] ob heads u show ?thesis by simp
qed


theorem actors_agree_after_proof_witness:
  "\<exists>(ob :: (unit, unit, u8, u64, u64, unit) window observer) st cmds bh' u dt'.
     observer_step sample_observer_env (ob, sample_disk) (Some (ProofEvent sample_message)) = (st, cmds, None) \<and>
     detector_step True True (detector_init 64 0 0 None) (AdvanceInput (Some u) :: (unit, unit, u8, u64, u64, unit) detector_event) =
       (dt', [], None) \<and> bh_current_slot (bh' :: (unit, unit, u8, u64, u64, unit) window bridge_head) = 96 \<and> d_slot dt' = 96"
proof -
  let ?ob = "observer_new :: (unit, unit, u8, u64, u64, unit) window observer"
  obtain st cmds where t: "observer_step sample_observer_env (?ob, sample_disk) (Some (ProofEvent sample_message)) = (st, cmds, None)"
    using sample_message_handled by blast
  then have "\<exists>a. cmds ! 0 = Advance a" using handled_turn[OF t] by auto
  then obtain a where a: "cmds ! 0 = Advance a" ..
  let ?hd = "sample_head 64 0 0 :: (unit, unit, u8, u64, u64, unit) window bridge_head"
  let ?u = "\<lparr>fu_slot = am_slot a, fu_store_hash = am_store_hash a, fu_queue_cursor = am_queue_cursor a\<rparr>"
  obtain bh' and msgs :: "(_, _, bytes, nat) head_message list" where
    head: "head_step (\<lambda>b :: bytes. b) sample_head_env ?hd (CommandInput (Some (cmds ! 0))) = (bh', msgs, None)"
    and u: "ToDetectorAdvance ?u \<in> set msgs"
    by (auto simp: a head_step_def head_advance_def trigger_listener_with_notice_def Let_def)
  obtain dt' outs r where dt: "detector_step True True (detector_init 64 0 0 None)
      (AdvanceInput (Some ?u) :: (unit, unit, u8, u64, u64, unit) detector_event) = (dt', outs, r)" by (cases rule: prod_cases3)
  have laws: "text_laws (oe_codec sample_observer_env) (oe_json_text sample_observer_env)" using sample_observer_laws by simp
  note agree = actors_agree_after_proof[OF t laws head u dt, unfolded Let_def]
  have "bh_current_slot bh' = 96" "d_slot dt' = 96" "outs = []" "r = None"
    using agree[THEN conjunct2, THEN conjunct2] by (auto simp: sample_message_def)
  with t dt show ?thesis by (intro exI[of _ ?ob] exI[of _ st] exI[of _ cmds] exI[of _ bh'] exI[of _ ?u] exI[of _ dt']) simp
qed

end
